(* ===== verification/Prelude.thy ===== *)
theory Prelude
  imports Main "HOL-Library.AList" "HOL-Library.Char_ord" "HOL-Library.List_Lexorder"
begin

text \<open>
  The shared vocabulary of the development: the exceptions of the system, the outcome of
  an operation that may throw after it has changed the state, the associative containers
  of the code (\<open>tbb::concurrent_hash_map\<close>, \<open>std::map\<close>, \<open>std::set\<close>) as association lists, and
  the generic lemmas that the component theories use through the simplifier.

  A hash map is an association list with distinct keys: \<open>map_of\<close> is \<open>find\<close>, \<open>hput\<close> stores
  a value, \<open>herase\<close> removes a key, \<open>hmodify\<close> is an update through an accessor. The order of
  the list stands for the unspecified order in which the code iterates the map. An ordered
  container (\<open>std::map\<close>, \<open>std::set\<close>) keeps its list sorted, by the lexicographic order of
  unsigned bytes that \<open>std::string\<close> compares with.
\<close>

section \<open>Exceptions and outcomes\<close>

datatype exn =
    RuntimeError string
  | LogicError string
  | ETTAlreadyRegistered string
  | JsonError string
  | AuthorityTransferExn string
  | ContainerCreationExn string
  | OutOfRange string
  | BadAnyCast
  | CRPCTimeout string
  | StdException

text \<open>The text that \<open>what()\<close> of the exception returns.\<close>

fun exn_what :: "exn \<Rightarrow> string" where
  "exn_what (RuntimeError m) = m"
| "exn_what (LogicError m) = m"
| "exn_what (ETTAlreadyRegistered i) = ''Entity with id '' @ i @ '' already exists.''"
| "exn_what (JsonError m) = m"
| "exn_what (AuthorityTransferExn m) = m"
| "exn_what (ContainerCreationExn m) = m"
| "exn_what (OutOfRange m) = m"
| "exn_what BadAnyCast = ''bad any_cast''"
| "exn_what (CRPCTimeout m) = m"
| "exn_what StdException = ''std::exception''"

text \<open>
  An operation returns a value and the new state, or throws, and then the state keeps
  every change made before the throw.
\<close>

datatype ('s, 'a) outcome = Ret 'a 's | Raise exn 's

fun obind :: "('s, 'a) outcome \<Rightarrow> ('a \<Rightarrow> 's \<Rightarrow> ('s, 'b) outcome) \<Rightarrow> ('s, 'b) outcome" where
  "obind (Ret a s) f = f a s"
| "obind (Raise e s) f = Raise e s"

fun ocatch :: "('s, 'a) outcome \<Rightarrow> (exn \<Rightarrow> 's \<Rightarrow> ('s, 'a) outcome) \<Rightarrow> ('s, 'a) outcome" where
  "ocatch (Ret a s) h = Ret a s"
| "ocatch (Raise e s) h = h e s"

fun ostate :: "('s, 'a) outcome \<Rightarrow> 's" where
  "ostate (Ret a s) = s"
| "ostate (Raise e s) = s"

fun returns :: "('s, 'a) outcome \<Rightarrow> bool" where
  "returns (Ret a s) = True"
| "returns (Raise e s) = False"

text \<open>Runs an operation on each element in turn and stops at the first throw.\<close>

fun ofold :: "('x \<Rightarrow> 's \<Rightarrow> ('s, unit) outcome) \<Rightarrow> 'x list \<Rightarrow> 's \<Rightarrow> ('s, unit) outcome" where
  "ofold f [] s = Ret () s"
| "ofold f (x # xs) s = obind (f x s) (\<lambda>_. ofold f xs)"

lemma ostate_obind: "ostate (obind m f) = (case m of Ret a s \<Rightarrow> ostate (f a s) | Raise e s \<Rightarrow> s)"
  by (cases m) auto

lemma ostate_ocatch: "ostate (ocatch m h) = (case m of Ret a s \<Rightarrow> s | Raise e s \<Rightarrow> ostate (h e s))"
  by (cases m) auto

text \<open>An invariant that every step keeps, throwing or not, holds after the whole loop.\<close>

lemma ofold_invariant:
  assumes "P s" and "\<And>x s. x \<in> set xs \<Longrightarrow> P s \<Longrightarrow> P (ostate (f x s))"
  shows "P (ostate (ofold f xs s))"
  using assms
proof (induction xs arbitrary: s)
  case (Cons x xs)
  then show ?case by (cases "f x s") (auto split: outcome.splits, metis list.set_intros(1) ostate.simps(1),
        metis list.set_intros(1) ostate.simps(2))
qed simp

section \<open>Hash maps\<close>

type_synonym ('k, 'v) hmap = "('k \<times> 'v) list"

abbreviation hput :: "'k \<Rightarrow> 'v \<Rightarrow> ('k, 'v) hmap \<Rightarrow> ('k, 'v) hmap" where
  "hput \<equiv> AList.update"

abbreviation herase :: "'k \<Rightarrow> ('k, 'v) hmap \<Rightarrow> ('k, 'v) hmap" where
  "herase \<equiv> AList.delete"

abbreviation hkeys :: "('k, 'v) hmap \<Rightarrow> 'k list" where
  "hkeys m \<equiv> map fst m"

text \<open>An update of the entry of one key, in place; nothing happens to a key that is absent.\<close>

fun hmodify :: "'k \<Rightarrow> ('v \<Rightarrow> 'v) \<Rightarrow> ('k, 'v) hmap \<Rightarrow> ('k, 'v) hmap" where
  "hmodify k f [] = []"
| "hmodify k f (p # ps) = (if fst p = k then (k, f (snd p)) # ps else p # hmodify k f ps)"

definition hcontains :: "('k, 'v) hmap \<Rightarrow> 'k \<Rightarrow> bool" where
  "hcontains m k = (map_of m k \<noteq> None)"

named_theorems hmap_simps \<open>lookup after an update of a hash map\<close>

lemma hmodify_conv [hmap_simps]:
  "map_of (hmodify k f m) k' = (if k' = k then map_option f (map_of m k) else map_of m k')"
  by (induction m) auto

lemma hkeys_hmodify [simp]: "hkeys (hmodify k f m) = hkeys m"
  by (induction m) auto

lemma map_of_hput [hmap_simps]: "map_of (hput k v m) k' = (if k' = k then Some v else map_of m k')"
  by (simp add: AList.update_conv')

lemma map_of_herase [hmap_simps]: "map_of (herase k m) k' = (if k' = k then None else map_of m k')"
  by (simp add: AList.delete_conv')

lemma distinct_hput [simp]: "distinct (hkeys m) \<Longrightarrow> distinct (hkeys (hput k v m))"
  by (rule AList.distinct_update)

lemma distinct_herase [simp]: "distinct (hkeys m) \<Longrightarrow> distinct (hkeys (herase k m))"
  by (rule AList.distinct_delete)

lemma dom_hput [simp]: "fst ` set (hput k v m) = insert k (fst ` set m)"
  by (simp add: AList.dom_update)

lemma dom_herase [simp]: "fst ` set (herase k m) = fst ` set m - {k}"
  using AList.delete_keys [of k m] by (metis list.set_map set_removeAll)

lemma dom_hmodify [simp]: "fst ` set (hmodify k f m) = fst ` set m"
  by (induction m) auto

lemma map_of_in_hkeys: "map_of m k = Some v \<Longrightarrow> k \<in> fst ` set m"
  by (metis map_of_eq_None_iff option.distinct(1))

lemma map_of_None_hkeys: "(map_of m k = None) = (k \<notin> fst ` set m)"
  by (simp add: map_of_eq_None_iff)

lemma hcontains_iff: "hcontains m k \<longleftrightarrow> k \<in> fst ` set m"
  by (simp add: hcontains_def map_of_None_hkeys)

lemma hmodify_absent [simp]: "map_of m k = None \<Longrightarrow> hmodify k f m = m"
  by (induction m) (auto split: if_splits)

text \<open>A property of every object of a registry, whose keys are distinct.\<close>

definition objects_ok :: "('k \<Rightarrow> 'v \<Rightarrow> bool) \<Rightarrow> ('k, 'v) hmap \<Rightarrow> bool" where
  "objects_ok P m \<longleftrightarrow> distinct (hkeys m) \<and> (\<forall>k v. map_of m k = Some v \<longrightarrow> P k v)"

lemma objects_ok_Nil [simp]: "objects_ok P []"
  by (simp add: objects_ok_def)

lemma objects_ok_hput: "objects_ok P m \<Longrightarrow> P k v \<Longrightarrow> objects_ok P (hput k v m)"
  by (simp add: objects_ok_def hmap_simps)

lemma objects_ok_herase: "objects_ok P m \<Longrightarrow> objects_ok P (herase k m)"
  by (simp add: objects_ok_def hmap_simps)

lemma objects_ok_hmodify:
  "objects_ok P m \<Longrightarrow> (\<And>v. map_of m k = Some v \<Longrightarrow> P k v \<Longrightarrow> P k (f v)) \<Longrightarrow> objects_ok P (hmodify k f m)"
  by (auto simp: objects_ok_def hmap_simps)

lemma objects_okD: "objects_ok P m \<Longrightarrow> map_of m k = Some v \<Longrightarrow> P k v"
  by (simp add: objects_ok_def)

section \<open>Registries\<close>

text \<open>
  A registry of objects under string keys, as the rest of the program uses it: \<open>table s\<close> is its
  content in the state \<open>s\<close>, and \<open>update k f\<close> is \<open>RunWithLock\<close> with a function that changes the
  object. The registries of the program are interpretations.
\<close>

locale registry =
  fixes table :: "'s \<Rightarrow> (string, 'v) hmap" and update :: "string \<Rightarrow> ('v \<Rightarrow> 'v) \<Rightarrow> 's \<Rightarrow> 's"
  assumes table_update: "table (update k f s) = hmodify k f (table s)"
begin

lemma lookup_update:
  "map_of (table (update k f s)) k' = (if k' = k then map_option f (map_of (table s) k) else map_of (table s) k')"
  by (simp add: table_update hmodify_conv)

lemma keys_update: "hkeys (table (update k f s)) = hkeys (table s)"
  by (simp add: table_update)

lemma contains_update: "hcontains (table (update k f s)) k' = hcontains (table s) k'"
  by (simp add: hcontains_def lookup_update)

lemma absent_update: "map_of (table s) k = None \<Longrightarrow> table (update k f s) = table s"
  by (simp add: table_update)

text \<open>A property of the objects that the function keeps holds after the update.\<close>

lemma objects_update:
  assumes "\<And>k v. map_of (table s) k = Some v \<Longrightarrow> P k v" "\<And>v. P k v \<Longrightarrow> P k (f v)"
    and "map_of (table (update k f s)) k' = Some v"
  shows "P k' v"
  using assms by (auto simp: lookup_update split: if_splits)

lemma update_twice: "table (update k g (update k f s)) = table (update k (g \<circ> f) s)"
proof -
  have "hmodify k g (hmodify k f m) = hmodify k (g \<circ> f) m" for m by (induction m) auto
  then show ?thesis by (simp add: table_update)
qed

end

section \<open>Invariants of transition systems\<close>

text \<open>
  A step relation with a property that every step keeps; the machines of the development are
  interpretations.
\<close>

locale invariant_system =
  fixes step :: "'s \<Rightarrow> 's \<Rightarrow> bool" and inv :: "'s \<Rightarrow> bool"
  assumes step_inv: "step s s' \<Longrightarrow> inv s \<Longrightarrow> inv s'"
begin

lemma reachable_inv:
  assumes "step\<^sup>*\<^sup>* s s'" "inv s"
  shows "inv s'"
  using assms by (induction rule: rtranclp_induct) (auto intro: step_inv)

lemma unreachable: "inv s \<Longrightarrow> \<not> inv s' \<Longrightarrow> \<not> step\<^sup>*\<^sup>* s s'"
  using reachable_inv by blast

end

section \<open>Ordered sets and maps\<close>

text \<open>\<open>std::set<std::string>\<close>: the sorted list of its elements.\<close>

fun oset_insert :: "string \<Rightarrow> string list \<Rightarrow> string list" where
  "oset_insert x [] = [x]"
| "oset_insert x (y # ys) =
     (if x < y then x # y # ys else if x = y then y # ys else y # oset_insert x ys)"

definition oset_erase :: "string \<Rightarrow> string list \<Rightarrow> string list" where
  "oset_erase x ys = filter (\<lambda>y. y \<noteq> x) ys"

text \<open>\<open>std::map<std::string, T>\<close>: \<open>omap_put\<close> is \<open>m[k] = v\<close>, \<open>omap_insert\<close> keeps an existing value.\<close>

fun omap_put :: "string \<Rightarrow> 'v \<Rightarrow> (string, 'v) hmap \<Rightarrow> (string, 'v) hmap" where
  "omap_put k v [] = [(k, v)]"
| "omap_put k v (p # ps) =
     (if k < fst p then (k, v) # p # ps
      else if k = fst p then (k, v) # ps
      else p # omap_put k v ps)"

definition omap_insert :: "string \<Rightarrow> 'v \<Rightarrow> (string, 'v) hmap \<Rightarrow> (string, 'v) hmap" where
  "omap_insert k v m = (if map_of m k = None then omap_put k v m else m)"

lemma set_oset_insert [simp]: "set (oset_insert x ys) = insert x (set ys)"
  by (induction ys) auto

lemma set_oset_erase [simp]: "set (oset_erase x ys) = set ys - {x}"
  by (auto simp: oset_erase_def)

lemma sorted_oset_insert [simp]: "sorted_wrt (<) ys \<Longrightarrow> sorted_wrt (<) (oset_insert x ys)"
proof (induction ys)
  case (Cons y ys)
  then show ?case by (cases "x < y"; cases "x = y") (auto dest: less_trans)
qed simp

lemma sorted_oset_erase [simp]: "sorted_wrt (<) ys \<Longrightarrow> sorted_wrt (<) (oset_erase x ys)"
  unfolding oset_erase_def by (rule sorted_wrt_filter)

lemma map_of_omap_put [hmap_simps]:
  "map_of (omap_put k v m) k' = (if k' = k then Some v else map_of m k')"
  by (induction m) auto

lemma dom_omap_put [simp]: "fst ` set (omap_put k v m) = insert k (fst ` set m)"
  by (induction m) auto

lemma sorted_omap_put [simp]: "sorted_wrt (<) (hkeys m) \<Longrightarrow> sorted_wrt (<) (hkeys (omap_put k v m))"
proof (induction m)
  case (Cons p ps)
  then have tail: "sorted_wrt (<) (hkeys (omap_put k v ps))" and above: "\<forall>y \<in> fst ` set ps. fst p < y"
    by auto
  consider "k < fst p" | "k = fst p" | "fst p < k" by (rule linorder_cases)
  then show ?case
  proof cases
    case 3
    have "\<forall>y \<in> fst ` set (omap_put k v ps). fst p < y" using 3 above by simp
    with 3 tail show ?thesis by auto
  qed (use Cons.prems in \<open>auto dest: less_trans\<close>)
qed simp

lemma map_of_omap_insert [hmap_simps]:
  "map_of (omap_insert k v m) k' = (if k' = k \<and> map_of m k = None then Some v else map_of m k')"
  by (auto simp: omap_insert_def hmap_simps)

section \<open>Decimal numerals\<close>

text \<open>\<open>std::to_string\<close> of an unsigned value.\<close>

fun nat_digits :: "nat \<Rightarrow> string" where
  "nat_digits n = (if n < 10 then [char_of (48 + n)] else nat_digits (n div 10) @ [char_of (48 + n mod 10)])"

declare nat_digits.simps [simp del]

end
