(* ===== verification/Json.thy ===== *)
theory Json
  imports Prelude
begin

text \<open>
  The JSON values the peers exchange and the interface to the code that is not part of the
  repository. A value is what \<open>nlohmann::json\<close> holds; the accessors below are the ones the
  sources call: \<open>j["k"].get<std::string>()\<close>, \<open>contains\<close>, assignment through \<open>operator[]\<close>
  and the iteration of \<open>items()\<close>. Printing and parsing of JSON text, the generator of
  UUIDs, the clocks, the Pulsar broker and the value of an uninitialised variable are
  fields of \<open>world\<close>, the parameter of every operation that depends on them.
\<close>

section \<open>JSON values\<close>

datatype json =
    JNull
  | JBool bool
  | JNum int
  | JStr string
  | JArr "json list"
  | JObj "(string \<times> json) list"

fun is_null :: "json \<Rightarrow> bool" where
  "is_null JNull = True"
| "is_null _ = False"

fun json_empty :: "json \<Rightarrow> bool" where
  "json_empty JNull = True"
| "json_empty (JArr xs) = (xs = [])"
| "json_empty (JObj m) = (m = [])"
| "json_empty _ = False"

text \<open>
  \<open>j[k]\<close> on an object or on null, read as a value: a missing key reads as null. On any
  other value the operator throws.
\<close>

fun json_at :: "json \<Rightarrow> string \<Rightarrow> exn + json" where
  "json_at JNull k = Inr JNull"
| "json_at (JObj m) k = (case map_of m k of None \<Rightarrow> Inr JNull | Some v \<Rightarrow> Inr v)"
| "json_at _ k = Inl (JsonError ''type_error'')"

text \<open>\<open>v.get<std::string>()\<close>, and the implicit conversion to \<open>std::string\<close>.\<close>

fun json_string :: "json \<Rightarrow> exn + string" where
  "json_string (JStr s) = Inr s"
| "json_string _ = Inl (JsonError ''type_error'')"

definition json_get_string :: "json \<Rightarrow> string \<Rightarrow> exn + string" where
  "json_get_string j k = (case json_at j k of Inl e \<Rightarrow> Inl e | Inr v \<Rightarrow> json_string v)"

definition json_contains :: "json \<Rightarrow> string \<Rightarrow> bool" where
  "json_contains j k = (case j of JObj m \<Rightarrow> map_of m k \<noteq> None | _ \<Rightarrow> False)"

text \<open>\<open>j[k] = v\<close>: null becomes an object first.\<close>

fun json_put :: "string \<Rightarrow> json \<Rightarrow> json \<Rightarrow> exn + json" where
  "json_put k v JNull = Inr (JObj [(k, v)])"
| "json_put k v (JObj m) = Inr (JObj (omap_put k v m))"
| "json_put k v _ = Inl (JsonError ''type_error'')"

text \<open>
  The pairs that \<open>items()\<close> iterates: the members of an object in key order, the elements
  of an array under their decimal index, nothing for null, and for any other value one
  pair whose key is the empty string.
\<close>

fun json_items :: "json \<Rightarrow> (string \<times> json) list" where
  "json_items JNull = []"
| "json_items (JObj m) = m"
| "json_items (JArr xs) = zip (map nat_digits [0..<length xs]) xs"
| "json_items (JBool b) = [([], JBool b)]"
| "json_items (JNum i) = [([], JNum i)]"
| "json_items (JStr s) = [([], JStr s)]"

lemma json_at_obj: "json_at (JObj m) k = Inr (case map_of m k of None \<Rightarrow> JNull | Some v \<Rightarrow> v)"
  by (simp split: option.splits)

lemma json_get_string_obj [simp]:
  "json_get_string (JObj m) k =
     (case map_of m k of None \<Rightarrow> Inl (JsonError ''type_error'') | Some v \<Rightarrow> json_string v)"
  by (simp add: json_get_string_def split: option.splits)

lemma json_put_obj_at:
  "json_put k v j = Inr j' \<Longrightarrow> json_at j' k' = (if k' = k then Inr v else json_at j k')"
  by (cases j) (auto simp: hmap_simps split: option.splits)

section \<open>The world outside the repository\<close>

text \<open>
  \<open>jparse\<close> and \<open>jdump\<close> are \<open>nlohmann::json::parse\<close> (\<open>None\<close> when it throws) and \<open>dump\<close>,
  \<open>parse_error\<close> is the text of the exception of a failed parse. The clocks are the
  sequences of the values that successive reads return, in nanoseconds for the system clock
  and in ticks for the high resolution clock. \<open>gen_uuid\<close> is the sequence of generated UUIDs. \<open>producer_ok t\<close> says whether the broker creates a producer on topic
  \<open>t\<close>, \<open>serial_ok s\<close> whether Protobuf can print a message whose argument text is \<open>s\<close>.
  \<open>uninit_bool\<close> is what an uninitialised \<open>bool\<close> member holds. \<open>initial_grape\<close> is the result
  of the engine's hook that picks the grape of a client, \<open>env_var\<close> the process environment.
  \<open>iso_text\<close> is the text that \<open>gmtime\<close> and \<open>put_time\<close> give for a number of seconds, \<open>iso_time\<close>
  the seconds that \<open>get_time\<close> and \<open>mktime\<close> give for a text, in the time zone of the process.
\<close>

record world =
  jparse :: "string \<Rightarrow> json option"
  jdump :: "json \<Rightarrow> string"
  parse_error :: "string \<Rightarrow> string"
  gen_uuid :: "nat \<Rightarrow> string"
  sys_clock :: "nat \<Rightarrow> int"
  hr_clock :: "nat \<Rightarrow> int"
  producer_ok :: "string \<Rightarrow> bool"
  serial_ok :: "string \<Rightarrow> bool"
  uninit_bool :: bool
  initial_grape :: "string \<Rightarrow> string"
  env_var :: "string \<Rightarrow> string option"
  iso_text :: "int \<Rightarrow> string"
  iso_time :: "string \<Rightarrow> int"

text \<open>
  A concrete text format for JSON values, with a parser that inverts it: it gives the
  witnesses a world in which parsing what was dumped returns the value. It is not the
  format of the library, of which nothing but this property is used.
\<close>

fun text_str :: "string \<Rightarrow> string" where
  "text_str [] = ''.''"
| "text_str (c # s) = CHR ''c'' # c # text_str s"

fun read_str :: "string \<Rightarrow> (string \<times> string) option" where
  "read_str [] = None"
| "read_str (x # rest) =
     (if x = CHR ''.'' then Some ([], rest)
      else case rest of [] \<Rightarrow> None
        | c # rest' \<Rightarrow> map_option (\<lambda>(s, r). (c # s, r)) (read_str rest'))"

fun text_json :: "json \<Rightarrow> string" and text_list :: "json list \<Rightarrow> string"
  and text_members :: "(string \<times> json) list \<Rightarrow> string" where
  "text_json JNull = ''n''"
| "text_json (JBool b) = (if b then ''t'' else ''f'')"
| "text_json (JNum i) = (if i < 0 then ''-'' else ''+'') @ text_str (replicate (nat \<bar>i\<bar>) (CHR ''1''))"
| "text_json (JStr s) = ''s'' @ text_str s"
| "text_json (JArr xs) = ''['' @ text_list xs"
| "text_json (JObj m) = ''{'' @ text_members m"
| "text_list [] = '']''"
| "text_list (x # xs) = '','' @ text_json x @ text_list xs"
| "text_members [] = ''}''"
| "text_members (kv # m) = '','' @ text_str (fst kv) @ text_json (snd kv) @ text_members m"

text \<open>The parser, with the length of its input as fuel.\<close>

fun read_json :: "nat \<Rightarrow> string \<Rightarrow> (json \<times> string) option"
  and read_list :: "nat \<Rightarrow> string \<Rightarrow> (json list \<times> string) option"
  and read_members :: "nat \<Rightarrow> string \<Rightarrow> ((string \<times> json) list \<times> string) option" where
  "read_json 0 s = None"
| "read_json (Suc n) s =
     (case s of [] \<Rightarrow> None
      | c # r \<Rightarrow>
          if c = CHR ''n'' then Some (JNull, r)
          else if c = CHR ''t'' then Some (JBool True, r)
          else if c = CHR ''f'' then Some (JBool False, r)
          else if c = CHR ''+'' then map_option (\<lambda>(s, r). (JNum (int (length s)), r)) (read_str r)
          else if c = CHR ''-'' then map_option (\<lambda>(s, r). (JNum (- int (length s)), r)) (read_str r)
          else if c = CHR ''s'' then map_option (\<lambda>(s, r). (JStr s, r)) (read_str r)
          else if c = CHR ''['' then map_option (\<lambda>(xs, r). (JArr xs, r)) (read_list n r)
          else if c = CHR ''{'' then map_option (\<lambda>(m, r). (JObj m, r)) (read_members n r)
          else None)"
| "read_list 0 s = None"
| "read_list (Suc n) s =
     (case s of [] \<Rightarrow> None
      | c # r \<Rightarrow>
          if c = CHR '']'' then Some ([], r)
          else (case read_json n r of None \<Rightarrow> None
            | Some (x, r1) \<Rightarrow> map_option (\<lambda>(xs, r). (x # xs, r)) (read_list n r1)))"
| "read_members 0 s = None"
| "read_members (Suc n) s =
     (case s of [] \<Rightarrow> None
      | c # r \<Rightarrow>
          if c = CHR ''}'' then Some ([], r)
          else (case read_str r of None \<Rightarrow> None
            | Some (k, r1) \<Rightarrow>
                (case read_json n r1 of None \<Rightarrow> None
                 | Some (v, r2) \<Rightarrow> map_option (\<lambda>(m, r). ((k, v) # m, r)) (read_members n r2))))"

lemma read_text_str [simp]: "read_str (text_str s @ r) = Some (s, r)"
  by (induction s) auto

lemma read_text:
  "length (text_json j) \<le> n \<Longrightarrow> read_json n (text_json j @ r) = Some (j, r)"
  "length (text_list xs) \<le> n \<Longrightarrow> read_list n (text_list xs @ r) = Some (xs, r)"
  "length (text_members m) \<le> n \<Longrightarrow> read_members n (text_members m @ r) = Some (m, r)"
proof (induction j and xs and m arbitrary: n r and n r and n r rule: text_json_text_list_text_members.induct)
qed (case_tac n; auto split: if_splits)+

text \<open>A concrete world, for evaluating the definitions on concrete inputs.\<close>

definition demo_world :: world where
  "demo_world =
     \<lparr>jparse = (\<lambda>s. case read_json (length s) s of Some (j, []) \<Rightarrow> Some j | _ \<Rightarrow> None),
      jdump = text_json,
      parse_error = (\<lambda>_. ''parse error''),
      gen_uuid = (\<lambda>n. ''uuid-'' @ replicate n (CHR ''x'')),
      sys_clock = (\<lambda>n. int n),
      hr_clock = (\<lambda>n. int n),
      producer_ok = (\<lambda>_. True),
      serial_ok = (\<lambda>_. True),
      uninit_bool = False,
      initial_grape = (\<lambda>_. ''grape''),
      env_var = (\<lambda>_. None),
      iso_text = (\<lambda>t. replicate (nat t) (CHR ''s'')),
      iso_time = (\<lambda>s. int (length s))\<rparr>"

lemma demo_roundtrip [simp]: "jparse demo_world (jdump demo_world j) = Some j"
  using read_text(1) [of j "length (text_json j)" "[]"] by (simp add: demo_world_def)

lemma demo_world_ok [simp]: "producer_ok demo_world t" "serial_ok demo_world a"
  by (simp_all add: demo_world_def)

end
