(* ===== verification/Topics.thy ===== *)
theory Topics
  imports Json
begin

text \<open>
  The names of the Pulsar topics (\<open>Topics.cpp\<close>), the scopes to which a call is addressed
  (\<open>on_peer\<close> and \<open>on_scope\<close> of \<open>CRPC.hpp\<close>) and the configuration (\<open>Config.cpp\<close>), whose session
  id is part of the scope. The lemmas say which topics can coincide, that a call reaches
  the topic its handlers listen on, and that sessions do not share topics.
\<close>

section \<open>Topic names\<close>

text \<open>The argument \<open>ds\<close> is the module variable \<open>default_scope_name\<close>.\<close>

definition initial_scope :: string where
  "initial_scope = ''non-persistent://public/default/''"

definition tp_rpc :: "string \<Rightarrow> string \<Rightarrow> string" where
  "tp_rpc ds str = ds @ str @ ''.rpc''"

definition tp_peer :: "string \<Rightarrow> string \<Rightarrow> string" where
  "tp_peer ds str = ds @ str"

definition tp_input :: "string \<Rightarrow> string \<Rightarrow> string" where
  "tp_input ds str = ds @ str @ ''.input''"

definition tp_repl :: "string \<Rightarrow> string \<Rightarrow> string" where
  "tp_repl ds str = ds @ str @ ''.repl''"

definition hello_master_sn :: "string \<Rightarrow> string" where
  "hello_master_sn ds = ds @ ''master.hello.sn''"

definition hello_master_cl :: "string \<Rightarrow> string" where
  "hello_master_cl ds = ds @ ''master.hello.client''"

definition global_clock :: string where
  "global_clock = ''persistent://public/default/global.clock''"

definition global_rpc :: "string \<Rightarrow> string" where
  "global_rpc ds = ds @ ''global.rpc''"

definition hello_client :: "string \<Rightarrow> string" where
  "hello_client ds = ds @ ''client.hello''"

text \<open>The scope of a call, and whether the call goes to several peers.\<close>

definition on_peer :: "string \<Rightarrow> string \<Rightarrow> string \<times> bool" where
  "on_peer ds peer = (ds @ peer, False)"

definition on_scope :: "string \<Rightarrow> string \<Rightarrow> string \<times> bool" where
  "on_scope ds scope = (ds @ scope @ ''.rpc'', True)"

lemmas topic_defs = tp_rpc_def tp_peer_def tp_input_def tp_repl_def global_rpc_def
  on_peer_def on_scope_def

lemma suffix_neq:
  assumes "length u = length v" and "u \<noteq> v"
  shows "a @ u \<noteq> b @ (v :: string)"
  using assms by (metis append_eq_append_conv)

lemma rpc_inj [simp]: "tp_rpc ds a = tp_rpc ds b \<longleftrightarrow> a = b"
  and peer_inj [simp]: "tp_peer ds a = tp_peer ds b \<longleftrightarrow> a = b"
  and input_inj [simp]: "tp_input ds a = tp_input ds b \<longleftrightarrow> a = b"
  and repl_inj [simp]: "tp_repl ds a = tp_repl ds b \<longleftrightarrow> a = b"
  by (simp_all add: topic_defs)

text \<open>The last character separates the three kinds of container topics.\<close>

lemma last_rpc [simp]: "last (tp_rpc ds a) = CHR ''c''"
  and last_input [simp]: "last (tp_input ds a) = CHR ''t''"
  and last_repl [simp]: "last (tp_repl ds a) = CHR ''l''"
  by (simp_all add: topic_defs)

lemma kinds_disjoint [simp]:
  "tp_rpc ds a \<noteq> tp_input ds' b" "tp_rpc ds a \<noteq> tp_repl ds' b" "tp_input ds a \<noteq> tp_repl ds' b"
  using last_rpc [of ds a] last_input [of ds' b] last_repl [of ds' b] last_input [of ds a]
  by force+

text \<open>A call on a scope or on a peer goes where \<open>tp::rpc\<close> and \<open>tp::peer\<close> point.\<close>

lemma on_scope_rpc [simp]: "on_scope ds s = (tp_rpc ds s, True)"
  and on_peer_peer [simp]: "on_peer ds s = (tp_peer ds s, False)"
  by (simp_all add: topic_defs)

text \<open>A peer topic is an rpc topic only for an id that itself ends in the suffix.\<close>

lemma peer_eq_rpc: "tp_peer ds a = tp_rpc ds b \<longleftrightarrow> a = b @ ''.rpc''"
  by (simp add: topic_defs)

section \<open>Configuration\<close>

record config =
  cfg_options :: "(string, string) hmap"
  cfg_session :: string

text \<open>The constructor: the options of the file, then a default for each option that is absent.\<close>

definition config_defaults :: "(string \<times> string) list" where
  "config_defaults =
     [(''CELTE_REDIS_HOST'', ''localhost''), (''CELTE_REDIS_PORT'', ''6379''),
      (''CELTE_REDIS_KEY'', ''logs''), (''PUSHGATEWAY_HOST'', ''localhost''),
      (''PUSHGATEWAY_PORT'', ''9091''), (''METRICS_UPLOAD_INTERVAL'', ''5''),
      (''REPLICATION_INTERVAL'', ''1000'')]"

definition config_default :: "string \<times> string \<Rightarrow> (string, string) hmap \<Rightarrow> (string, string) hmap" where
  "config_default kv m = (if map_of m (fst kv) = None then hput (fst kv) (snd kv) m else m)"

definition new_config :: "(string \<times> string) list \<Rightarrow> config" where
  "new_config entries =
     \<lparr>cfg_options = fold config_default config_defaults (fold (\<lambda>kv. hput (fst kv) (snd kv)) entries []),
      cfg_session = ''default''\<rparr>"

text \<open>\<open>Config::Get\<close>: the options, then the environment of the process.\<close>

definition config_get :: "(string \<Rightarrow> string option) \<Rightarrow> config \<Rightarrow> string \<Rightarrow> string option" where
  "config_get env c key =
     (case map_of (cfg_options c) key of
        None \<Rightarrow> env key
      | Some v \<Rightarrow> Some v)"

definition config_set :: "string \<Rightarrow> string \<Rightarrow> config \<Rightarrow> config" where
  "config_set key v c = c\<lparr>cfg_options := hput key v (cfg_options c)\<rparr>"

text \<open>\<open>Config::SetSessionId\<close>: the new scope of the topics, and the configuration.\<close>

definition SetSessionId :: "string \<Rightarrow> config \<Rightarrow> string \<times> config" where
  "SetSessionId sid c = (''non-persistent://public/'' @ sid @ ''/'', c\<lparr>cfg_session := sid\<rparr>)"

lemma map_of_defaults:
  "map_of (fold config_default ds m) k =
     (case map_of m k of Some v \<Rightarrow> Some v | None \<Rightarrow> map_of ds k)"
proof (induction ds arbitrary: m)
  case (Cons d ds)
  have step: "map_of (config_default d m) k =
      (case map_of m k of Some v \<Rightarrow> Some v | None \<Rightarrow> map_of [d] k)"
    by (cases d) (auto simp: config_default_def hmap_simps split: option.splits)
  have "map_of (fold config_default (d # ds) m) k =
      (case map_of (config_default d m) k of Some v \<Rightarrow> Some v | None \<Rightarrow> map_of ds k)"
    by (simp add: Cons.IH [of "config_default d m"])
  then show ?case
    unfolding step by (cases d) (auto split: option.splits)
qed (auto split: option.splits)

lemma map_of_file:
  "map_of (fold (\<lambda>kv. hput (fst kv) (snd kv)) entries m) k =
     (case map_of (rev entries) k of Some v \<Rightarrow> Some v | None \<Rightarrow> map_of m k)"
  by (induction entries arbitrary: m) (auto simp: hmap_simps map_add_def split: option.splits)

text \<open>
  Two sessions whose ids hold no slash have no topic in common, whatever the names of
  the peers, containers and grapes of the two games.
\<close>

lemma append_sep_eq:
  assumes "c \<notin> set a" "c \<notin> set b" "a @ c # x = b @ c # y"
  shows "a = b \<and> x = y"
  using assms
proof (induction a arbitrary: b)
  case Nil
  then show ?case by (cases b) auto
next
  case (Cons h a)
  then show ?case by (cases b) auto
qed

lemma fst_SetSessionId [simp]: "fst (SetSessionId sid c) = ''non-persistent://public/'' @ sid @ ''/''"
  by (simp add: SetSessionId_def)

text \<open>Two game sessions whose ids hold no slash share no topic: when a topic of one equals
  a topic of the other, the session ids are equal and so are the names below the scope.\<close>
lemma session_topics_disjoint:
  assumes "CHR ''/'' \<notin> set sid1" and "CHR ''/'' \<notin> set sid2"
    and "tp_peer (fst (SetSessionId sid1 c1)) a = tp_peer (fst (SetSessionId sid2 c2)) b"
  shows "sid1 = sid2 \<and> a = b"
proof -
  have "sid1 @ CHR ''/'' # a = sid2 @ CHR ''/'' # b"
    using assms(3) by (simp add: tp_peer_def)
  then show ?thesis by (rule append_sep_eq [OF assms(1,2)])
qed

lemma session_topics_disjoint_witness:
  "tp_peer (fst (SetSessionId ''game1'' (new_config []))) ''p'' \<noteq> tp_peer (fst (SetSessionId ''game2'' (new_config []))) ''p''"
  using session_topics_disjoint [of "''game1''" "''game2''" "new_config []" "''p''" "new_config []" "''p''"]
  by fastforce

text \<open>A call addressed with \<open>on_scope(tp::global_rpc())\<close>, as \<open>CallGlobalRPC\<close> does, never goes
  to the topic \<open>tp::global_rpc()\<close> on which the \<open>Global\<close> service of every peer listens: the
  scope is prefixed and suffixed a second time.\<close>
lemma global_rpc_unreachable: "fst (on_scope ds (global_rpc ds)) \<noteq> global_rpc ds"
proof
  assume "fst (on_scope ds (global_rpc ds)) = global_rpc ds"
  then have "length (fst (on_scope ds (global_rpc ds))) = length (global_rpc ds)" by simp
  then show False by (simp add: topic_defs)
qed

text \<open>\<open>Config::Get\<close> reads, in this order: the last entry of the file for the key, the built-in
  default of the key, the process environment. So an environment variable never overrides
  the file or a default.\<close>
lemma config_get_precedence:
  "config_get env (new_config entries) key =
     (case map_of (rev entries) key of
        Some v \<Rightarrow> Some v
      | None \<Rightarrow> (case map_of config_defaults key of Some v \<Rightarrow> Some v | None \<Rightarrow> env key))"
  by (auto simp: config_get_def new_config_def map_of_defaults map_of_file split: option.splits)

end
