(* ===== verification/Services.thy ===== *)
theory Services
  imports Json Topics
begin

text \<open>
  The small services around the core: the identity of a peer and its connection parameters
  (\<open>Runtime\<close>), the client of the Pulsar cluster (\<open>CelteNet\<close>), the registry of procedures
  (\<open>UniqueProcedures\<close>), the HTTP client (\<open>HttpClient\<close>, \<open>SendHttpRequest\<close>) and the metrics
  (\<open>MetricsScrapper\<close>). The process environment, the answers of HTTP servers and what the
  getters and callbacks of the engine return are arguments.
\<close>

section \<open>Numbers in the configuration\<close>

text \<open>\<open>std::stoi\<close>: white space, a sign and decimal digits; the rest of the text is ignored.\<close>

definition is_space :: "char \<Rightarrow> bool" where
  "is_space c \<longleftrightarrow> c \<in> set [CHR '' '', CHR 0x09, CHR 0x0A, CHR 0x0B, CHR 0x0C, CHR 0x0D]"

definition is_digit :: "char \<Rightarrow> bool" where
  "is_digit c \<longleftrightarrow> 48 \<le> (of_char c :: nat) \<and> (of_char c :: nat) \<le> 57"

definition digits_value :: "string \<Rightarrow> nat" where
  "digits_value ds = foldl (\<lambda>n c. 10 * n + (of_char c - 48)) 0 ds"

definition stoi :: "string \<Rightarrow> exn + int" where
  "stoi text =
     (let s = dropWhile is_space text;
          neg = (s \<noteq> [] \<and> hd s = CHR ''-'');
          body = (if s \<noteq> [] \<and> (hd s = CHR ''-'' \<or> hd s = CHR ''+'') then tl s else s);
          ds = takeWhile is_digit body;
          n = (if neg then - int (digits_value ds) else int (digits_value ds))
      in if ds = [] then Inl (LogicError ''stoi'')
         else if n < - (2 ^ 31) \<or> n \<ge> 2 ^ 31 then Inl (OutOfRange ''stoi'')
         else Inr n)"

section \<open>Identity and connection\<close>

definition make_uuid :: "bool \<Rightarrow> (string \<Rightarrow> string option) \<Rightarrow> string \<Rightarrow> string" where
  "make_uuid server env uuid =
     (if server then (case env ''CELTE_NODE_ID'' of Some nodeId \<Rightarrow> nodeId | None \<Rightarrow> ''sn.'' @ uuid)
      else ''cl.'' @ uuid)"

definition value_or :: "string \<Rightarrow> string option \<Rightarrow> string" where
  "value_or d v = (case v of None \<Rightarrow> d | Some x \<Rightarrow> x)"

text \<open>What \<open>Runtime::Connect\<close> of a server reads: the broker, the address of the master, and the session.\<close>

record connection =
  cn_broker :: string
  cn_master_host :: string
  cn_master_port :: string
  cn_scope :: string
  cn_config :: config

definition server_connect :: "(string \<Rightarrow> string option) \<Rightarrow> config \<Rightarrow> connection" where
  "server_connect env c =
     (let host = value_or ''localhost'' (config_get env c ''CELTE_PULSAR_HOST'');
          port = value_or ''6650'' (config_get env c ''CELTE_PULSAR_PORT'');
          sessionId = value_or ''default'' (config_get env c ''CELTE_SESSION_ID'');
          (scope, c1) = SetSessionId sessionId c
      in \<lparr>cn_broker = host @ '':'' @ port,
          cn_master_host = value_or ''localhost'' (config_get env c ''CELTE_MASTER_HOST''),
          cn_master_port = value_or ''1908'' (config_get env c ''CELTE_MASTER_PORT''),
          cn_scope = scope, cn_config = c1\<rparr>)"

text \<open>\<open>std::to_string\<close> of an \<open>int\<close>.\<close>

definition int_text :: "int \<Rightarrow> string" where
  "int_text n = (if n < 0 then CHR ''-'' # nat_digits (nat (- n)) else nat_digits (nat n))"

definition client_connect :: "string \<Rightarrow> int \<Rightarrow> string \<Rightarrow> config \<Rightarrow> connection" where
  "client_connect celteHost port sessionId c =
     (let (scope, c1) = SetSessionId sessionId c
      in \<lparr>cn_broker = celteHost @ '':'' @ int_text port,
          cn_master_host = [], cn_master_port = [], cn_scope = scope, cn_config = c1\<rparr>)"

text \<open>
  The request to the master: its address, with \<open>std::atoi\<close> of the port, which is 0 for a text
  that is no number (and undefined for one that is no \<open>int\<close>), and its body.
\<close>

definition atoi :: "string \<Rightarrow> int" where
  "atoi text = (case stoi text of Inl _ \<Rightarrow> 0 | Inr n \<Rightarrow> n)"

definition master_url :: "string \<Rightarrow> string \<Rightarrow> string" where
  "master_url host port = ''http://'' @ host @ '':'' @ int_text (atoi port) @ ''/server/connect''"

definition master_request :: "(string \<Rightarrow> string option) \<Rightarrow> config \<Rightarrow> string \<Rightarrow> json" where
  "master_request env c uuid =
     JObj (fold (\<lambda>kv. omap_put (fst kv) (snd kv))
       [(''Id'', JStr uuid), (''Pid'', JStr (value_or ''unknown-parent'' (config_get env c ''CELTE_NODE_PID''))),
        (''Ready'', JBool True), (''SessionId'', JStr (cfg_session c))] [])"

section \<open>The Pulsar client\<close>

text \<open>The client of \<open>CelteNet\<close>: its service url, or nothing before \<open>Connect\<close>.\<close>

definition net_Connect :: "string \<Rightarrow> string option \<Rightarrow> string option" where
  "net_Connect brokers client = Some (''pulsar://'' @ brokers)"

definition net_GetClient :: "string option \<Rightarrow> exn + string" where
  "net_GetClient client = (case client of None \<Rightarrow> Inl (RuntimeError ''Client not initialized'') | Some u \<Rightarrow> Inr u)"

text \<open>\<open>CreateProducer\<close>: the topic that the client is asked for; \<open>CreateConsumer\<close> always throws.\<close>

definition net_CreateProducer :: "string \<Rightarrow> string option \<Rightarrow> exn + string" where
  "net_CreateProducer topic client = (case net_GetClient client of Inl e \<Rightarrow> Inl e | Inr _ \<Rightarrow> Inr topic)"

definition net_CreateConsumer :: "string option \<Rightarrow> exn + unit" where
  "net_CreateConsumer client = Inl (RuntimeError ''Creating consumers via celte net is now depreceated'')"

section \<open>Registered procedures\<close>

text \<open>A lookup in the cache gives the value that the functor computes for the key, present or not.\<close>

definition KeyToVal :: "string \<Rightarrow> bool" where
  "KeyToVal key = True"

definition RegisterProcedure :: "string \<Rightarrow> bool" where
  "RegisterProcedure uuid = KeyToVal uuid"

definition IsProcedureRegistered :: "string \<Rightarrow> bool" where
  "IsProcedureRegistered uuid = KeyToVal uuid"

section \<open>HTTP\<close>

text \<open>
  What a request leads to: calls of the callback with a value and of the error handler with a
  status and a text. A callback of the engine may throw: \<open>cb\<close> says what.
\<close>

record http_response =
  hr_status :: int
  hr_text :: string
  hr_error :: string

datatype 'v http_event = CallbackCalled 'v | ErrorCalled int string

definition handleError :: "int \<Rightarrow> string \<Rightarrow> 'v http_event list" where
  "handleError status msg = [ErrorCalled status msg]"

text \<open>The callback is called inside the \<open>try\<close> that is meant for the parser.\<close>

definition parseAndHandleJson :: "world \<Rightarrow> (json \<Rightarrow> exn option) \<Rightarrow> string \<Rightarrow> json http_event list" where
  "parseAndHandleJson w cb text =
     (case jparse w text of
        None \<Rightarrow> handleError 500 (parse_error w text)
      | Some j \<Rightarrow> CallbackCalled j # (case cb j of None \<Rightarrow> [] | Some e \<Rightarrow> handleError 500 (exn_what e)))"

definition handleResponse :: "world \<Rightarrow> (json \<Rightarrow> exn option) \<Rightarrow> http_response \<Rightarrow> json http_event list" where
  "handleResponse w cb r =
     (if 200 \<le> hr_status r \<and> hr_status r < 300 then parseAndHandleJson w cb (hr_text r)
      else handleError (hr_status r) (hr_error r))"

text \<open>
  \<open>HttpClient::Post\<close> gives the text of the response, whatever its status; \<open>PostAsync\<close> hands the
  response to its callback in an I/O task.
\<close>

definition http_Post :: "(json \<Rightarrow> http_response) \<Rightarrow> json \<Rightarrow> string" where
  "http_Post server body = hr_text (server body)"

definition http_PostAsync :: "world \<Rightarrow> (json \<Rightarrow> http_response) \<Rightarrow> (json \<Rightarrow> exn option) \<Rightarrow> json \<Rightarrow> json http_event list" where
  "http_PostAsync w server cb body = handleResponse w cb (server body)"

text \<open>The exported request: the body must be JSON, and the status of the answer is not looked at.\<close>

definition SendHttpRequest ::
  "world \<Rightarrow> (json \<Rightarrow> http_response) \<Rightarrow> (string \<Rightarrow> exn option) \<Rightarrow> string \<Rightarrow> string http_event list" where
  "SendHttpRequest w server cb jsonBody =
     (case jparse w jsonBody of
        None \<Rightarrow> handleError 500 (parse_error w jsonBody)
      | Some j \<Rightarrow>
          (let text = http_Post server j
           in CallbackCalled text # (case cb text of None \<Rightarrow> [] | Some e \<Rightarrow> handleError 500 (exn_what e))))"

section \<open>Metrics\<close>

text \<open>
  A getter gives the text of its value, or throws. The map of metrics is iterated in the order
  of its list.
\<close>

type_synonym getter = "exn + string"

record metrics =
  mt_metrics :: "(string, getter) hmap"
  mt_interval :: int
  mt_url :: string
  mt_running :: bool

definition new_metrics :: metrics where
  "new_metrics = \<lparr>mt_metrics = [], mt_interval = 5, mt_url = [], mt_running = False\<rparr>"

definition RegisterMetric :: "string \<Rightarrow> getter \<Rightarrow> metrics \<Rightarrow> metrics" where
  "RegisterMetric name g m = m\<lparr>mt_metrics := hput name g (mt_metrics m)\<rparr>"

text \<open>\<open>Start\<close>, with the getter of the CPU load; a bad interval is logged and the old one stays.\<close>

definition metrics_Start ::
  "(string \<Rightarrow> string option) \<Rightarrow> config \<Rightarrow> string \<Rightarrow> getter \<Rightarrow> metrics \<Rightarrow> string list \<times> metrics" where
  "metrics_Start env c uuid cpu m =
     (let host = value_or ''localhost'' (config_get env c ''PUSHGATEWAY_HOST'');
          port = value_or ''9091'' (config_get env c ''PUSHGATEWAY_PORT'');
          m1 = (RegisterMetric ''cpu_load'' cpu m)
                 \<lparr>mt_url := ''http://'' @ host @ '':'' @ port @ ''/metrics/job/'' @ uuid, mt_running := True\<rparr>
      in case (case config_get env c ''METRICS_UPLOAD_INTERVAL'' of
                 None \<Rightarrow> Inl (LogicError ''bad optional access'') | Some v \<Rightarrow> stoi v) of
           Inl e \<Rightarrow> ([''Failed to get metrics upload interval: '' @ exn_what e], m1)
         | Inr n \<Rightarrow> ([], m1\<lparr>mt_interval := n\<rparr>))"

text \<open>\<open>PushMetrics\<close>: the posted body, and the errors it logs.\<close>

fun metrics_body :: "(string \<times> getter) list \<Rightarrow> string \<times> string list" where
  "metrics_body [] = ([], [])"
| "metrics_body ((name, g) # ms) =
     (let (body, errs) = metrics_body ms
      in case g of
           Inl e \<Rightarrow> (body, (''Failed to get metric '' @ name @ '': '' @ exn_what e) # errs)
         | Inr v \<Rightarrow> (name @ '' '' @ v @ [CHR 0x0A] @ body, errs))"

definition PushMetrics :: "metrics \<Rightarrow> (string \<times> string) \<times> string list" where
  "PushMetrics m = (let (body, errs) = metrics_body (mt_metrics m) in ((mt_url m, body), errs))"

text \<open>
  The upload thread: \<open>env k\<close> is what happens to the metrics while round \<open>k\<close> sleeps, and the
  result of a thread that ends would be the metrics it leaves. The destructor clears the flag
  and joins the thread.
\<close>

partial_function (option) uploadWorker :: "(nat \<Rightarrow> metrics \<Rightarrow> metrics) \<Rightarrow> nat \<Rightarrow> metrics \<Rightarrow> metrics option" where
  "uploadWorker env k m = (let _ = PushMetrics m in uploadWorker env (Suc k) (env k m))"

declare uploadWorker.simps [code]

definition metrics_destroy :: "(nat \<Rightarrow> metrics \<Rightarrow> metrics) \<Rightarrow> metrics \<Rightarrow> metrics option" where
  "metrics_destroy env m =
     (if mt_running m then uploadWorker env 0 (m\<lparr>mt_running := False\<rparr>) else Some (m\<lparr>mt_running := False\<rparr>))"

section \<open>Lemmas\<close>

lemma uploadWorker_step: "uploadWorker env k m = uploadWorker env (Suc k) (env k m)"
  by (subst uploadWorker.simps) simp

lemma uploadWorker_None: "uploadWorker env k m = None"
proof -
  have False if "uploadWorker env k m = Some r" for r
    by (rule uploadWorker.raw_induct [where P = "\<lambda>_ _ _ _. False", OF _ that]) simp
  then show ?thesis by (cases "uploadWorker env k m") blast+
qed

text \<open>The body has one line for each metric whose getter succeeds, and one error is logged for each other.\<close>

lemma metrics_body_conv:
  "metrics_body ms =
     (concat (map (\<lambda>(name, g). case g of Inl _ \<Rightarrow> [] | Inr v \<Rightarrow> name @ '' '' @ v @ [CHR 0x0A]) ms),
      concat (map (\<lambda>(name, g). case g of Inl e \<Rightarrow> [''Failed to get metric '' @ name @ '': '' @ exn_what e] | Inr _ \<Rightarrow> []) ms))"
  by (induction ms rule: metrics_body.induct) (auto split: sum.split)

text \<open>Decimal numerals.\<close>

lemma digit_char:
  fixes n :: nat
  assumes "n < 10"
  shows "is_digit (char_of (48 + n))" "of_char (char_of (48 + n)) - 48 = n" "\<not> is_space (char_of (48 + n))"
    "char_of (48 + n) \<noteq> CHR ''-''" "char_of (48 + n) \<noteq> CHR ''+''"
proof -
  have code: "of_char (char_of (48 + n)) = 48 + n" using assms by simp
  then have char: "char_of (48 + n) = ch \<Longrightarrow> of_char ch = 48 + n" for ch by auto
  show "is_digit (char_of (48 + n))" "of_char (char_of (48 + n)) - 48 = n"
    using assms code by (simp_all add: is_digit_def)
  show "\<not> is_space (char_of (48 + n))"
    using char by (auto simp: is_space_def dest!: char)
  show "char_of (48 + n) \<noteq> CHR ''-''" "char_of (48 + n) \<noteq> CHR ''+''"
    using char by (auto dest!: char)
qed

lemma nat_digits_digits: "\<forall>c \<in> set (nat_digits n). is_digit c"
  by (induction n rule: nat_digits.induct) (subst nat_digits.simps, auto simp: digit_char)

lemma nat_digits_value: "digits_value (nat_digits n) = n"
  by (induction n rule: nat_digits.induct)
    (subst nat_digits.simps, auto simp: digits_value_def digit_char)

lemma nat_digits_hd:
  "nat_digits n \<noteq> [] \<and> \<not> is_space (hd (nat_digits n)) \<and> hd (nat_digits n) \<noteq> CHR ''-'' \<and> hd (nat_digits n) \<noteq> CHR ''+''"
proof (induction n rule: nat_digits.induct)
  case (1 n)
  then show ?case by (cases "n < 10") (simp_all add: nat_digits.simps [of n] digit_char)
qed

text \<open>A printed number is read back, whatever text follows it; a number beyond an \<open>int\<close> is out of range.\<close>

lemma stoi_digits:
  assumes "rest = [] \<or> \<not> is_digit (hd rest)"
  shows "stoi (nat_digits n @ rest) = (if n < 2 ^ 31 then Inr (int n) else Inl (OutOfRange ''stoi''))"
proof -
  have "takeWhile is_digit rest = []" using assms by (cases rest) auto
  then have ds: "takeWhile is_digit (nat_digits n @ rest) = nat_digits n"
    using nat_digits_digits [of n] by (simp add: takeWhile_append)
  obtain c cs where d: "nat_digits n = c # cs" "\<not> is_space c" "c \<noteq> CHR ''-''" "c \<noteq> CHR ''+''"
    using nat_digits_hd [of n] by (cases "nat_digits n") auto
  have "(int n < 2 ^ 31) = (n < 2 ^ 31)" by (simp add: of_nat_less_iff [of n "2 ^ 31", symmetric])
  then show ?thesis
    using ds d nat_digits_value [of n] by (simp add: stoi_def Let_def)
qed

section \<open>Properties\<close>

text \<open>The upload interval that a configuration prints is the one that \<open>Start\<close> reads back, also with
  text behind the digits; a number that is no \<open>int\<close> is reported and the old interval stays.\<close>
lemma metrics_interval:
  assumes "config_get env c ''METRICS_UPLOAD_INTERVAL'' = Some (nat_digits n @ rest)"
    and "rest = [] \<or> \<not> is_digit (hd rest)"
  shows "mt_interval (snd (metrics_Start env c uuid cpu m)) = (if n < 2 ^ 31 then int n else mt_interval m) \<and>
    (fst (metrics_Start env c uuid cpu m) = [] \<longleftrightarrow> n < 2 ^ 31)"
  using assms by (simp_all add: metrics_Start_def Let_def stoi_digits RegisterMetric_def)

lemma metrics_interval_witness:
  "mt_interval (snd (metrics_Start (\<lambda>k. None) (new_config [(''METRICS_UPLOAD_INTERVAL'', nat_digits 30 @ ''s'')])
     [] (Inr ''0'') new_metrics)) = 30 \<and>
   mt_interval (snd (metrics_Start (\<lambda>k. None) (new_config [(''METRICS_UPLOAD_INTERVAL'', nat_digits (2 ^ 31))])
     [] (Inr ''0'') new_metrics)) = 5"
proof -
  have get: "config_get (\<lambda>k. None) (new_config [(''METRICS_UPLOAD_INTERVAL'', v)]) ''METRICS_UPLOAD_INTERVAL'' = Some v" for v
    by (simp add: config_get_def new_config_def config_defaults_def config_default_def)
  have rest: "''s'' = [] \<or> \<not> is_digit (hd ''s'')" by (simp add: is_digit_def)
  have "config_get (\<lambda>k. None) (new_config [(''METRICS_UPLOAD_INTERVAL'', nat_digits (2 ^ 31))]) ''METRICS_UPLOAD_INTERVAL'' =
    Some (nat_digits (2 ^ 31) @ [])" using get by simp
  from metrics_interval [OF this, of "[]" "Inr ''0''" new_metrics]
    metrics_interval [OF get [of "nat_digits 30 @ ''s''"] rest, of "[]" "Inr ''0''" new_metrics]
  show ?thesis by (simp add: new_metrics_def)
qed

end
