(* ===== verification/CpuLoad.thy ===== *)
theory CpuLoad
  imports Complex_Main Services "HOL-Library.Word"
begin

text \<open>
  The CPU load of \<open>MetricsScrapper\<close>: on Linux from the texts of \<open>/proc/self/stat\<close> and
  \<open>/proc/stat\<close>, on Windows and Apple systems from the counters that the system gives, which are
  words. Rounding to a \<open>double\<close> is the argument \<open>fl\<close>; the lemmas name what they need of
  it. A number that cannot be read is \<open>None\<close>: the code then uses a variable without a value.
\<close>

section \<open>Reading\<close>

text \<open>Words between white space, as \<open>operator>>\<close> reads them, and a word as a \<open>long\<close>.\<close>

function tokens :: "string \<Rightarrow> string list" where
  "tokens s =
     (case dropWhile is_space s of
        [] \<Rightarrow> []
      | c # cs \<Rightarrow> takeWhile (\<lambda>c. \<not> is_space c) (c # cs) # tokens (dropWhile (\<lambda>c. \<not> is_space c) (c # cs)))"
  by pat_completeness auto
termination
proof (relation "measure length", goal_cases)
  case (2 s c cs)
  then have "\<not> is_space c" by (metis dropWhile_eq_Cons_conv)
  moreover have "length (c # cs) \<le> length s" using 2 length_dropWhile_le by metis
  ultimately show ?case using length_dropWhile_le [of "\<lambda>c. \<not> is_space c" cs] by simp
qed simp

declare tokens.simps [simp del]

definition read_long :: "string \<Rightarrow> int option" where
  "read_long t =
     (let neg = (t \<noteq> [] \<and> hd t = CHR ''-''); ds = (if neg then tl t else t); n = int (digits_value ds)
      in if ds = [] \<or> \<not> list_all is_digit ds then None else Some (if neg then - n else n))"

definition read_field :: "nat \<Rightarrow> string list \<Rightarrow> int option" where
  "read_field i ts = (if i < length ts then read_long (ts ! i) else None)"

text \<open>Thirteen words are skipped before the two times of the process.\<close>

definition proc_time :: "string \<Rightarrow> int option" where
  "proc_time text =
     (case (read_field 13 (tokens text), read_field 14 (tokens text)) of
        (Some utime, Some stime) \<Rightarrow> Some (utime + stime)
      | _ \<Rightarrow> None)"

text \<open>The first line of \<open>/proc/stat\<close>: a name and eight counters.\<close>

definition total_time :: "string \<Rightarrow> int option" where
  "total_time text =
     (let ts = tokens (takeWhile (\<lambda>c. c \<noteq> CHR 0x0A) text)
      in map_option sum_list (those (map (\<lambda>i. read_field i ts) [1..<9])))"

section \<open>The load\<close>

definition to_int :: "rat \<Rightarrow> int" where
  "to_int r = (if r < 0 then \<lceil>r\<rceil> else \<lfloor>r\<rfloor>)"

text \<open>The state is the pair of static variables, the times of the previous call.\<close>

definition getCPULoad :: "(rat \<Rightarrow> rat) \<Rightarrow> int \<Rightarrow> string \<Rightarrow> string \<Rightarrow> int \<times> int \<Rightarrow> (int \<times> (int \<times> int)) option" where
  "getCPULoad fl numCpus self_stat stat prev =
     (case (proc_time self_stat, total_time stat) of
        (Some procTime, Some totalTime) \<Rightarrow>
          (let deltaProc = procTime - fst prev; deltaTotal = totalTime - snd prev
           in Some (if deltaTotal = 0 then 0
                    else to_int (fl (fl (100 * fl (fl (of_int deltaProc) / fl (of_int deltaTotal))) * of_int numCpus)),
                    (procTime, totalTime)))
      | _ \<Rightarrow> None)"

text \<open>The getter that \<open>Start\<close> registers, when the times can be read.\<close>

definition cpu_getter :: "(rat \<Rightarrow> rat) \<Rightarrow> int \<Rightarrow> string \<Rightarrow> string \<Rightarrow> int \<times> int \<Rightarrow> (getter \<times> (int \<times> int)) option" where
  "cpu_getter fl numCpus self_stat stat prev =
     map_option (\<lambda>(n, prev'). (Inr (int_text n), prev')) (getCPULoad fl numCpus self_stat stat prev)"

section \<open>Lemmas\<close>

lemma to_int_bounds: "0 \<le> r \<Longrightarrow> r \<le> of_int n \<Longrightarrow> 0 \<le> to_int r \<and> to_int r \<le> n"
  by (simp add: to_int_def floor_le_iff le_floor_iff)

text \<open>
  A process that used no more time than all processors together has a load between zero and a
  hundred for each processor, with any monotone rounding that keeps these bounds.
\<close>

lemma cpu_load_bounds:
  assumes "getCPULoad fl n self_stat stat prev = Some (load, (p, t))" "mono fl"
    and "fl 0 = 0" "fl 1 = 1" "fl 100 = 100" "fl (100 * of_int n) = 100 * of_int n" "0 \<le> n"
    and "fst prev \<le> p" "p - fst prev \<le> t - snd prev" "snd prev < t \<longrightarrow> 0 < fl (of_int (t - snd prev))"
  shows "0 \<le> load \<and> load \<le> 100 * n"
proof (cases "t = snd prev")
  case True
  then have "load = 0" using assms(1) by (auto simp: getCPULoad_def Let_def split: option.splits)
  then show ?thesis using assms(7) by simp
next
  case False
  let ?dp = "fl (of_int (p - fst prev))" and ?dt = "fl (of_int (t - snd prev))"
  have load: "load = to_int (fl (fl (100 * fl (?dp / ?dt)) * of_int n))"
    using assms(1) False by (auto simp: getCPULoad_def Let_def split: option.splits)
  have mono: "a \<le> b \<Longrightarrow> fl a \<le> fl b" for a b using assms(2) by (rule monoD)
  have dp: "0 \<le> ?dp" "?dp \<le> ?dt"
    using mono [of 0 "of_int (p - fst prev)"] mono [of "of_int (p - fst prev)" "of_int (t - snd prev)"] assms(3,8,9) by auto
  have "0 < ?dt" using assms(8-10) False by linarith
  then have "0 \<le> ?dp / ?dt" "?dp / ?dt \<le> 1" using dp by simp_all
  then have "0 \<le> fl (?dp / ?dt)" "fl (?dp / ?dt) \<le> 1" using mono [of 0] mono [of _ 1] assms(3,4) by fastforce+
  then have "0 \<le> fl (100 * fl (?dp / ?dt))" "fl (100 * fl (?dp / ?dt)) \<le> 100"
    using mono [of 0 "100 * fl (?dp / ?dt)"] mono [of "100 * fl (?dp / ?dt)" 100] assms(3,5) by simp_all
  then have "0 \<le> fl (100 * fl (?dp / ?dt)) * of_int n" "fl (100 * fl (?dp / ?dt)) * of_int n \<le> 100 * of_int n"
    using assms(7) by (simp_all add: mult_right_mono)
  then have "0 \<le> fl (fl (100 * fl (?dp / ?dt)) * of_int n)" "fl (fl (100 * fl (?dp / ?dt)) * of_int n) \<le> of_int (100 * n)"
    using mono [of 0 "fl (100 * fl (?dp / ?dt)) * of_int n"] mono [of _ "100 * of_int n"] assms(3,6) by fastforce+
  then show ?thesis unfolding load by (rule to_int_bounds)
qed

text \<open>
  The name of the program is the second word of \<open>/proc/self/stat\<close>; a name with a space shifts
  the words, and the times that are read are those of the field before.
\<close>

lemma name_with_space:
  "proc_time ''1 (celte) S 1 1 1 0 1 0 10 11 12 13 500 70 1'' = Some 570"
  "proc_time ''1 (my game) S 1 1 1 0 1 0 10 11 12 13 500 70 1'' = Some 513"
  by code_simp+

section \<open>Windows and Apple systems\<close>

text \<open>
  The times of the machine and of the process on Windows, in units of 100 nanoseconds. The answer
  is missing when one of the two calls fails; the static variables start as zeros, and the first call
  only stores its times.
\<close>

record win_times =
  sysKernel :: "64 word"
  sysUser :: "64 word"
  procKernel :: "64 word"
  procUser :: "64 word"

definition no_times :: win_times where
  "no_times = \<lparr>sysKernel = 0, sysUser = 0, procKernel = 0, procUser = 0\<rparr>"

definition sysTotal :: "win_times \<Rightarrow> win_times \<Rightarrow> 64 word" where
  "sysTotal prev now = (sysKernel now - sysKernel prev) + (sysUser now - sysUser prev)"

definition procTotal :: "win_times \<Rightarrow> win_times \<Rightarrow> 64 word" where
  "procTotal prev now = (procKernel now - procKernel prev) + (procUser now - procUser prev)"

definition double_of :: "(rat \<Rightarrow> rat) \<Rightarrow> 64 word \<Rightarrow> rat" where
  "double_of fl x = fl (of_nat (unat x))"

definition win_getCPULoad :: "(rat \<Rightarrow> rat) \<Rightarrow> win_times option \<Rightarrow> win_times \<Rightarrow> (exn + int) \<times> win_times" where
  "win_getCPULoad fl answer prev =
     (case answer of
        None \<Rightarrow> (Inl (RuntimeError ''Failed to get times''), prev)
      | Some now \<Rightarrow>
          (if sysKernel prev = 0 then Inr 0
           else if sysTotal prev now = 0 then Inr 0
           else Inr (to_int (fl (fl (100 * double_of fl (procTotal prev now)) / double_of fl (sysTotal prev now)))),
           now))"

text \<open>
  On Apple systems the time of the process is computed as a \<open>double\<close> of microseconds, and the ticks
  of the machine, user, system, idle and nice, are added as 32 bit words.
\<close>

record rusage =
  ru_utime_sec :: int
  ru_utime_usec :: int
  ru_stime_sec :: int
  ru_stime_usec :: int

definition rusage_time :: "(rat \<Rightarrow> rat) \<Rightarrow> rusage \<Rightarrow> 64 word" where
  "rusage_time fl u =
     (let d = (\<lambda>n :: int. fl (of_int n))
      in word_of_int (to_int (fl (fl (fl (fl (d (ru_utime_sec u) * 1000000) + d (ru_utime_usec u)) +
           fl (d (ru_stime_sec u) * 1000000)) + d (ru_stime_usec u)))))"

definition tick_total :: "32 word list \<Rightarrow> 64 word" where
  "tick_total ticks = ucast (sum_list ticks)"

definition apple_getCPULoad ::
  "(rat \<Rightarrow> rat) \<Rightarrow> int \<Rightarrow> rusage \<Rightarrow> 32 word list option \<Rightarrow> 64 word \<times> 64 word \<Rightarrow> (exn + int) \<times> 64 word \<times> 64 word" where
  "apple_getCPULoad fl numCpus usage answer prev =
     (case answer of
        None \<Rightarrow> (Inl (RuntimeError ''Failed to get CPU load info''), prev)
      | Some ticks \<Rightarrow>
          (let procTime = rusage_time fl usage; totalTime = tick_total ticks;
               deltaProc = procTime - fst prev; deltaTotal = totalTime - snd prev
           in (if deltaTotal = 0 then Inr 0
               else Inr (to_int (fl (fl (100 * fl (double_of fl deltaProc / fl (double_of fl deltaTotal * 1000000))) *
                      of_int numCpus))),
               procTime, totalTime)))"

text \<open>
  On Windows a process that used no more time than the machine has a load between 0 and 100, also
  when a counter has wrapped around in between. The product with 100 may be rounded by up to half a
  percent, which the last conversion cuts off.
\<close>

lemma double_of_mono:
  assumes "mono fl" "unat a \<le> unat b"
  shows "double_of fl a \<le> double_of fl b"
proof -
  have "(of_nat (unat a) :: rat) \<le> of_nat (unat b)" using assms(2) by (rule of_nat_mono)
  then show ?thesis unfolding double_of_def by (rule monoD [OF assms(1)])
qed

lemma win_load_bounds:
  assumes "win_getCPULoad fl (Some now) prev = (Inr load, now)" "mono fl" "fl 0 = 0" "fl (201 / 2) = 201 / 2"
    and "unat (procTotal prev now) \<le> unat (sysTotal prev now)"
    and "sysTotal prev now \<noteq> 0 \<longrightarrow> 0 < double_of fl (sysTotal prev now) \<and>
      fl (100 * double_of fl (sysTotal prev now)) \<le> 201 / 2 * double_of fl (sysTotal prev now)"
  shows "0 \<le> load \<and> load \<le> 100"
proof (cases "sysKernel prev = 0 \<or> sysTotal prev now = 0")
  case True
  then have "load = 0" using assms(1) by (auto simp: win_getCPULoad_def split: if_splits)
  then show ?thesis by simp
next
  case False
  let ?p = "double_of fl (procTotal prev now)" and ?s = "double_of fl (sysTotal prev now)"
  have load: "load = to_int (fl (fl (100 * ?p) / ?s))"
    using assms(1) False by (simp add: win_getCPULoad_def)
  have mono: "x \<le> y \<Longrightarrow> fl x \<le> fl y" for x y using assms(2) by (rule monoD)
  have p: "0 \<le> ?p" "?p \<le> ?s"
    using double_of_mono [OF assms(2), of 0 "procTotal prev now"] double_of_mono [OF assms(2,5)] assms(3)
    by (simp_all add: double_of_def)
  have s: "0 < ?s" "fl (100 * ?s) \<le> 201 / 2 * ?s" using assms(6) False by simp_all
  have "0 \<le> fl (100 * ?p)" "fl (100 * ?p) \<le> 201 / 2 * ?s"
    using mono [of 0 "100 * ?p"] mono [of "100 * ?p" "100 * ?s"] assms(3) p s by simp_all
  then have q: "0 \<le> fl (100 * ?p) / ?s" "fl (100 * ?p) / ?s \<le> 201 / 2" using s by (simp_all add: divide_le_eq)
  then have "0 \<le> fl (fl (100 * ?p) / ?s)" "fl (fl (100 * ?p) / ?s) \<le> 201 / 2"
    using mono [OF q(1)] mono [OF q(2)] assms(3,4) by simp_all
  then show ?thesis unfolding load to_int_def by (auto simp: floor_le_iff le_floor_iff)
qed

text \<open>
  On Apple systems the ticks are counted as microseconds: a process that kept one of four processors
  busy for ten seconds of a hundred ticks has the load 1. The sum of the ticks wraps around at 32
  bits, and the difference is then taken at 64 bits: the load of such an interval is 0.
\<close>

lemma apple_load_scale:
  "fst (apple_getCPULoad (\<lambda>r. r) 4 \<lparr>ru_utime_sec = 10, ru_utime_usec = 0, ru_stime_sec = 0, ru_stime_usec = 0\<rparr>
     (Some [1000, 0, 3000, 0]) (0, 0)) = Inr 1"
  by (simp add: apple_getCPULoad_def rusage_time_def tick_total_def double_of_def to_int_def Let_def)

lemma apple_load_wraps:
  "fst (apple_getCPULoad (\<lambda>r. r) 4 \<lparr>ru_utime_sec = 10, ru_utime_usec = 0, ru_stime_sec = 0, ru_stime_usec = 0\<rparr>
     (Some [2 ^ 31, 0, 2 ^ 31, 5]) (0, 2 ^ 32 - 5)) = Inr 0"
  by (simp add: apple_getCPULoad_def rusage_time_def tick_total_def double_of_def to_int_def Let_def floor_eq_iff)

end
