(* ===== verification/Dotenv.thy ===== *)
theory Dotenv
  imports Services
begin

text \<open>
  The loader of the file \<open>.env\<close> (\<open>dotenv.h\<close>), which a server runs before it reads its identity
  from the environment (\<open>make_uuid\<close>). The environment is a map from names to values, the file
  its text or nothing when it cannot be opened. A position in a string is a natural number,
  \<open>npos\<close> is \<open>None\<close>; bytes above 127 are not white space.
\<close>

section \<open>Strings\<close>

fun search :: "string \<Rightarrow> string \<Rightarrow> nat option" where
  "search pat [] = (if pat = [] then Some 0 else None)"
| "search pat (c # cs) = (if take (length pat) (c # cs) = pat then Some 0 else map_option Suc (search pat cs))"

text \<open>\<open>std::string::find\<close> from a position, \<open>substr\<close>, and what \<open>c_str\<close> passes to a C function.\<close>

definition find_from :: "string \<Rightarrow> nat \<Rightarrow> string \<Rightarrow> nat option" where
  "find_from pat pos s = (if pos > length s then None else map_option (\<lambda>i. pos + i) (search pat (drop pos s)))"

definition substr :: "nat \<Rightarrow> nat \<Rightarrow> string \<Rightarrow> string" where
  "substr pos n s = take n (drop pos s)"

definition c_str :: "string \<Rightarrow> string" where
  "c_str s = takeWhile (\<lambda>c. c \<noteq> CHR 0x00) s"

definition ltrim :: "string \<Rightarrow> string" where
  "ltrim s = dropWhile is_space s"

definition rtrim :: "string \<Rightarrow> string" where
  "rtrim s = rev (dropWhile is_space (rev s))"

definition trim :: "string \<Rightarrow> string" where
  "trim s = rtrim (ltrim s)"

definition strip_quotes :: "string \<Rightarrow> string" where
  "strip_quotes s =
     (if length s < 2 then s
      else if hd s = last s \<and> (hd s = CHR 0x22 \<or> hd s = CHR 0x27) then substr 1 (length s - 2) s
      else s)"

text \<open>The lines that \<open>getline\<close> gives: no empty line after a final newline.\<close>

fun file_lines :: "string \<Rightarrow> string \<Rightarrow> string list" where
  "file_lines acc [] = (if acc = [] then [] else [acc])"
| "file_lines acc (c # cs) = (if c = CHR 0x0A then acc # file_lines [] cs else file_lines (acc @ [c]) cs)"

section \<open>Variables\<close>

type_synonym env_map = "string \<Rightarrow> string option"

definition dotenv_getenv :: "string \<Rightarrow> string \<Rightarrow> env_map \<Rightarrow> string" where
  "dotenv_getenv name def env = (case env name of Some v \<Rightarrow> v | None \<Rightarrow> def)"

text \<open>\<open>setenv\<close> refuses an empty name and a name with an equality sign.\<close>

definition setenv :: "string \<Rightarrow> string \<Rightarrow> bool \<Rightarrow> env_map \<Rightarrow> env_map" where
  "setenv name value overwrite env =
     (if name = [] \<or> CHR ''='' \<in> set name \<or> (\<not> overwrite \<and> env name \<noteq> None) then env else env(name \<mapsto> value))"

definition min_pos :: "nat option \<Rightarrow> nat option \<Rightarrow> nat option" where
  "min_pos p q =
     (case p of None \<Rightarrow> q | Some i \<Rightarrow> (case q of None \<Rightarrow> p | Some j \<Rightarrow> Some (min i j)))"

definition find_var_start :: "string \<Rightarrow> nat \<Rightarrow> (nat \<times> string) option" where
  "find_var_start str pos =
     (let p1 = find_from ''$'' pos str; p2 = find_from ''${'' pos str; pos_var = min_pos p1 p2
      in map_option (\<lambda>p. (p, if pos_var = p2 then ''${'' else ''$'')) pos_var)"

definition find_var_end :: "string \<Rightarrow> nat \<Rightarrow> string \<Rightarrow> nat option" where
  "find_var_end str pos start_tag =
     (let end_tag = (if start_tag = ''${'' then CHR ''}'' else CHR '' ''); pos_end = find_from [end_tag] pos str
      in if pos_end = None \<and> end_tag = CHR '' '' then Some (length str) else pos_end)"

lemma search_Some:
  "search pat s = Some i \<Longrightarrow> i \<le> length s \<and> take (length pat) (drop i s) = pat"
proof (induction s arbitrary: i)
  case (Cons c cs)
  then show ?case by (cases "take (length pat) (c # cs) = pat") auto
qed (auto split: if_splits)

lemma find_from_Some:
  assumes "find_from pat pos s = Some i"
  shows "pos \<le> i \<and> i \<le> length s \<and> take (length pat) (drop i s) = pat"
  using assms search_Some [of pat "drop pos s"] by (auto simp: find_from_def add.commute split: if_splits)

lemma find_char:
  assumes "find_from [c] pos s = Some i"
  shows "pos \<le> i" "i < length s" "s ! i = c"
proof -
  have i: "pos \<le> i" "take 1 (drop i s) = [c]" using find_from_Some [OF assms] by simp_all
  then show "pos \<le> i" by simp
  have "drop i s \<noteq> []" using i(2) by auto
  then show "i < length s" by simp
  with i(2) show "s ! i = c" by (simp add: take_Suc_conv_app_nth Cons_nth_drop_Suc [symmetric])
qed

lemma find_var_start_Some:
  assumes "find_var_start str pos = Some (p, tag)"
  shows "pos \<le> p" "p < length str" "str ! p = CHR ''$''"
proof -
  have "find_from ''$'' pos str = Some p \<or> find_from ''${'' pos str = Some p"
    using assms by (auto simp: find_var_start_def min_pos_def min_def Let_def split: option.splits if_splits)
  then have "pos \<le> p \<and> p < length str \<and> str ! p = CHR ''$''"
  proof
    assume "find_from ''${'' pos str = Some p"
    from find_from_Some [OF this] have "pos \<le> p" "take 2 (drop p str) = ''${''" by (simp_all add: numeral_2_eq_2)
    then show ?thesis by (cases "drop p str") (auto simp: numeral_2_eq_2 nth_via_drop dest: sym intro: ccontr)
  qed (auto dest: find_char)
  then show "pos \<le> p" "p < length str" "str ! p = CHR ''$''" by simp_all
qed

lemma find_var_end_Some:
  assumes "find_var_end str p tag = Some q" "p < length str" "str ! p = CHR ''$''"
  shows "p < q" "q \<le> length str"
proof -
  have "p < q \<and> q \<le> length str"
  proof (cases "find_from [if tag = ''${'' then CHR ''}'' else CHR '' ''] p str")
    case None
    then show ?thesis using assms by (auto simp: find_var_end_def Let_def split: if_splits)
  next
    case (Some i)
    from find_char [OF Some] assms Some show ?thesis
      by (cases "i = p") (auto simp: find_var_end_def Let_def split: if_splits)
  qed
  then show "p < q" "q \<le> length str" by simp_all
qed

text \<open>
  The loop of \<open>resolve_vars\<close>: the position behind the last variable, the number of variables
  that were not resolved, and the text. A variable without its end is the last one.
\<close>

function resolve_loop :: "env_map \<Rightarrow> string \<Rightarrow> nat \<Rightarrow> nat \<Rightarrow> nat \<Rightarrow> string \<Rightarrow> nat \<times> nat \<times> string" where
  "resolve_loop env str pos pre_pos nvar resolved =
     (case find_var_start str pos of
        None \<Rightarrow> (pre_pos, nvar, resolved)
      | Some (p, start_tag) \<Rightarrow>
          (let lstart = length start_tag;
               lend = (if lstart > 1 then 1 else 0);
               resolved1 = resolved @ substr pre_pos (p - pre_pos) str
           in case find_var_end str p start_tag of
                None \<Rightarrow> (pre_pos, Suc nvar, resolved1)
              | Some q \<Rightarrow>
                  (let var = substr p (q - p + 1) str;
                       env_var = rtrim (substr lstart (length var - lstart - lend) var)
                   in case env (c_str env_var) of
                        Some v \<Rightarrow> resolve_loop env str q (q + lend) nvar (resolved1 @ v)
                      | None \<Rightarrow> resolve_loop env str q (q + lend) (Suc nvar) resolved1)))"
  by pat_completeness auto
termination
proof (relation "measure (\<lambda>(env, str, pos, pre_pos, nvar, resolved). length str - pos)", goal_cases)
  case (2 env str pos pre_pos nvar resolved x p start_tag)
  then show ?case using find_var_start_Some find_var_end_Some by fastforce
next
  case (3 env str pos pre_pos nvar resolved x p start_tag)
  then show ?case using find_var_start_Some find_var_end_Some by fastforce
qed simp

declare resolve_loop.simps [simp del]

definition resolve_vars :: "env_map \<Rightarrow> string \<Rightarrow> string \<times> bool" where
  "resolve_vars env str =
     (let (pre_pos, nvar, resolved) = resolve_loop env str 0 0 0 []
      in (resolved @ (if pre_pos < length str then drop pre_pos str else []), nvar = 0))"

section \<open>The file\<close>

text \<open>One line; \<open>flags\<close> with bit 0 set keeps a variable that exists.\<close>

definition init_line :: "int \<Rightarrow> string \<Rightarrow> env_map \<Rightarrow> env_map" where
  "init_line flags line env =
     (case find_from ''='' 0 line of
        None \<Rightarrow> env
      | Some pos \<Rightarrow>
          (let name = trim (take pos line);
               (val, ok) = resolve_vars env (strip_quotes (trim (drop (pos + 1) line)))
           in if ok then setenv (c_str name) (c_str val) (even flags) env else env))"

definition do_init :: "int \<Rightarrow> string option \<Rightarrow> env_map \<Rightarrow> env_map" where
  "do_init flags file env =
     (case file of None \<Rightarrow> env | Some text \<Rightarrow> fold (init_line flags) (file_lines [] text) env)"

definition dotenv_init :: "string option \<Rightarrow> env_map \<Rightarrow> env_map" where
  "dotenv_init file env = do_init 0 file env"

text \<open>The identity of a process, with the environment that it leaves.\<close>

definition runtime_uuid :: "bool \<Rightarrow> string option \<Rightarrow> env_map \<Rightarrow> string \<Rightarrow> string \<times> env_map" where
  "runtime_uuid server file env uuid =
     (let env1 = (if server then dotenv_init file env else env) in (make_uuid server env1 uuid, env1))"

section \<open>Templates\<close>

lemma search_skip: "c \<notin> set u \<Longrightarrow> search (c # pat) (u @ s) = map_option (\<lambda>i. length u + i) (search (c # pat) s)"
  by (induction u; cases "search (c # pat) s") auto

lemma search_here: "pat \<noteq> [] \<Longrightarrow> search pat (pat @ s) = Some 0"
  by (cases pat) simp_all

lemma find_from_skip:
  "pos \<le> length b \<Longrightarrow> c \<notin> set (drop pos b) \<Longrightarrow>
     find_from (c # pat) pos (b @ s) = map_option (\<lambda>i. length b + i) (search (c # pat) s)"
  by (auto simp: find_from_def search_skip option.map_comp comp_def)

lemma find_var_start_simps:
  assumes "pos \<le> length b" "CHR ''$'' \<notin> set (drop pos b)"
  shows "find_var_start b pos = None"
    and "find_var_start (b @ ''${'' @ s) pos = Some (length b, ''${'')"
    and "s = [] \<or> hd s \<noteq> CHR ''{'' \<Longrightarrow> find_var_start (b @ CHR ''$'' # s) pos = Some (length b, ''$'')"
proof -
  show "find_var_start b pos = None"
    using find_from_skip [OF assms, of _ "[]"] by (simp add: find_var_start_def min_pos_def)
  show "find_var_start (b @ ''${'' @ s) pos = Some (length b, ''${'')"
    using find_from_skip [OF assms, of "''{''" "''${'' @ s"] find_from_skip [OF assms, of "[]" "''${'' @ s"]
    by (simp add: find_var_start_def min_pos_def numeral_2_eq_2)
  assume s: "s = [] \<or> hd s \<noteq> CHR ''{''"
  have "search ''${'' (CHR ''$'' # s) = map_option Suc (search ''${'' s)"
    using s by (cases s) (simp_all add: numeral_2_eq_2)
  then show "find_var_start (b @ CHR ''$'' # s) pos = Some (length b, ''$'')"
    using find_from_skip [OF assms, of "''{''" "CHR ''$'' # s"] find_from_skip [OF assms, of "[]" "CHR ''$'' # s"]
    by (simp add: find_var_start_def min_pos_def option.map_comp comp_def split: option.split)
qed

lemma find_var_end_simps:
  "CHR ''}'' \<notin> set v \<Longrightarrow> find_var_end (b @ ''${'' @ v @ CHR ''}'' # s) (length b) ''${'' = Some (length b + 2 + length v)"
  "CHR '' '' \<notin> set v \<Longrightarrow> find_var_end (b @ CHR ''$'' # v @ CHR '' '' # s) (length b) ''$'' = Some (length b + 1 + length v)"
  by (simp_all add: find_var_end_def find_from_def search_skip)

text \<open>
  A value as text without variables, variables in braces, and variables without braces, which
  a space ends. What it stands for, where a variable that is not set stands for nothing.
\<close>

datatype piece = Lit string | Braced string | Dollar string

fun render :: "piece \<Rightarrow> string" where
  "render (Lit s) = s"
| "render (Braced v) = ''${'' @ v @ ''}''"
| "render (Dollar v) = CHR ''$'' # v @ '' ''"

fun piece_ok :: "piece \<Rightarrow> bool" where
  "piece_ok (Lit s) = (CHR ''$'' \<notin> set s)"
| "piece_ok (Braced v) = (CHR ''}'' \<notin> set v \<and> rtrim v = v \<and> c_str v = v)"
| "piece_ok (Dollar v) = (CHR '' '' \<notin> set v \<and> \<not> (v \<noteq> [] \<and> hd v = CHR ''{'') \<and> rtrim v = v \<and> c_str v = v)"

fun meaning :: "env_map \<Rightarrow> piece \<Rightarrow> string" where
  "meaning env (Lit s) = s"
| "meaning env (Braced v) = dotenv_getenv v [] env"
| "meaning env (Dollar v) = dotenv_getenv v [] env @ '' ''"

fun undefined_in :: "env_map \<Rightarrow> piece \<Rightarrow> bool" where
  "undefined_in env (Lit s) = False"
| "undefined_in env (Braced v) = (env v = None)"
| "undefined_in env (Dollar v) = (env v = None)"

lemma rtrim_space: "rtrim (v @ '' '') = rtrim v"
  by (simp add: rtrim_def is_space_def)

text \<open>One round of the loop at a variable.\<close>

lemma resolve_braced:
  assumes "pos \<le> length b" "CHR ''$'' \<notin> set (drop pos b)" "piece_ok (Braced v)"
  shows "resolve_loop env (b @ render (Braced v) @ s) pos pre n res =
    resolve_loop env (b @ render (Braced v) @ s) (length b + 2 + length v) (length b + 3 + length v)
      (if undefined_in env (Braced v) then Suc n else n)
      (res @ substr pre (length b - pre) (b @ render (Braced v) @ s) @ meaning env (Braced v))"
proof -
  let ?str = "b @ render (Braced v) @ s"
  have str: "?str = b @ ''${'' @ (v @ CHR ''}'' # s)" by simp
  have start: "find_var_start ?str pos = Some (length b, ''${'')"
    unfolding str by (rule find_var_start_simps(2) [OF assms(1,2)])
  have stop: "find_var_end ?str (length b) ''${'' = Some (length b + 2 + length v)"
    using find_var_end_simps(1) [of v b s] assms(3) by simp
  have var: "substr (length b) (length b + 2 + length v - length b + 1) ?str = ''${'' @ v @ ''}''"
    by (simp add: substr_def)
  have name: "substr 2 (length (''${'' @ v @ ''}'') - 2 - 1) (''${'' @ v @ ''}'') = v"
    by (simp add: substr_def)
  show ?thesis
    by (subst resolve_loop.simps, unfold start option.case prod.case Let_def stop var)
      (use assms(3) name in \<open>simp add: dotenv_getenv_def numeral_2_eq_2 numeral_3_eq_3 split: option.split\<close>)
qed

lemma resolve_dollar:
  assumes "pos \<le> length b" "CHR ''$'' \<notin> set (drop pos b)" "piece_ok (Dollar v)"
  shows "resolve_loop env (b @ render (Dollar v) @ s) pos pre n res =
    resolve_loop env (b @ render (Dollar v) @ s) (length b + 1 + length v) (length b + 1 + length v)
      (if undefined_in env (Dollar v) then Suc n else n)
      (res @ substr pre (length b - pre) (b @ render (Dollar v) @ s) @ dotenv_getenv v [] env)"
proof -
  let ?str = "b @ render (Dollar v) @ s"
  have str: "?str = b @ CHR ''$'' # (v @ CHR '' '' # s)" by simp
  have start: "find_var_start ?str pos = Some (length b, ''$'')"
    unfolding str by (rule find_var_start_simps(3) [OF assms(1,2)]) (use assms(3) in \<open>cases v; auto\<close>)
  have stop: "find_var_end ?str (length b) ''$'' = Some (length b + 1 + length v)"
    using find_var_end_simps(2) [of v b s] assms(3) by simp
  have var: "substr (length b) (length b + 1 + length v - length b + 1) ?str = CHR ''$'' # v @ '' ''"
    by (simp add: substr_def)
  have name: "rtrim (substr 1 (length (CHR ''$'' # v @ '' '') - 1 - 0) (CHR ''$'' # v @ '' '')) = v"
    using assms(3) by (simp add: substr_def rtrim_space)
  show ?thesis
    by (subst resolve_loop.simps, unfold start option.case prod.case Let_def stop var)
      (use assms(3) name in \<open>simp add: dotenv_getenv_def split: option.split\<close>)
qed

text \<open>The text that the loop and the rest of \<open>resolve_vars\<close> give for a template, from any point on.\<close>

definition finish :: "string \<Rightarrow> nat \<times> nat \<times> string \<Rightarrow> string \<times> nat" where
  "finish str r = (case r of (pre, n, res) \<Rightarrow> (res @ (if pre < length str then drop pre str else []), n))"

lemma resolve_render:
  assumes "list_all piece_ok ps" "pos \<le> length a" "CHR ''$'' \<notin> set (drop pos a)" "CHR ''$'' \<notin> set u"
  shows "finish (a @ u @ concat (map render ps)) (resolve_loop env (a @ u @ concat (map render ps)) pos (length a) n res) =
    (res @ u @ concat (map (meaning env) ps), n + length (filter (undefined_in env) ps))"
  using assms
proof (induction ps arbitrary: a u pos n res)
  case Nil
  have "find_var_start (a @ u) pos = None" using Nil by (intro find_var_start_simps(1)) simp_all
  then show ?case by (subst resolve_loop.simps) (simp add: finish_def)
next
  case (Cons x ps)
  have pos: "pos \<le> length (a @ u)" "CHR ''$'' \<notin> set (drop pos (a @ u))" using Cons.prems by simp_all
  show ?case
  proof (cases x)
    case (Lit s)
    then show ?thesis using Cons.IH [of pos a "u @ s" n res] Cons.prems by simp
  next
    case (Braced v)
    let ?b = "a @ u @ render (Braced v)"
    have "CHR ''$'' \<notin> set (drop (length (a @ u) + 2 + length v) ?b)" by simp
    with Cons.IH [of "length (a @ u) + 2 + length v" ?b "[]" "if undefined_in env x then Suc n else n" "res @ u @ meaning env x"]
      resolve_braced [OF pos, of v env "concat (map render ps)" "length a" n res] Cons.prems Braced
    show ?thesis by (cases "env v") (simp_all add: substr_def numeral_3_eq_3 add.assoc)
  next
    case (Dollar v)
    let ?b = "a @ u @ CHR ''$'' # v"
    have "finish (?b @ '' '' @ concat (map render ps)) (resolve_loop env (?b @ '' '' @ concat (map render ps)) (length ?b)
        (length ?b) (if undefined_in env x then Suc n else n) (res @ u @ dotenv_getenv v [] env)) =
      ((res @ u @ dotenv_getenv v [] env) @ '' '' @ concat (map (meaning env) ps),
       (if undefined_in env x then Suc n else n) + length (filter (undefined_in env) ps))"
      by (rule Cons.IH) (use Cons.prems(1) in simp_all)
    with resolve_dollar [OF pos, of v env "concat (map render ps)" "length a" n res] Cons.prems(1) Dollar
    show ?thesis by (cases "env v") (simp_all add: substr_def add.assoc)
  qed
qed

text \<open>C30: A value with variables is read as the template that it is: \<open>resolve_vars\<close> on the text of any
  sequence of literal parts, braced variables and plain variables replaces each variable by
  its value in the environment, in order, and accepts the value exactly if all are set.\<close>
theorem dotenv_resolves_template:
  assumes "list_all piece_ok ps"
  shows "resolve_vars env (concat (map render ps)) =
    (concat (map (meaning env) ps), list_all (\<lambda>p. \<not> undefined_in env p) ps)"
proof -
  let ?str = "concat (map render ps)"
  have "finish ?str (resolve_loop env ?str 0 0 0 []) = (concat (map (meaning env) ps), length (filter (undefined_in env) ps))"
    using resolve_render [OF assms, of 0 "[]" "[]" env 0 "[]"] by simp
  moreover have "length (filter (undefined_in env) ps) = 0 \<longleftrightarrow> list_all (\<lambda>p. \<not> undefined_in env p) ps"
    by (auto simp: filter_empty_conv list_all_iff)
  ultimately show ?thesis by (auto simp: resolve_vars_def finish_def split: prod.splits)
qed

theorem dotenv_resolves_template_witness:
  "resolve_vars [''HOST'' \<mapsto> ''db''] ''tcp://${HOST}:1/$HOST x'' = (''tcp://db:1/db x'', True)"
  using dotenv_resolves_template [of "[Lit ''tcp://'', Braced ''HOST'', Lit '':1/'', Dollar ''HOST'', Lit ''x'']" "[''HOST'' \<mapsto> ''db'']"]
  by (simp add: rtrim_def c_str_def is_space_def dotenv_getenv_def)

lemma dotenv_resolves_literal:
  assumes "CHR ''$'' \<notin> set v"
  shows "resolve_vars env v = (v, True)"
proof -
  have "find_var_start v 0 = None" using find_var_start_simps(1) [of 0 v] assms by simp
  then show ?thesis by (simp add: resolve_vars_def resolve_loop.simps [of env v])
qed

section \<open>Files\<close>

text \<open>A file with quoted values, and the names and values that it can hold.\<close>

definition assignment :: "string \<times> string \<Rightarrow> string" where
  "assignment kv = fst kv @ ''=\"'' @ snd kv @ ''\"''"

definition dotenv_file :: "(string \<times> string) list \<Rightarrow> string" where
  "dotenv_file kvs = concat (map (\<lambda>kv. assignment kv @ [CHR 0x0A]) kvs)"

definition name_ok :: "string \<Rightarrow> bool" where
  "name_ok k \<longleftrightarrow> k \<noteq> [] \<and> trim k = k \<and> c_str k = k \<and> CHR ''='' \<notin> set k \<and> CHR 0x0A \<notin> set k"

definition value_ok :: "string \<Rightarrow> bool" where
  "value_ok v \<longleftrightarrow> CHR ''$'' \<notin> set v \<and> c_str v = v \<and> CHR 0x0A \<notin> set v"

lemma file_lines_line: "CHR 0x0A \<notin> set l \<Longrightarrow> file_lines acc (l @ CHR 0x0A # s) = (acc @ l) # file_lines [] s"
  by (induction l arbitrary: acc) auto

lemma trim_quoted: "trim (CHR 0x22 # v @ [CHR 0x22]) = CHR 0x22 # v @ [CHR 0x22]"
  by (simp add: trim_def ltrim_def rtrim_def is_space_def)

lemma strip_quoted: "strip_quotes (CHR 0x22 # v @ [CHR 0x22]) = v"
  by (simp add: strip_quotes_def substr_def)

lemma init_assignment:
  assumes "name_ok k" "value_ok v"
  shows "init_line 0 (assignment (k, v)) env = env(k \<mapsto> v)"
proof -
  have "find_from ''='' 0 (assignment (k, v)) = Some (length k)"
    using assms(1) by (simp add: find_from_def assignment_def search_skip name_ok_def)
  moreover have "resolve_vars env v = (v, True)"
    using dotenv_resolves_literal assms(2) by (simp add: value_ok_def)
  ultimately show ?thesis using assms
    by (simp add: init_line_def assignment_def trim_quoted strip_quoted setenv_def name_ok_def value_ok_def)
qed

lemma init_file:
  assumes "list_all (\<lambda>kv. name_ok (fst kv) \<and> value_ok (snd kv)) kvs"
  shows "dotenv_init (Some (dotenv_file kvs)) env = env ++ map_of (rev kvs)"
  using assms
proof (induction kvs arbitrary: env)
  case Nil
  then show ?case by (simp add: dotenv_init_def do_init_def dotenv_file_def)
next
  case (Cons kv kvs)
  obtain k v where kv: "kv = (k, v)" by (cases kv)
  have "CHR 0x0A \<notin> set (assignment (k, v))"
    using Cons.prems kv by (simp add: assignment_def name_ok_def value_ok_def)
  then have "file_lines [] (dotenv_file (kv # kvs)) = assignment (k, v) # file_lines [] (dotenv_file kvs)"
    using file_lines_line [of "assignment (k, v)" "[]"] by (simp add: dotenv_file_def kv)
  moreover have "init_line 0 (assignment (k, v)) env = env(k \<mapsto> v)"
    by (rule init_assignment) (use Cons.prems kv in simp_all)
  moreover have "fold (init_line 0) (file_lines [] (dotenv_file kvs)) e = e ++ map_of (rev kvs)" for e
    using Cons.IH [of e] Cons.prems by (simp add: dotenv_init_def do_init_def)
  moreover have "env(k \<mapsto> v) ++ map_of (rev kvs) = env ++ map_of (rev (kv # kvs))"
    by (auto simp: map_add_def fun_eq_iff kv split: option.split)
  ultimately show ?case by (simp add: dotenv_init_def do_init_def del: rev.simps)
qed

text \<open>C20: What a file of quoted assignments says is what the process finds in its environment: the last
  assignment to a name, over the value that the environment had, and every other variable as
  it was. So a server has the identity that its file gives to \<open>CELTE_NODE_ID\<close>.\<close>
theorem dotenv_roundtrip:
  assumes "list_all (\<lambda>kv. name_ok (fst kv) \<and> value_ok (snd kv)) kvs"
  shows "snd (runtime_uuid True (Some (dotenv_file kvs)) env uuid) = env ++ map_of (rev kvs) \<and>
    fst (runtime_uuid True (Some (dotenv_file kvs)) env uuid) =
      (case (env ++ map_of (rev kvs)) ''CELTE_NODE_ID'' of Some nodeId \<Rightarrow> nodeId | None \<Rightarrow> ''sn.'' @ uuid)"
  using init_file [OF assms, of env] by (simp add: runtime_uuid_def make_uuid_def Let_def)

theorem dotenv_roundtrip_witness:
  "fst (runtime_uuid True (Some (dotenv_file [(''A'', '' x ''), (''CELTE_NODE_ID'', ''sn7'')])) [''CELTE_NODE_ID'' \<mapsto> ''old''] ''u'') = ''sn7''"
proof -
  have "list_all (\<lambda>kv. name_ok (fst kv) \<and> value_ok (snd kv)) [(''A'', '' x ''), (''CELTE_NODE_ID'', ''sn7'')]"
    by code_simp
  from dotenv_roundtrip [OF this] show ?thesis by simp
qed

end
