(* ===== verification/LruSet.thy ===== *)
theory LruSet
  imports Prelude
begin

text \<open>
  \<open>detail::LRUSet\<close> and \<open>detail::UniqueTaskManager\<close> of \<open>CRPC.hpp\<close>. The set is a list of
  nodes, most recent first, and a hash map from a key to the iterator of its node; an
  iterator is the number of the node. The refinement lemma says that the two structures
  together keep the recency list of the abstract set. The interface \<open>task_filter\<close> is what
  the RPC layer needs of the manager: which submissions of a task id are executed. The
  last section interleaves two submissions of one id.
\<close>

section \<open>The set\<close>

record 'k lru =
  lru_capacity :: nat
  cache_list :: "(nat \<times> 'k) list"
  cache_map :: "('k, nat) hmap"
  next_node :: nat

definition new_lru :: "nat \<Rightarrow> 'k lru" where
  "new_lru cap = \<lparr>lru_capacity = cap, cache_list = [], cache_map = [], next_node = 0\<rparr>"

definition lru_contains :: "'k lru \<Rightarrow> 'k \<Rightarrow> bool" where
  "lru_contains l k = (map_of (cache_map l) k \<noteq> None)"

text \<open>\<open>_cacheList.push_front(key)\<close> and the iterator of the new node in the map.\<close>

definition lru_push_front :: "'k \<Rightarrow> 'k lru \<Rightarrow> 'k lru" where
  "lru_push_front k l =
     l\<lparr>cache_list := (next_node l, k) # cache_list l,
       cache_map := hput k (next_node l) (cache_map l),
       next_node := Suc (next_node l)\<rparr>"

text \<open>
  \<open>LRUSet::add\<close>. \<open>None\<close> is the undefined behaviour of \<open>back()\<close> on an empty list, which a
  capacity of zero leads to.
\<close>

definition lru_add :: "'k \<Rightarrow> 'k lru \<Rightarrow> 'k lru option" where
  "lru_add k l =
     (case map_of (cache_map l) k of
        Some it \<Rightarrow>
          Some (lru_push_front k (l\<lparr>cache_list := filter (\<lambda>n. fst n \<noteq> it) (cache_list l)\<rparr>))
      | None \<Rightarrow>
          if length (cache_list l) \<ge> lru_capacity l then
            if cache_list l = [] then None
            else Some (lru_push_front k
                   (l\<lparr>cache_list := butlast (cache_list l),
                      cache_map := herase (snd (last (cache_list l))) (cache_map l)\<rparr>))
          else Some (lru_push_front k l))"

text \<open>The keys, most recent first.\<close>

definition recency :: "'k lru \<Rightarrow> 'k list" where
  "recency l = map snd (cache_list l)"

text \<open>List and map describe the same set, and every iterator points to the node of its key.\<close>

definition lru_inv :: "'k lru \<Rightarrow> bool" where
  "lru_inv l \<longleftrightarrow>
     0 < lru_capacity l \<and> length (cache_list l) \<le> lru_capacity l \<and>
     distinct (map fst (cache_list l)) \<and> distinct (map snd (cache_list l)) \<and>
     (\<forall>n \<in> set (cache_list l). fst n < next_node l) \<and>
     (\<forall>k i. map_of (cache_map l) k = Some i \<longleftrightarrow> (i, k) \<in> set (cache_list l))"

lemma lru_invI:
  assumes "0 < lru_capacity l" "length (cache_list l) \<le> lru_capacity l"
    and "distinct (map fst (cache_list l))" "distinct (map snd (cache_list l))"
    and "\<And>n. n \<in> set (cache_list l) \<Longrightarrow> fst n < next_node l"
    and "\<And>k i. map_of (cache_map l) k = Some i \<longleftrightarrow> (i, k) \<in> set (cache_list l)"
  shows "lru_inv l"
  using assms by (simp add: lru_inv_def)

lemma new_lru_inv [simp]: "lru_inv (new_lru cap) \<longleftrightarrow> 0 < cap"
  by (simp add: lru_inv_def new_lru_def)

lemma recency_new [simp]: "recency (new_lru cap) = []"
  by (simp add: recency_def new_lru_def)

lemma recency_bounded: "lru_inv l \<Longrightarrow> length (recency l) \<le> lru_capacity l"
  by (simp add: lru_inv_def recency_def)

lemma lru_contains_recency: "lru_inv l \<Longrightarrow> lru_contains l k \<longleftrightarrow> k \<in> set (recency l)"
  by (force simp: lru_contains_def lru_inv_def recency_def)

text \<open>Pushing a key that is neither in the list nor in the map keeps the invariant.\<close>

lemma push_front_inv:
  assumes "lru_inv l" "length (cache_list l) < lru_capacity l" "k \<notin> set (recency l)"
  shows "lru_inv (lru_push_front k l)"
proof (rule lru_invI)
  have fresh: "(i, k') \<in> set (cache_list l) \<Longrightarrow> i \<noteq> next_node l \<and> k' \<noteq> k" for i k'
    using assms by (force simp: lru_inv_def recency_def)
  show "distinct (map fst (cache_list (lru_push_front k l)))"
    using assms by (auto simp: lru_inv_def lru_push_front_def)
  show "map_of (cache_map (lru_push_front k l)) k' = Some i \<longleftrightarrow>
      (i, k') \<in> set (cache_list (lru_push_front k l))" for k' i
    using assms(1) fresh by (auto simp: lru_inv_def lru_push_front_def hmap_simps)
  show "fst n < next_node (lru_push_front k l)" if "n \<in> set (cache_list (lru_push_front k l))" for n
    using that assms(1) by (auto simp: lru_inv_def lru_push_front_def intro: less_SucI)
qed (use assms in \<open>auto simp: lru_inv_def lru_push_front_def recency_def\<close>)

text \<open>Taking nodes out of list and map together keeps the invariant.\<close>

lemma shrink_inv:
  assumes "lru_inv l" "cache_list l = xs @ n # ys"
  shows "lru_inv (l\<lparr>cache_list := xs @ ys, cache_map := herase (snd n) (cache_map l)\<rparr>)"
proof (rule lru_invI)
  let ?l = "l\<lparr>cache_list := xs @ ys, cache_map := herase (snd n) (cache_map l)\<rparr>"
  have "snd n \<notin> snd ` set (xs @ ys)" "map_of (cache_map l) k = Some i \<longleftrightarrow> (i, k) \<in> set (xs @ n # ys)" for k i
    using assms by (auto simp: lru_inv_def)
  then show "map_of (cache_map ?l) k = Some i \<longleftrightarrow> (i, k) \<in> set (cache_list ?l)" for k i
    by (cases n) (force simp: hmap_simps)
qed (use assms in \<open>auto simp: lru_inv_def\<close>)

lemma erase_node:
  assumes "lru_inv l" "map_of (cache_map l) k = Some it"
  obtains xs ys where "cache_list l = xs @ (it, k) # ys"
    and "filter (\<lambda>n. fst n \<noteq> it) (cache_list l) = xs @ ys"
    and "removeAll k (recency l) = map snd (xs @ ys)"
proof -
  from assms have "(it, k) \<in> set (cache_list l)" by (simp add: lru_inv_def)
  then obtain xs ys where split: "cache_list l = xs @ (it, k) # ys" by (meson split_list)
  with assms(1) have ids: "it \<notin> fst ` set (xs @ ys)" and ks: "k \<notin> snd ` set (xs @ ys)"
    by (auto simp: lru_inv_def)
  have "filter (\<lambda>n. fst n \<noteq> it) xs = xs" "filter (\<lambda>n. fst n \<noteq> it) ys = ys"
    using ids by (auto intro!: filter_True)
  then have "filter (\<lambda>n. fst n \<noteq> it) (cache_list l) = xs @ ys"
    by (simp add: split)
  moreover have "removeAll k (recency l) = map snd (xs @ ys)"
    using ks by (auto simp: split recency_def image_iff intro!: removeAll_id)
  ultimately show thesis using split that by blast
qed

text \<open>The map entry of a key that is put again afterwards may be erased first.\<close>

lemma push_front_herase:
  assumes "map_of (cache_map (lru_push_front k l)) = map_of (cache_map (lru_push_front k l'))"
    and "cache_list l = cache_list l'" "lru_capacity l = lru_capacity l'" "next_node l = next_node l'"
    and "lru_inv (lru_push_front k l')"
  shows "lru_inv (lru_push_front k l)"
  using assms by (auto simp: lru_inv_def lru_push_front_def)

lemma add_present:
  assumes inv: "lru_inv l" and hit: "map_of (cache_map l) k = Some it"
  shows "\<exists>l'. lru_add k l = Some l' \<and> lru_inv l' \<and> lru_capacity l' = lru_capacity l \<and>
    recency l' = k # removeAll k (recency l)"
proof -
  obtain xs ys where split: "cache_list l = xs @ (it, k) # ys"
    and erased: "filter (\<lambda>n. fst n \<noteq> it) (cache_list l) = xs @ ys"
    and rest: "removeAll k (recency l) = map snd (xs @ ys)"
    using erase_node [OF inv hit] .
  let ?e = "l\<lparr>cache_list := xs @ ys, cache_map := herase k (cache_map l)\<rparr>"
  have "lru_inv ?e" using shrink_inv [OF inv split] by simp
  moreover have "k \<notin> set (recency ?e)"
  proof -
    have "k \<notin> set (map snd (xs @ ys))" unfolding rest [symmetric] by simp
    then show ?thesis by (simp add: recency_def)
  qed
  moreover have "length (cache_list ?e) < lru_capacity ?e"
    using inv split by (simp add: lru_inv_def)
  ultimately have "lru_inv (lru_push_front k ?e)" by (intro push_front_inv)
  then have "lru_inv (lru_push_front k (l\<lparr>cache_list := xs @ ys\<rparr>))"
    by (rule push_front_herase [rotated -1]) (auto simp: lru_push_front_def hmap_simps)
  then show ?thesis
    using hit erased rest by (auto simp: lru_add_def lru_push_front_def recency_def)
qed

lemma add_absent:
  assumes inv: "lru_inv l" and miss: "map_of (cache_map l) k = None"
  shows "\<exists>l'. lru_add k l = Some l' \<and> lru_inv l' \<and> lru_capacity l' = lru_capacity l \<and>
    recency l' = take (lru_capacity l) (k # recency l)"
proof (cases "length (cache_list l) < lru_capacity l")
  case True
  have "k \<notin> set (recency l)"
    using inv miss by (simp add: lru_contains_def flip: lru_contains_recency)
  with True inv have "lru_inv (lru_push_front k l)" by (intro push_front_inv)
  with True miss show ?thesis
    by (auto simp: lru_add_def lru_push_front_def recency_def take_Cons')
next
  case False
  with inv have full: "length (cache_list l) = lru_capacity l" and "cache_list l \<noteq> []"
    by (auto simp: lru_inv_def)
  then obtain xs n where split: "cache_list l = xs @ [n]" by (meson rev_exhaust)
  let ?e = "l\<lparr>cache_list := xs, cache_map := herase (snd n) (cache_map l)\<rparr>"
  have "lru_inv ?e" using shrink_inv [OF inv, of xs n "[]"] split by simp
  moreover have "k \<notin> set (recency ?e)"
    using inv miss split lru_contains_recency [OF inv, of k] by (auto simp: lru_contains_def recency_def)
  ultimately have "lru_inv (lru_push_front k ?e)"
    using full split by (intro push_front_inv) auto
  then show ?thesis
    using full split miss by (auto simp: lru_add_def lru_push_front_def recency_def take_Cons')
qed

lemma lru_add_ok:
  assumes "lru_inv l"
  shows "\<exists>l'. lru_add k l = Some l' \<and> lru_inv l' \<and> lru_capacity l' = lru_capacity l \<and>
    recency l' = take (lru_capacity l) (k # removeAll k (recency l))"
proof (cases "map_of (cache_map l) k")
  case None
  then have "k \<notin> set (recency l)"
    using assms by (simp add: lru_contains_def flip: lru_contains_recency)
  with add_absent [OF assms None] show ?thesis by simp
next
  case (Some it)
  from add_present [OF assms Some] obtain l' where l':
    "lru_add k l = Some l'" "lru_inv l'" "lru_capacity l' = lru_capacity l"
    "recency l' = k # removeAll k (recency l)"
    by blast
  then have "length (recency l') \<le> lru_capacity l"
    using recency_bounded [OF l'(2)] by argo
  with l' show ?thesis by (metis order_refl take_all)
qed

text \<open>C29: \<open>LRUSet\<close> refines the bounded recency list: adding a key to a well-formed set never runs
  into undefined behaviour, keeps list and iterator map consistent, and yields the new key
  followed by the other keys in their order, cut to the capacity.\<close>
theorem lru_add_refines:
  assumes "lru_inv l"
  shows "\<exists>l'. lru_add k l = Some l' \<and> lru_inv l' \<and> lru_capacity l' = lru_capacity l \<and>
    recency l' = take (lru_capacity l) (k # removeAll k (recency l))"
  using assms by (rule lru_add_ok)

theorem lru_add_refines_witness:
  "\<exists>l'. lru_add (1::nat) (new_lru 100) = Some l' \<and> recency l' = [1]"
proof -
  have "lru_inv (new_lru 100 :: nat lru)" by simp
  from lru_add_refines [OF this, of 1] show ?thesis by (auto simp: new_lru_def recency_def)
qed

section \<open>The unique task manager\<close>

text \<open>
  \<open>UniqueTaskManager::run\<close>: the manager after the call and whether the task was executed.
  The set has the default capacity of \<open>LRUSet\<close>.
\<close>

definition default_capacity :: nat where
  "default_capacity = 100"

definition new_utm :: "'k lru" where
  "new_utm = new_lru default_capacity"

definition utm_run :: "'k \<Rightarrow> 'k lru \<Rightarrow> (bool \<times> 'k lru) option" where
  "utm_run task_id l =
     (if \<not> lru_contains l task_id then
        (case lru_add task_id l of
           None \<Rightarrow> None
         | Some l' \<Rightarrow> Some (True, l'))
      else Some (False, l))"

text \<open>A sequence of submissions: for each whether it was executed, and the final state.\<close>

fun run_seq :: "('k \<Rightarrow> 's \<Rightarrow> (bool \<times> 's) option) \<Rightarrow> 'k list \<Rightarrow> 's \<Rightarrow> (bool list \<times> 's) option" where
  "run_seq run [] s = Some ([], s)"
| "run_seq run (k # ks) s =
     (case run k s of
        None \<Rightarrow> None
      | Some (b, s') \<Rightarrow>
          (case run_seq run ks s' of
             None \<Rightarrow> None
           | Some (bs, s'') \<Rightarrow> Some (b # bs, s'')))"

text \<open>
  What a client relies on: a submission never fails, is executed exactly if its id is not
  remembered, and an executed id is remembered in front of the others.
\<close>

locale task_filter =
  fixes run :: "'k \<Rightarrow> 's \<Rightarrow> (bool \<times> 's) option"
    and seen :: "'s \<Rightarrow> 'k list"
    and bound :: "'s \<Rightarrow> nat"
    and wf :: "'s \<Rightarrow> bool"
  assumes run_known: "wf s \<Longrightarrow> k \<in> set (seen s) \<Longrightarrow> run k s = Some (False, s)"
    and run_new: "wf s \<Longrightarrow> k \<notin> set (seen s) \<Longrightarrow>
      \<exists>s'. run k s = Some (True, s') \<and> wf s' \<and> bound s' = bound s \<and>
           seen s' = take (bound s) (k # seen s)"
    and seen_bounded: "wf s \<Longrightarrow> length (seen s) \<le> bound s \<and> 0 < bound s"
begin

lemma run_step:
  assumes "wf s"
  obtains s' where "run k s = Some (k \<notin> set (seen s), s')" "wf s'" "bound s' = bound s"
    "seen s' = (if k \<in> set (seen s) then seen s else take (bound s) (k # seen s))"
  using assms run_known [of s k] run_new [of s k] by (cases "k \<in> set (seen s)") auto

lemma run_seq_total:
  assumes "wf s"
  shows "\<exists>bs s'. run_seq run ks s = Some (bs, s') \<and> wf s' \<and> bound s' = bound s \<and> length bs = length ks"
  using assms
proof (induction ks arbitrary: s)
  case (Cons k ks)
  obtain s1 where s1: "run k s = Some (k \<notin> set (seen s), s1)" "wf s1" "bound s1 = bound s"
    using run_step [OF Cons.prems] by metis
  from Cons.IH [OF s1(2)] s1 show ?case by auto
qed simp

text \<open>An id at position \<open>p\<close> of the memory is forgotten only after \<open>bound - p\<close> further executions.\<close>

lemma remembered:
  assumes "wf s" "k \<in> set (take (bound s - length (filter id bs)) (seen s))"
    "run_seq run ks s = Some (bs, s')"
  shows "k \<in> set (seen s')"
  using assms
proof (induction ks arbitrary: s bs)
  case Nil
  then show ?case by (auto dest: in_set_takeD)
next
  case (Cons x ks)
  obtain s1 where s1: "run x s = Some (x \<notin> set (seen s), s1)" "wf s1" "bound s1 = bound s"
    "seen s1 = (if x \<in> set (seen s) then seen s else take (bound s) (x # seen s))"
    using run_step [OF Cons.prems(1)] .
  from Cons.prems(3) s1(1) obtain bs1 where bs: "bs = (x \<notin> set (seen s)) # bs1"
    and rest: "run_seq run ks s1 = Some (bs1, s')"
    by (auto split: option.splits)
  have "k \<in> set (take (bound s1 - length (filter id bs1)) (seen s1))"
  proof (cases "x \<in> set (seen s)")
    case True
    with bs s1 Cons.prems(2) show ?thesis by (simp add: id_def)
  next
    case False
    let ?n = "length (filter id bs1)"
    have k: "k \<in> set (take (bound s - Suc ?n) (seen s))"
      using False bs Cons.prems(2) by (simp add: id_def)
    then obtain m where m: "bound s - ?n = Suc m" by (cases "bound s - ?n") auto
    then have "bound s - Suc ?n = m" and "Suc m \<le> bound s" by simp_all
    with k m have "k \<in> set (take (bound s - ?n) (take (bound s) (x # seen s)))"
      by (simp add: min_def)
    with False s1 show ?thesis by simp
  qed
  from Cons.IH [OF s1(2) this rest] show ?case .
qed

lemma run_seq_append:
  "run_seq run (ks @ ks') s =
     (case run_seq run ks s of None \<Rightarrow> None | Some (bs, s1) \<Rightarrow>
        (case run_seq run ks' s1 of None \<Rightarrow> None | Some (bs', s2) \<Rightarrow> Some (bs @ bs', s2)))"
  by (induction ks arbitrary: s) (auto split: option.splits prod.splits)

text \<open>Between two executions of one id there are at least \<open>bound\<close> executions of others.\<close>

lemma executions_apart:
  assumes "wf s" and "run_seq run (k # mid @ [k]) s = Some (b # bs @ [True], s')" "length bs = length mid"
    and b: "b \<or> k \<in> set (take (bound s - length (filter id bs)) (seen s))"
  shows "bound s \<le> length (filter id bs)"
proof (rule ccontr)
  assume few: "\<not> bound s \<le> length (filter id bs)"
  obtain s1 where s1: "run k s = Some (k \<notin> set (seen s), s1)" "wf s1" "bound s1 = bound s"
    "seen s1 = (if k \<in> set (seen s) then seen s else take (bound s) (k # seen s))"
    using run_step [OF assms(1)] .
  obtain bs1 s2 where mid: "run_seq run mid s1 = Some (bs1, s2)" "wf s2" "length bs1 = length mid"
    using run_seq_total [OF s1(2)] by blast
  from assms(2) s1(1) mid obtain c s3 where
    "bs @ [True] = bs1 @ [c]" and last: "run k s2 = Some (c, s3)" and b': "b = (k \<notin> set (seen s))"
    by (auto simp: run_seq_append split: option.splits)
  then have bs: "bs = bs1" and c by simp_all
  have "k \<in> set (take (bound s1 - length (filter id bs1)) (seen s1))"
  proof (cases "k \<in> set (seen s)")
    case True
    with b b' s1 bs show ?thesis by simp
  next
    case False
    from few obtain m where "bound s - length (filter id bs1) = Suc m"
      unfolding bs by (metis Suc_diff_Suc not_le)
    with False s1 show ?thesis by (cases "bound s") auto
  qed
  from remembered [OF s1(2) this mid(1)] have "run k s2 = Some (False, s2)"
    by (rule run_known [OF mid(2)])
  with last \<open>c\<close> show False by simp
qed

text \<open>Ids that are all new are all executed.\<close>

lemma fresh_run:
  assumes "wf s" "distinct ks" "set ks \<inter> set (seen s) = {}"
  shows "\<exists>s'. run_seq run ks s = Some (replicate (length ks) True, s') \<and> wf s' \<and>
    bound s' = bound s \<and> seen s' = take (bound s) (rev ks @ seen s)"
  using assms
proof (induction ks arbitrary: s)
  case Nil
  with seen_bounded [of s] show ?case by auto
next
  case (Cons k ks)
  from Cons.prems obtain s1 where s1: "run k s = Some (True, s1)" "wf s1" "bound s1 = bound s"
    "seen s1 = take (bound s) (k # seen s)"
    using run_new [of s k] by auto
  have "set ks \<inter> set (seen s1) = {}"
    using Cons.prems s1(4) set_take_subset [of "bound s" "k # seen s"] by auto
  with Cons.IH [OF s1(2)] Cons.prems(2) obtain s2 where
    "run_seq run ks s1 = Some (replicate (length ks) True, s2)" "wf s2" "bound s2 = bound s1"
    "seen s2 = take (bound s1) (rev ks @ seen s1)"
    by auto
  with s1 show ?case by (auto simp: take_append min_def take_Cons')
qed

text \<open>As long as at most \<open>bound\<close> ids are in play, the executed ones are exactly the new ones, once each.\<close>

lemma executed_once:
  assumes "wf s" "run_seq run ks s = Some (bs, s')" "card (set ks \<union> set (seen s)) \<le> bound s"
    and "distinct (seen s)"
  shows "set (seen s') = set ks \<union> set (seen s) \<and>
    distinct (map fst (filter snd (zip ks bs))) \<and>
    set (map fst (filter snd (zip ks bs))) = set ks - set (seen s)"
  using assms
proof (induction ks arbitrary: s bs)
  case (Cons x ks)
  obtain s1 where s1: "run x s = Some (x \<notin> set (seen s), s1)" "wf s1" "bound s1 = bound s"
    "seen s1 = (if x \<in> set (seen s) then seen s else take (bound s) (x # seen s))"
    using run_step [OF Cons.prems(1)] .
  from Cons.prems(2) s1(1) obtain bs1 where bs: "bs = (x \<notin> set (seen s)) # bs1"
    and rest: "run_seq run ks s1 = Some (bs1, s')"
    by (auto split: option.splits)
  have "length (x # seen s) \<le> bound s" if "x \<notin> set (seen s)"
  proof -
    have "card (set (x # seen s)) \<le> card (set (x # ks) \<union> set (seen s))" by (intro card_mono) auto
    then show ?thesis using that Cons.prems(3,4) by (simp add: distinct_card)
  qed
  then have seen1: "seen s1 = (if x \<in> set (seen s) then seen s else x # seen s)"
    using s1(4) by simp
  then have "set ks \<union> set (seen s1) = set (x # ks) \<union> set (seen s)" by auto
  with Cons.prems(3,4) s1(3) seen1 have "card (set ks \<union> set (seen s1)) \<le> bound s1" "distinct (seen s1)"
    by auto
  from Cons.IH [OF s1(2) rest this] show ?case using seen1 bs by (cases "x \<in> set (seen s)") auto
qed simp

end

lemma utm_run_known: "lru_inv l \<Longrightarrow> k \<in> set (recency l) \<Longrightarrow> utm_run k l = Some (False, l)"
  by (simp add: utm_run_def lru_contains_recency)

lemma utm_run_new:
  assumes "lru_inv l" "k \<notin> set (recency l)"
  shows "\<exists>l'. utm_run k l = Some (True, l') \<and> lru_inv l' \<and> lru_capacity l' = lru_capacity l \<and>
    recency l' = take (lru_capacity l) (k # recency l)"
  using lru_add_ok [OF assms(1), of k] assms by (auto simp: utm_run_def lru_contains_recency)

interpretation utm: task_filter utm_run recency lru_capacity lru_inv
proof unfold_locales
  fix s :: "'k lru" and k :: 'k
  show "lru_inv s \<Longrightarrow> length (recency s) \<le> lru_capacity s \<and> 0 < lru_capacity s"
    by (simp add: recency_bounded) (simp add: lru_inv_def)
qed (simp_all add: utm_run_known utm_run_new)

text \<open>C15: A fresh task manager executes each submitted id exactly once, whatever the order and the
  number of the repetitions, as long as at most 100 different ids are submitted.\<close>
theorem utm_exactly_once:
  assumes "card (set ids) \<le> default_capacity"
  shows "\<exists>bs l. run_seq utm_run ids new_utm = Some (bs, l) \<and>
    distinct (map fst (filter snd (zip ids bs))) \<and>
    set (map fst (filter snd (zip ids bs))) = set ids"
proof -
  have wf: "lru_inv new_utm" by (simp add: new_utm_def default_capacity_def)
  obtain bs l where run: "run_seq utm_run ids new_utm = Some (bs, l)"
    using utm.run_seq_total [OF wf] by blast
  have "card (set ids \<union> set (recency new_utm)) \<le> lru_capacity new_utm" "distinct (recency new_utm)"
    using assms by (simp_all add: new_utm_def new_lru_def recency_def)
  from utm.executed_once [OF wf run this] run show ?thesis
    by (auto simp: new_utm_def)
qed

theorem utm_exactly_once_witness:
  "\<exists>bs l. run_seq utm_run [''a'', ''b'', ''a''] new_utm = Some (bs, l) \<and>
    set (map fst (filter snd (zip [''a'', ''b'', ''a''] bs))) = {''a'', ''b''}"
proof -
  have "card (set [''a'', ''b'', ''a'']) \<le> default_capacity"
    by (simp add: default_capacity_def card_insert_if)
  from utm_exactly_once [OF this] show ?thesis by auto
qed

text \<open>The memory is a window: when the manager executes an id twice, at least 100 executions of
  other submissions lie between the two.\<close>
lemma utm_window:
  fixes k :: 'k
  assumes "run_seq utm_run (pre @ k # mid @ [k]) new_utm = Some (bs0 @ True # bs @ [True], l)"
    and "length bs0 = length pre" and "length bs = length mid"
  shows "default_capacity \<le> length (filter id bs)"
proof -
  have wf: "lru_inv (new_utm :: 'k lru)" by (simp add: new_utm_def default_capacity_def)
  obtain bs1 l1 where pre: "run_seq utm_run pre new_utm = Some (bs1, l1)" "lru_inv l1"
    "lru_capacity l1 = lru_capacity (new_utm :: 'k lru)" "length bs1 = length pre"
    using utm.run_seq_total [OF wf, of pre] by blast
  obtain bs2 l2 where rest: "run_seq utm_run (k # mid @ [k]) l1 = Some (bs2, l2)"
    using utm.run_seq_total [OF pre(2), of "k # mid @ [k]"] by blast
  from assms(1) pre(1) rest have "bs0 @ True # bs @ [True] = bs1 @ bs2"
    by (simp add: utm.run_seq_append)
  with assms(2) pre(4) have "bs2 = True # bs @ [True]" by simp
  with rest have "run_seq utm_run (k # mid @ [k]) l1 = Some (True # bs @ [True], l2)" by simp
  from utm.executions_apart [OF pre(2) this assms(3)] pre(3) show ?thesis
    by (simp add: new_utm_def new_lru_def)
qed

lemma utm_window_witness:
  "\<exists>l. run_seq utm_run ([] @ 0 # [1..<101] @ [0]) new_utm =
      Some ([] @ True # replicate 100 True @ [True], l) \<and>
    default_capacity \<le> length (filter id (replicate 100 True))"
proof -
  have wf: "lru_inv (new_utm :: nat lru)" by (simp add: new_utm_def default_capacity_def)
  have first: "(0 :: nat) # [1..<101] = [0..<101]" by (simp add: upt_rec)
  obtain l :: "nat lru" where l: "run_seq utm_run [0..<101] new_utm = Some (replicate 101 True, l)"
    "lru_inv l" "recency l = take 100 (rev [0..<101])"
    using utm.fresh_run [OF wf, of "[0..<101]"]
    by (auto simp: new_utm_def default_capacity_def new_lru_def recency_def)
  have "rev [0..<101] = rev [1..<101] @ [0 :: nat]" by (simp flip: first)
  then have "0 \<notin> set (recency l)" by (simp add: l(3))
  from utm_run_new [OF l(2) this] obtain l' where "utm_run 0 l = Some (True, l')" by blast
  with l(1) have run: "run_seq utm_run ([0..<101] @ [0]) new_utm = Some (replicate 101 True @ [True], l')"
    by (simp add: utm.run_seq_append)
  have "replicate 101 True = True # replicate 100 True" by (simp add: numeral_eq_Suc)
  with run have "run_seq utm_run ([] @ 0 # [1..<101] @ [0]) new_utm =
      Some ([] @ True # replicate 100 True @ [True], l')"
    by (simp flip: first)
  moreover from utm_window [OF this] have "default_capacity \<le> length (filter id (replicate 100 True))"
    by simp
  ultimately show ?thesis by blast
qed

section \<open>Two submissions at the same time\<close>

text \<open>
  \<open>run\<close> tests \<open>contains\<close> and then calls \<open>add\<close>; only \<open>add\<close> holds the mutex. Any number of threads
  submit the same id; a thread is before the test, between the test and the insertion, or
  done, and \<open>executed\<close> counts the executions of the task.
\<close>

datatype race_pc = Entry | Passed | Finished

record 'k race =
  race_set :: "'k lru"
  race_pcs :: "nat \<Rightarrow> race_pc"
  executed :: nat

definition race_init :: "'k lru \<Rightarrow> 'k race" where
  "race_init l = \<lparr>race_set = l, race_pcs = (\<lambda>_. Entry), executed = 0\<rparr>"

inductive race_step :: "'k \<Rightarrow> 'k race \<Rightarrow> 'k race \<Rightarrow> bool" for k where
  pass: "race_pcs s i = Entry \<Longrightarrow> \<not> lru_contains (race_set s) k \<Longrightarrow>
     race_step k s (s\<lparr>race_pcs := (race_pcs s)(i := Passed)\<rparr>)"
| skip: "race_pcs s i = Entry \<Longrightarrow> lru_contains (race_set s) k \<Longrightarrow>
     race_step k s (s\<lparr>race_pcs := (race_pcs s)(i := Finished)\<rparr>)"
| exec: "race_pcs s i = Passed \<Longrightarrow> lru_add k (race_set s) = Some l' \<Longrightarrow>
     race_step k s (s\<lparr>race_set := l', race_pcs := (race_pcs s)(i := Finished),
                     executed := Suc (executed s)\<rparr>)"

inductive race_reach :: "'k \<Rightarrow> 'k lru \<Rightarrow> 'k race \<Rightarrow> bool" for k l where
  start: "race_reach k l (race_init l)"
| step: "race_reach k l s \<Longrightarrow> race_step k s t \<Longrightarrow> race_reach k l t"

inductive_cases race_stepE: "race_step k s t"

text \<open>C39: The test and the insertion of \<open>run\<close> are not one atomic step: for every set that does not
  hold the id, two threads that submit it at the same time can both execute the task.\<close>
theorem utm_race_executes_twice:
  assumes "lru_inv l" and "k \<notin> set (recency l)"
  shows "\<exists>s. race_reach k l s \<and> executed s = 2"
proof -
  let ?s1 = "(race_init l)\<lparr>race_pcs := (race_pcs (race_init l))(0 := Passed)\<rparr>"
  let ?s2 = "?s1\<lparr>race_pcs := (race_pcs ?s1)(1 := Passed)\<rparr>"
  have miss: "\<not> lru_contains l k" using assms by (simp add: lru_contains_recency)
  have r1: "race_reach k l ?s1"
    by (rule step [OF start], rule pass) (simp_all add: race_init_def miss)
  have r2: "race_reach k l ?s2"
    by (rule step [OF r1], rule pass) (simp_all add: race_init_def miss)
  obtain l1 where l1: "lru_add k l = Some l1" "lru_inv l1" using lru_add_ok [OF assms(1)] by blast
  obtain l2 where l2: "lru_add k l1 = Some l2" using lru_add_ok [OF l1(2)] by blast
  let ?s3 = "?s2\<lparr>race_set := l1, race_pcs := (race_pcs ?s2)(0 := Finished), executed := Suc (executed ?s2)\<rparr>"
  let ?s4 = "?s3\<lparr>race_set := l2, race_pcs := (race_pcs ?s3)(1 := Finished), executed := Suc (executed ?s3)\<rparr>"
  have r3: "race_reach k l ?s3"
    by (rule step [OF r2], rule exec) (simp_all add: race_init_def l1)
  have "race_reach k l ?s4"
    by (rule step [OF r3], rule exec) (simp_all add: race_init_def l2)
  moreover have "executed ?s4 = 2" by (simp add: race_init_def)
  ultimately show ?thesis by blast
qed

theorem utm_race_executes_twice_witness:
  "\<exists>s. race_reach ''rpc'' new_utm s \<and> executed s = 2"
  by (rule utm_race_executes_twice) (simp_all add: new_utm_def default_capacity_def)

end
