(* ===== verification/Rpc.thy ===== *)
theory Rpc
  imports Topics LruSet
begin

text \<open>
  The remote procedure calls of a peer (\<open>CRPC.hpp\<close>, \<open>CRPC.cpp\<close>): the producer pool, the
  caller stub with its promises, the callee stub that dispatches requests to registered
  methods, and the call builder with its timeout, retry and failure policies.

  The state \<open>rpc\<close> is an extensible record: the peer of the later theories extends it, so
  the operations here act on the whole peer. \<open>'d\<close> is the type of the registered
  delegates; what a delegate does is the argument \<open>exec\<close>. A message handed to Pulsar is
  appended to \<open>wire\<close>; what arrives is an argument of \<open>try_handle_request\<close>.
\<close>

section \<open>State\<close>

text \<open>\<open>req::RPRequest\<close>.\<close>

record rpc_request =
  rq_name :: string
  rq_responds_to :: string
  rq_response_topic :: string
  rq_rpc_id :: string
  rq_args :: string
  rq_error :: bool

definition new_request :: rpc_request where
  "new_request = \<lparr>rq_name = [], rq_responds_to = [], rq_response_topic = [], rq_rpc_id = [],
     rq_args = [], rq_error = False\<rparr>"

text \<open>The shared state of a promise and its future.\<close>

datatype promise = Pending | Fulfilled json | Broken exn

text \<open>
  \<open>methods\<close> and \<open>consumers\<close> are the map \<open>_methods\<close> of the callee stub and the topics its
  consumers are subscribed to, \<open>handled\<close> the set of its \<open>_uniqueTaskManager\<close>. \<open>promises\<close> maps
  an rpc id to a cell of \<open>cells\<close>. A pool maps a topic to the time of its last use.
  \<open>sys_reads\<close> and \<open>uuid_reads\<close> count the reads of the clock and of the UUID generator, \<open>errors\<close>
  is what \<open>LOGERROR\<close> was called with, \<open>fail_calls\<close> the user callbacks run by failed calls.
\<close>

record 'd rpc =
  topic_scope :: string
  peer_uuid :: string
  methods :: "(string, (string, 'd) hmap) hmap"
  consumers :: "string list"
  handled :: "string lru"
  callee_pool :: "(string, int) hmap"
  promises :: "(string, nat) hmap"
  cells :: "promise list"
  caller_pool :: "(string, int) hmap"
  wire :: "(string \<times> rpc_request) list"
  sys_reads :: nat
  uuid_reads :: nat
  errors :: "string list"
  fail_calls :: "(nat \<times> exn) list"

definition log_error :: "string \<Rightarrow> ('d, 'm) rpc_scheme \<Rightarrow> ('d, 'm) rpc_scheme" where
  "log_error msg s = s\<lparr>errors := errors s @ [msg]\<rparr>"

definition read_sys :: "world \<Rightarrow> ('d, 'm) rpc_scheme \<Rightarrow> int \<times> ('d, 'm) rpc_scheme" where
  "read_sys w s = (sys_clock w (sys_reads s), s\<lparr>sys_reads := Suc (sys_reads s)\<rparr>)"

definition GenUUID :: "world \<Rightarrow> ('d, 'm) rpc_scheme \<Rightarrow> string \<times> ('d, 'm) rpc_scheme" where
  "GenUUID w s = (gen_uuid w (uuid_reads s), s\<lparr>uuid_reads := Suc (uuid_reads s)\<rparr>)"

section \<open>The producer pool\<close>

type_synonym pool = "(string, int) hmap"

text \<open>
  \<open>_createProducer\<close> up to its callback: \<open>None\<close> when it throws, else whether the producer was
  inserted (the callback runs then) and the pool. \<open>now\<close> is the clock read of the bucket.
\<close>

definition create_producer :: "world \<Rightarrow> int \<Rightarrow> string \<Rightarrow> pool \<Rightarrow> (bool \<times> pool) option" where
  "create_producer w now topic pool =
     (if \<not> producer_ok w topic then None
      else if map_of pool topic = None then Some (True, hput topic now pool)
      else Some (False, pool))"

text \<open>The branch of \<open>write\<close> that has found a producer.\<close>

definition write_found ::
  "world \<Rightarrow> int \<Rightarrow> string \<Rightarrow> rpc_request \<Rightarrow> pool \<Rightarrow> (string \<times> rpc_request) list
     \<Rightarrow> bool \<times> pool \<times> (string \<times> rpc_request) list" where
  "write_found w now topic req pool wr =
     (let pool' = hmodify topic (\<lambda>_. now) pool
      in if \<not> serial_ok w (rq_args req) then (False, pool', wr)
         else (True, pool', wr @ [(topic, req)]))"

text \<open>
  \<open>ApachePulsarRPCProducerPool::write\<close>. The callback of a new producer calls \<open>write\<close> again,
  which then finds it, and its result is dropped. \<open>t\<close> numbers the first clock read.
\<close>

definition pool_write ::
  "world \<Rightarrow> nat \<Rightarrow> string \<Rightarrow> rpc_request \<Rightarrow> pool \<Rightarrow> (string \<times> rpc_request) list
     \<Rightarrow> bool \<times> nat \<times> pool \<times> (string \<times> rpc_request) list" where
  "pool_write w t topic req pool wr =
     (case map_of pool topic of
        Some _ \<Rightarrow>
          (let (ok, pool', wr') = write_found w (sys_clock w t) topic req pool wr
           in (ok, Suc t, pool', wr'))
      | None \<Rightarrow>
          (case create_producer w (sys_clock w t) topic pool of
             None \<Rightarrow> (False, Suc t, pool, wr)
           | Some (inserted, pool1) \<Rightarrow>
               if inserted then
                 (let (_, pool2, wr2) = write_found w (sys_clock w (Suc t)) topic req pool1 wr
                  in (True, Suc (Suc t), pool2, wr2))
               else (True, Suc t, pool1, wr)))"

text \<open>\<open>cleanup\<close> drops the producers unused for more than 60 seconds; the clock counts nanoseconds.\<close>

definition pool_cleanup :: "int \<Rightarrow> pool \<Rightarrow> pool" where
  "pool_cleanup now pool =
     (let toRemove = map fst (filter (\<lambda>e. now - snd e > 60000000000) pool)
      in fold herase toRemove pool)"

definition caller_write :: "world \<Rightarrow> string \<Rightarrow> rpc_request \<Rightarrow> ('d, 'm) rpc_scheme \<Rightarrow> bool \<times> ('d, 'm) rpc_scheme" where
  "caller_write w topic req s =
     (let (ok, t, pool, wr) = pool_write w (sys_reads s) topic req (caller_pool s) (wire s)
      in (ok, s\<lparr>sys_reads := t, caller_pool := pool, wire := wr\<rparr>))"

definition callee_write :: "world \<Rightarrow> string \<Rightarrow> rpc_request \<Rightarrow> ('d, 'm) rpc_scheme \<Rightarrow> bool \<times> ('d, 'm) rpc_scheme" where
  "callee_write w topic req s =
     (let (ok, t, pool, wr) = pool_write w (sys_reads s) topic req (callee_pool s) (wire s)
      in (ok, s\<lparr>sys_reads := t, callee_pool := pool, wire := wr\<rparr>))"

text \<open>What a write can do: it sends the message, or it sends nothing; only the pool and the clock change.\<close>

lemma pool_write_sends:
  assumes "producer_ok w topic" "serial_ok w (rq_args req)"
  shows "\<exists>t' pool'. pool_write w t topic req pool wr = (True, t', pool', wr @ [(topic, req)])"
  using assms
  by (auto simp: pool_write_def write_found_def create_producer_def Let_def split: option.splits)

lemma pool_write_wire:
  "pool_write w t topic req pool wr = (ok, t', pool', wr') \<Longrightarrow> wr' = wr \<or> wr' = wr @ [(topic, req)]"
  by (auto simp: pool_write_def write_found_def create_producer_def Let_def
      split: option.splits if_splits prod.splits)

lemma pool_write_fails:
  "map_of pool topic = None \<Longrightarrow> \<not> producer_ok w topic \<Longrightarrow>
   pool_write w t topic req pool wr = (False, Suc t, pool, wr)"
  by (simp add: pool_write_def create_producer_def)

lemma map_of_fold_herase:
  "map_of (fold herase ks m) k = (if k \<in> set ks then None else map_of m k)"
  by (induction ks arbitrary: m) (auto simp: hmap_simps)

lemma map_of_cleanup:
  assumes "distinct (hkeys pool)"
  shows "map_of (pool_cleanup now pool) topic =
    (case map_of pool topic of
       None \<Rightarrow> None
     | Some used \<Rightarrow> if now - used > 60000000000 then None else Some used)"
proof -
  have "topic \<in> set (map fst (filter (\<lambda>e. now - snd e > 60000000000) pool)) \<longleftrightarrow>
      (\<exists>used. map_of pool topic = Some used \<and> now - used > 60000000000)"
    using assms by force
  then show ?thesis
    by (auto simp: pool_cleanup_def map_of_fold_herase split: option.splits)
qed

lemma caller_write_frame [simp]:
  "methods (snd (caller_write w t r s)) = methods s"
  "consumers (snd (caller_write w t r s)) = consumers s"
  "handled (snd (caller_write w t r s)) = handled s"
  "promises (snd (caller_write w t r s)) = promises s"
  "cells (snd (caller_write w t r s)) = cells s"
  "topic_scope (snd (caller_write w t r s)) = topic_scope s"
  "peer_uuid (snd (caller_write w t r s)) = peer_uuid s"
  "errors (snd (caller_write w t r s)) = errors s"
  "uuid_reads (snd (caller_write w t r s)) = uuid_reads s"
  "rpc.more (snd (caller_write w t r s)) = rpc.more s"
  by (simp_all add: caller_write_def split: prod.splits)

lemma callee_write_frame [simp]:
  "methods (snd (callee_write w t r s)) = methods s"
  "consumers (snd (callee_write w t r s)) = consumers s"
  "handled (snd (callee_write w t r s)) = handled s"
  "promises (snd (callee_write w t r s)) = promises s"
  "cells (snd (callee_write w t r s)) = cells s"
  "topic_scope (snd (callee_write w t r s)) = topic_scope s"
  "peer_uuid (snd (callee_write w t r s)) = peer_uuid s"
  "rpc.more (snd (callee_write w t r s)) = rpc.more s"
  by (simp_all add: callee_write_def split: prod.splits)

lemma caller_write_wire:
  "producer_ok w t \<Longrightarrow> serial_ok w (rq_args r) \<Longrightarrow>
     fst (caller_write w t r s) \<and> wire (snd (caller_write w t r s)) = wire s @ [(t, r)]"
  using pool_write_sends [of w t r "sys_reads s" "caller_pool s" "wire s"]
  by (auto simp: caller_write_def)

lemma callee_write_wire:
  "producer_ok w t \<Longrightarrow> serial_ok w (rq_args r) \<Longrightarrow>
     fst (callee_write w t r s) \<and> wire (snd (callee_write w t r s)) = wire s @ [(t, r)]"
  using pool_write_sends [of w t r "sys_reads s" "callee_pool s" "wire s"]
  by (auto simp: callee_write_def)

section \<open>The caller stub\<close>

text \<open>\<open>__serialize__\<close>: the arguments pushed onto a JSON value that starts as null.\<close>

definition serialize_args :: "json list \<Rightarrow> json" where
  "serialize_args args = (if args = [] then JNull else JArr args)"

definition own_topic :: "('d, 'm) rpc_scheme \<Rightarrow> string" where
  "own_topic s = topic_scope s @ peer_uuid s"

text \<open>\<open>RPCCallerStub::fire_and_forget\<close>: the exception it returns, if any.\<close>

definition fire_and_forget ::
  "world \<Rightarrow> string \<Rightarrow> string \<Rightarrow> json list \<Rightarrow> ('d, 'm) rpc_scheme \<Rightarrow> exn option \<times> ('d, 'm) rpc_scheme" where
  "fire_and_forget w scope name args s =
     (let (uuid, s1) = GenUUID w s;
          request = new_request\<lparr>rq_name := name, rq_args := jdump w (serialize_args args),
                      rq_response_topic := [], rq_rpc_id := uuid\<rparr>;
          (ok, s2) = caller_write w scope request s1
      in (if ok then None else Some (RuntimeError (''Failed to write to topic '' @ scope)), s2))"

text \<open>
  \<open>_promises[rpc_id] = make_shared\<close> destroys the promise that was stored under the id, and the
  destructor breaks its future.
\<close>

definition break_replaced :: "string \<Rightarrow> ('d, 'm) rpc_scheme \<Rightarrow> promise list" where
  "break_replaced rpc_id s =
     (case map_of (promises s) rpc_id of
        None \<Rightarrow> cells s
      | Some cell \<Rightarrow> (cells s)[cell := Broken (LogicError ''std::future_error: Broken promise'')])"

lemma length_break_replaced [simp]: "length (break_replaced rpc_id s) = length (cells s)"
  by (simp add: break_replaced_def split: option.splits)

text \<open>\<open>RPCCallerStub::call\<close>: the cell of the future it returns. The result of the write is dropped.\<close>

definition rpc_call ::
  "world \<Rightarrow> string \<Rightarrow> string \<Rightarrow> string \<Rightarrow> json list \<Rightarrow> ('d, 'm) rpc_scheme \<Rightarrow> nat \<times> ('d, 'm) rpc_scheme" where
  "rpc_call w scope name rpc_id args s =
     (let request = new_request\<lparr>rq_name := name, rq_args := jdump w (serialize_args args),
                      rq_response_topic := own_topic s, rq_rpc_id := rpc_id\<rparr>;
          cell = length (cells s);
          s1 = s\<lparr>promises := hput rpc_id cell (promises s), cells := break_replaced rpc_id s @ [Pending]\<rparr>
      in (cell, snd (caller_write w scope request s1)))"

definition solve_promise :: "string \<Rightarrow> json \<Rightarrow> ('d, 'm) rpc_scheme \<Rightarrow> ('d, 'm) rpc_scheme" where
  "solve_promise rpc_id response s =
     (case map_of (promises s) rpc_id of
        None \<Rightarrow> s
      | Some cell \<Rightarrow> s\<lparr>cells := (cells s)[cell := Fulfilled response],
                       promises := herase rpc_id (promises s)\<rparr>)"

definition forget_promise :: "string \<Rightarrow> ('d, 'm) rpc_scheme \<Rightarrow> ('d, 'm) rpc_scheme" where
  "forget_promise rpc_id s =
     (case map_of (promises s) rpc_id of
        None \<Rightarrow> s
      | Some cell \<Rightarrow>
          s\<lparr>cells := (cells s)[cell :=
               Broken (RuntimeError (''Promise for '' @ rpc_id @ '' was destroyed manually''))],
            promises := herase rpc_id (promises s)\<rparr>)"

text \<open>Every id in the map has a cell of its own, and that cell is still pending.\<close>

definition promises_inv :: "('d, 'm) rpc_scheme \<Rightarrow> bool" where
  "promises_inv s \<longleftrightarrow>
     distinct (hkeys (promises s)) \<and>
     (\<forall>i c. map_of (promises s) i = Some c \<longrightarrow> c < length (cells s) \<and> cells s ! c = Pending) \<and>
     (\<forall>i j c. map_of (promises s) i = Some c \<longrightarrow> map_of (promises s) j = Some c \<longrightarrow> i = j)"

lemma promises_inv_cong:
  "promises s' = promises s \<Longrightarrow> cells s' = cells s \<Longrightarrow> promises_inv s' = promises_inv s"
  by (simp add: promises_inv_def)

lemma rpc_call_promises:
  "promises (snd (rpc_call w scope name rpc_id args s)) = hput rpc_id (length (cells s)) (promises s)"
  "cells (snd (rpc_call w scope name rpc_id args s)) = break_replaced rpc_id s @ [Pending]"
  "fst (rpc_call w scope name rpc_id args s) = length (cells s)"
  by (simp_all add: rpc_call_def Let_def)

lemma break_replaced_other:
  assumes "promises_inv s" "map_of (promises s) i = Some c" "i \<noteq> rpc_id"
  shows "break_replaced rpc_id s ! c = cells s ! c"
proof (cases "map_of (promises s) rpc_id")
  case (Some c')
  with assms have "c' \<noteq> c" unfolding promises_inv_def by metis
  with Some show ?thesis by (simp add: break_replaced_def)
qed (simp add: break_replaced_def)

lemma break_replaced_settled:
  assumes "promises_inv s" "cells s ! c \<noteq> Pending"
  shows "break_replaced rpc_id s ! c = cells s ! c"
proof (cases "map_of (promises s) rpc_id")
  case (Some c')
  with assms have "c' \<noteq> c" by (auto simp: promises_inv_def)
  with Some show ?thesis by (simp add: break_replaced_def)
qed (simp add: break_replaced_def)

lemma promises_inv_call: "promises_inv s \<Longrightarrow> promises_inv (snd (rpc_call w scope name rpc_id args s))"
proof -
  let ?m = "hput rpc_id (length (cells s)) (promises s)" and ?c = "break_replaced rpc_id s @ [Pending]"
  assume inv: "promises_inv s"
  have old: "c < length (cells s) \<and> cells s ! c = Pending"
    if "map_of (promises s) i = Some c" for i c using inv that by (auto simp: promises_inv_def)
  have "map_of ?m i = Some c \<Longrightarrow> c < length ?c \<and> ?c ! c = Pending" for i c
    using old [of i c] break_replaced_other [OF inv, of i c rpc_id]
    by (auto simp: hmap_simps nth_append split: if_splits)
  moreover have "map_of ?m i = Some c \<Longrightarrow> map_of ?m j = Some c \<Longrightarrow> i = j" for i j c
    using inv old [of i c] old [of j c] by (auto simp: hmap_simps promises_inv_def split: if_splits)
  ultimately show ?thesis
    using inv unfolding promises_inv_def rpc_call_promises by (metis distinct_hput)
qed

lemma promises_inv_settle:
  assumes "promises_inv s" "map_of (promises s) rpc_id = Some c"
  shows "promises_inv (s\<lparr>cells := (cells s)[c := p], promises := herase rpc_id (promises s)\<rparr>)"
  using assms unfolding promises_inv_def
  by (auto simp: hmap_simps nth_list_update split: if_splits)

lemma promises_inv_solve: "promises_inv s \<Longrightarrow> promises_inv (solve_promise rpc_id response s)"
  by (simp add: solve_promise_def promises_inv_settle split: option.splits)

lemma promises_inv_forget: "promises_inv s \<Longrightarrow> promises_inv (forget_promise rpc_id s)"
  by (simp add: forget_promise_def promises_inv_settle split: option.splits)

text \<open>A settled future keeps its value whatever is called or answered later.\<close>

lemma settled_solve:
  assumes "promises_inv s" "c < length (cells s)" "cells s ! c \<noteq> Pending"
  shows "cells (solve_promise rpc_id response s) ! c = cells s ! c"
proof (cases "map_of (promises s) rpc_id")
  case (Some c')
  with assms have "c' \<noteq> c" by (auto simp: promises_inv_def)
  with Some show ?thesis by (simp add: solve_promise_def)
qed (simp add: solve_promise_def)

section \<open>The callee stub\<close>

text \<open>
  The loop of \<open>_init_consumer\<close>: it subscribes until the broker accepts. \<open>accepts n\<close> is the
  outcome of the \<open>n\<close>-th attempt, the result the number of the attempt that succeeded.
\<close>

partial_function (option) init_consumer :: "(nat \<Rightarrow> bool) \<Rightarrow> nat \<Rightarrow> nat option" where
  "init_consumer accepts n = (if accepts n then Some n else init_consumer accepts (Suc n))"

declare init_consumer.simps [code]

text \<open>
  \<open>register_method\<close>: a name that is registered already keeps its delegate. The consumer of a
  new scope is subscribed when the call returns.
\<close>

definition register_method :: "string \<Rightarrow> string \<Rightarrow> 'd \<Rightarrow> ('d, 'm) rpc_scheme \<Rightarrow> ('d, 'm) rpc_scheme" where
  "register_method scope name d s =
     (case map_of (methods s) scope of
        Some ms \<Rightarrow>
          s\<lparr>methods := hput scope (if map_of ms name = None then hput name d ms else ms) (methods s)\<rparr>
      | None \<Rightarrow>
          s\<lparr>methods := hput scope [(name, d)] (methods s), consumers := consumers s @ [scope]\<rparr>)"

definition unregister_method :: "string \<Rightarrow> string \<Rightarrow> ('d, 'm) rpc_scheme \<Rightarrow> ('d, 'm) rpc_scheme" where
  "unregister_method scope name s = s\<lparr>methods := hmodify scope (herase name) (methods s)\<rparr>"

definition lookup_method :: "('d, 'm) rpc_scheme \<Rightarrow> string \<Rightarrow> string \<Rightarrow> 'd option" where
  "lookup_method s scope name =
     (case map_of (methods s) scope of None \<Rightarrow> None | Some ms \<Rightarrow> map_of ms name)"

lemma lookup_register:
  "lookup_method (register_method scope name d s) scope' name' =
     (if scope' = scope \<and> name' = name \<and> lookup_method s scope name = None then Some d
      else lookup_method s scope' name')"
  by (auto simp: lookup_method_def register_method_def hmap_simps split: option.splits)

lemma lookup_unregister:
  "lookup_method (unregister_method scope name s) scope' name' =
     (if scope' = scope \<and> name' = name then None else lookup_method s scope' name')"
  by (auto simp: lookup_method_def unregister_method_def hmap_simps split: option.splits)

text \<open>The result of a handler as \<open>_handle_call\<close> reports it: the response and the error flag.\<close>

fun handler_response :: "('s, json) outcome \<Rightarrow> json \<times> bool \<times> 's" where
  "handler_response (Ret v s) = (v, False, s)"
| "handler_response (Raise (OutOfRange m) s) = (JStr ''method not found'', True, s)"
| "handler_response (Raise e s) = (JStr (exn_what e), True, s)"

definition run_handler ::
  "world \<Rightarrow> ('d \<Rightarrow> json \<Rightarrow> ('d, 'm) rpc_scheme \<Rightarrow> (('d, 'm) rpc_scheme, json) outcome) \<Rightarrow>
   (string, 'd) hmap \<Rightarrow> rpc_request \<Rightarrow> ('d, 'm) rpc_scheme \<Rightarrow> json \<times> bool \<times> ('d, 'm) rpc_scheme" where
  "run_handler w exec ms req s =
     (case map_of ms (rq_name req) of
        None \<Rightarrow> (JStr ''method not found'', True, s)
      | Some d \<Rightarrow>
          (case jparse w (rq_args req) of
             None \<Rightarrow> (JStr (parse_error w (rq_args req)), True, s)
           | Some args \<Rightarrow> handler_response (exec d args s)))"

definition response_request :: "world \<Rightarrow> rpc_request \<Rightarrow> json \<Rightarrow> bool \<Rightarrow> rpc_request" where
  "response_request w req response err =
     new_request\<lparr>rq_error := err, rq_args := jdump w response, rq_name := rq_name req,
       rq_responds_to := rq_rpc_id req, rq_rpc_id := rq_rpc_id req\<rparr>"

definition handle_call ::
  "world \<Rightarrow> ('d \<Rightarrow> json \<Rightarrow> ('d, 'm) rpc_scheme \<Rightarrow> (('d, 'm) rpc_scheme, json) outcome) \<Rightarrow>
   string \<Rightarrow> rpc_request \<Rightarrow> ('d, 'm) rpc_scheme \<Rightarrow> ('d, 'm) rpc_scheme" where
  "handle_call w exec scope req s =
     (case map_of (methods s) scope of
        None \<Rightarrow> s
      | Some ms \<Rightarrow>
          (let (response, err, s1) = run_handler w exec ms req s
           in if rq_response_topic req = [] then s1
              else snd (callee_write w (rq_response_topic req) (response_request w req response err) s1)))"

definition handle_response :: "world \<Rightarrow> rpc_request \<Rightarrow> ('d, 'm) rpc_scheme \<Rightarrow> ('d, 'm) rpc_scheme" where
  "handle_response w req s =
     (if rq_error req then solve_promise (rq_responds_to req) JNull s
      else (case jparse w (rq_args req) of
              Some args \<Rightarrow> solve_promise (rq_responds_to req) args s
            | None \<Rightarrow> solve_promise (rq_responds_to req) JNull s))"

text \<open>
  \<open>try_handle_request\<close>: one request from a consumer of \<open>scope\<close>. The manager has the default
  capacity, so its undefined case does not arise; the request is dropped there.
\<close>

definition try_handle_request ::
  "world \<Rightarrow> ('d \<Rightarrow> json \<Rightarrow> ('d, 'm) rpc_scheme \<Rightarrow> (('d, 'm) rpc_scheme, json) outcome) \<Rightarrow>
   string \<Rightarrow> rpc_request \<Rightarrow> ('d, 'm) rpc_scheme \<Rightarrow> ('d, 'm) rpc_scheme" where
  "try_handle_request w exec scope req s =
     (case utm_run (rq_rpc_id req) (handled s) of
        None \<Rightarrow> s
      | Some (False, _) \<Rightarrow> s
      | Some (True, l) \<Rightarrow>
          (let s1 = s\<lparr>handled := l\<rparr>
           in if rq_responds_to req \<noteq> [] then handle_response w req s1
              else handle_call w exec scope req s1))"

text \<open>The ids the peer remembers having handled.\<close>

definition remembers :: "('d, 'm) rpc_scheme \<Rightarrow> string \<Rightarrow> bool" where
  "remembers s rpc_id \<longleftrightarrow> rpc_id \<in> set (recency (handled s))"

lemma try_handle_seen:
  "lru_inv (handled s) \<Longrightarrow> remembers s (rq_rpc_id req) \<Longrightarrow> try_handle_request w exec scope req s = s"
  by (simp add: try_handle_request_def remembers_def utm_run_known)

lemma try_handle_new:
  assumes "lru_inv (handled s)" "\<not> remembers s (rq_rpc_id req)"
  shows "\<exists>l. lru_inv l \<and> rq_rpc_id req \<in> set (recency l) \<and>
    recency l = take (lru_capacity (handled s)) (rq_rpc_id req # recency (handled s)) \<and>
    try_handle_request w exec scope req s =
      (if rq_responds_to req \<noteq> [] then handle_response w req (s\<lparr>handled := l\<rparr>)
       else handle_call w exec scope req (s\<lparr>handled := l\<rparr>))"
proof -
  obtain l where "utm_run (rq_rpc_id req) (handled s) = Some (True, l)" "lru_inv l"
    "recency l = take (lru_capacity (handled s)) (rq_rpc_id req # recency (handled s))"
    using utm_run_new assms by (metis remembers_def)
  moreover have "0 < lru_capacity (handled s)" using assms(1) by (simp add: lru_inv_def)
  ultimately show ?thesis by (auto simp: try_handle_request_def take_Cons')
qed

lemma handle_response_handled [simp]: "handled (handle_response w req s) = handled s"
  by (simp add: handle_response_def solve_promise_def split: option.splits)

section \<open>The call builder\<close>

text \<open>
  What a failed call does with its exception: the five handlers of \<open>FailHandlingPolicy\<close>, and the
  default of the options of a call stub, which logs the name of the method.
\<close>

datatype fail_policy = FailDo nat | FailLogError | FailIgnore | FailThrow | FailThrowIf bool | FailDefault string

fun run_fail_policy :: "fail_policy \<Rightarrow> exn \<Rightarrow> ('d, 'm) rpc_scheme \<Rightarrow> (('d, 'm) rpc_scheme, unit) outcome" where
  "run_fail_policy (FailDo h) e s = Ret () (s\<lparr>fail_calls := fail_calls s @ [(h, e)]\<rparr>)"
| "run_fail_policy FailLogError e s = Ret () (log_error (''Remote call failed: '' @ exn_what e) s)"
| "run_fail_policy FailIgnore e s = Ret () s"
| "run_fail_policy FailThrow e s = Raise e s"
| "run_fail_policy (FailThrowIf b) e s = (if b then Raise e s else Ret () s)"
| "run_fail_policy (FailDefault name) e s = Ret () (log_error (''RPC failed : '' @ name) s)"

record fail_handling = fh_scope :: string fh_multi :: bool

record timeout_policy = tp_scope :: string tp_multi :: bool tp_fail :: fail_policy

record retry_policy = rt_scope :: string rt_timeout :: int rt_multi :: bool rt_fail :: fail_policy

record call_object =
  co_scope :: string
  co_timeout :: int
  co_retry :: int
  co_fail :: fail_policy
  co_multi :: bool

definition builder_for :: "string \<times> bool \<Rightarrow> fail_handling" where
  "builder_for sm = \<lparr>fh_scope = fst sm, fh_multi = snd sm\<rparr>"

definition on_fail :: "fail_policy \<Rightarrow> fail_handling \<Rightarrow> timeout_policy" where
  "on_fail p f = \<lparr>tp_scope = fh_scope f, tp_multi = fh_multi f, tp_fail = p\<rparr>"

definition with_timeout :: "int \<Rightarrow> timeout_policy \<Rightarrow> retry_policy" where
  "with_timeout ms t = \<lparr>rt_scope = tp_scope t, rt_timeout = ms, rt_multi = tp_multi t, rt_fail = tp_fail t\<rparr>"

definition retry :: "int \<Rightarrow> retry_policy \<Rightarrow> call_object" where
  "retry n r =
     \<lparr>co_scope = rt_scope r, co_timeout = rt_timeout r, co_retry = n, co_fail = rt_fail r, co_multi = rt_multi r\<rparr>"

lemmas builder_defs = builder_for_def on_fail_def with_timeout_def retry_def

text \<open>\<open>fire_and_forget\<close> of a builder: the failure handler runs on the returned exception.\<close>

definition builder_fire ::
  "world \<Rightarrow> timeout_policy \<Rightarrow> string \<Rightarrow> json list \<Rightarrow> ('d, 'm) rpc_scheme \<Rightarrow> (('d, 'm) rpc_scheme, unit) outcome" where
  "builder_fire w t name args s =
     (let (err, s1) = fire_and_forget w (tp_scope t) name args s
      in case err of None \<Rightarrow> Ret () s1 | Some e \<Rightarrow> run_fail_policy (tp_fail t) e s1)"

text \<open>
  A blocking call. \<open>env i\<close> is what the other threads of the peer do while attempt \<open>i\<close> waits for
  its future; \<open>de\<close> is the conversion of the response to the return type. A call without
  timeout whose future is never settled does not return: \<open>Hang\<close>.
\<close>

datatype 'r call_result = Got 'r | NoValue | Hang

datatype 'r awaited = Done 'r | Failed exn | Thrown exn | Blocked

definition await :: "world \<Rightarrow> (json \<Rightarrow> exn + 'r) \<Rightarrow> string \<Rightarrow> int \<Rightarrow> promise \<Rightarrow> 'r awaited" where
  "await w de name timeout p =
     (case p of
        Pending \<Rightarrow> (if timeout > 0 then Failed (CRPCTimeout (name @ '' timed out'')) else Blocked)
      | Broken e \<Rightarrow> Thrown e
      | Fulfilled j \<Rightarrow>
          (if is_null j then Failed (RuntimeError (''Remote error in '' @ name))
           else (case jparse w (jdump w j) of
                   None \<Rightarrow> Failed StdException
                 | Some j' \<Rightarrow> (case de j' of Inl e \<Rightarrow> Failed StdException | Inr r \<Rightarrow> Done r))))"

function call_impl ::
  "world \<Rightarrow> (nat \<Rightarrow> ('d, 'm) rpc_scheme \<Rightarrow> ('d, 'm) rpc_scheme) \<Rightarrow> (json \<Rightarrow> exn + 'r) \<Rightarrow> string \<Rightarrow>
   nat \<Rightarrow> call_object \<Rightarrow> string \<Rightarrow> json list \<Rightarrow> ('d, 'm) rpc_scheme \<Rightarrow> (('d, 'm) rpc_scheme, 'r call_result) outcome" where
  "call_impl w env de name i co uuid args s =
     (if co_multi co then Raise (LogicError ''Cannot call get() on a call to multiple peers'') s
      else
        (let (cell, s1) = rpc_call w (co_scope co) name uuid args s;
             s2 = env i s1
         in case await w de name (co_timeout co) (cells s2 ! cell) of
              Done r \<Rightarrow> Ret (Got r) s2
            | Blocked \<Rightarrow> Ret Hang s2
            | Thrown e \<Rightarrow> Raise e s2
            | Failed e \<Rightarrow>
                if co_retry co > 0 then
                  call_impl w env de name (Suc i) (co\<lparr>co_retry := co_retry co - 1\<rparr>) uuid args s2
                else obind (run_fail_policy (co_fail co) e s2) (\<lambda>_. Ret NoValue)))"
  by pat_completeness auto
termination
  by (relation "measure (\<lambda>(w, env, de, name, i, co, uuid, args, s). nat (co_retry co))") auto

declare call_impl.simps [simp del]

lemmas call_impl_unfold = call_impl.simps [of w env de name i co uuid args s] for w env de name i co uuid args s

text \<open>One attempt: the future's cell after the wait decides.\<close>

abbreviation after_wait :: "world \<Rightarrow> (nat \<Rightarrow> ('d, 'm) rpc_scheme \<Rightarrow> ('d, 'm) rpc_scheme) \<Rightarrow> string \<Rightarrow> nat \<Rightarrow>
   call_object \<Rightarrow> string \<Rightarrow> json list \<Rightarrow> ('d, 'm) rpc_scheme \<Rightarrow> ('d, 'm) rpc_scheme" where
  "after_wait w env name i co uuid args s \<equiv> env i (snd (rpc_call w (co_scope co) name uuid args s))"

abbreviation awaited_cell :: "world \<Rightarrow> (nat \<Rightarrow> ('d, 'm) rpc_scheme \<Rightarrow> ('d, 'm) rpc_scheme) \<Rightarrow> string \<Rightarrow> nat \<Rightarrow>
   call_object \<Rightarrow> string \<Rightarrow> json list \<Rightarrow> ('d, 'm) rpc_scheme \<Rightarrow> promise" where
  "awaited_cell w env name i co uuid args s \<equiv>
     cells (after_wait w env name i co uuid args s) ! fst (rpc_call w (co_scope co) name uuid args s)"

lemma call_impl_attempt:
  assumes "\<not> co_multi co"
  shows "await w de name (co_timeout co) (awaited_cell w env name i co uuid args s) = Done r \<Longrightarrow>
      call_impl w env de name i co uuid args s = Ret (Got r) (after_wait w env name i co uuid args s)"
    and "await w de name (co_timeout co) (awaited_cell w env name i co uuid args s) = Blocked \<Longrightarrow>
      call_impl w env de name i co uuid args s = Ret Hang (after_wait w env name i co uuid args s)"
    and "await w de name (co_timeout co) (awaited_cell w env name i co uuid args s) = Thrown e \<Longrightarrow>
      call_impl w env de name i co uuid args s = Raise e (after_wait w env name i co uuid args s)"
    and "await w de name (co_timeout co) (awaited_cell w env name i co uuid args s) = Failed e \<Longrightarrow>
      call_impl w env de name i co uuid args s =
        (if co_retry co > 0
         then call_impl w env de name (Suc i) (co\<lparr>co_retry := co_retry co - 1\<rparr>) uuid args
                (after_wait w env name i co uuid args s)
         else obind (run_fail_policy (co_fail co) e (after_wait w env name i co uuid args s)) (\<lambda>_. Ret NoValue))"
  by (subst call_impl_unfold, simp add: assms Let_def case_prod_unfold)+

text \<open>\<open>call\<close> draws the id of the call; \<open>call_async\<close> runs the same and hands a value to its callback.\<close>

definition builder_call ::
  "world \<Rightarrow> (nat \<Rightarrow> ('d, 'm) rpc_scheme \<Rightarrow> ('d, 'm) rpc_scheme) \<Rightarrow> (json \<Rightarrow> exn + 'r) \<Rightarrow> string \<Rightarrow>
   call_object \<Rightarrow> json list \<Rightarrow> ('d, 'm) rpc_scheme \<Rightarrow> (('d, 'm) rpc_scheme, 'r call_result) outcome" where
  "builder_call w env de name co args s =
     (let (uuid, s1) = GenUUID w s in call_impl w env de name 0 co uuid args s1)"

definition run_async_call ::
  "world \<Rightarrow> (nat \<Rightarrow> ('d, 'm) rpc_scheme \<Rightarrow> ('d, 'm) rpc_scheme) \<Rightarrow> (json \<Rightarrow> exn + 'r) \<Rightarrow> string \<Rightarrow>
   call_object \<Rightarrow> ('r \<Rightarrow> ('d, 'm) rpc_scheme \<Rightarrow> (('d, 'm) rpc_scheme, unit) outcome) \<Rightarrow> json list \<Rightarrow>
   ('d, 'm) rpc_scheme \<Rightarrow> (('d, 'm) rpc_scheme, unit) outcome" where
  "run_async_call w env de name co callback args s =
     obind (builder_call w env de name co args s)
       (\<lambda>r s1. case r of Got x \<Rightarrow> callback x s1 | _ \<Rightarrow> Ret () s1)"

text \<open>A message without answer, sent when the broker accepts it.\<close>

definition fired_request :: "world \<Rightarrow> nat \<Rightarrow> string \<Rightarrow> json list \<Rightarrow> rpc_request" where
  "fired_request w n name args =
     new_request\<lparr>rq_name := name, rq_args := jdump w (serialize_args args), rq_rpc_id := gen_uuid w n\<rparr>"

lemma fire_effect:
  assumes "producer_ok w (tp_scope t)" "\<And>a. serial_ok w a"
  shows "\<exists>s'. builder_fire w t name args s = Ret () s' \<and>
    wire s' = wire s @ [(tp_scope t, fired_request w (uuid_reads s) name args)] \<and>
    uuid_reads s' = Suc (uuid_reads s) \<and> methods s' = methods s \<and> handled s' = handled s \<and>
    topic_scope s' = topic_scope s \<and> peer_uuid s' = peer_uuid s \<and> errors s' = errors s \<and> rpc.more s' = rpc.more s"
proof -
  let ?r = "fired_request w (uuid_reads s) name args" and ?s = "snd (GenUUID w s)"
  have "fst (caller_write w (tp_scope t) ?r ?s) \<and> wire (snd (caller_write w (tp_scope t) ?r ?s)) = wire ?s @ [(tp_scope t, ?r)]"
    by (rule caller_write_wire) (simp_all add: assms)
  moreover have "fire_and_forget w (tp_scope t) name args s =
      (if fst (caller_write w (tp_scope t) ?r ?s) then None else Some (RuntimeError (''Failed to write to topic '' @ tp_scope t)),
       snd (caller_write w (tp_scope t) ?r ?s))"
    by (simp add: fire_and_forget_def fired_request_def GenUUID_def case_prod_unfold Let_def new_request_def)
  ultimately show ?thesis
    by (simp add: builder_fire_def) (simp add: GenUUID_def)
qed

section \<open>Calls between peers\<close>

definition call_request :: "world \<Rightarrow> ('d, 'm) rpc_scheme \<Rightarrow> string \<Rightarrow> string \<Rightarrow> json list \<Rightarrow> rpc_request" where
  "call_request w s name rpc_id args =
     new_request\<lparr>rq_name := name, rq_args := jdump w (serialize_args args),
       rq_response_topic := own_topic s, rq_rpc_id := rpc_id\<rparr>"

lemma rpc_call_wire:
  assumes "producer_ok w scope" "serial_ok w (jdump w (serialize_args args))"
  shows "wire (snd (rpc_call w scope name rpc_id args s)) =
    wire s @ [(scope, call_request w s name rpc_id args)]"
  using assms by (simp add: rpc_call_def call_request_def Let_def caller_write_wire own_topic_def)

lemma rpc_call_frame [simp]:
  "methods (snd (rpc_call w scope name rpc_id args s)) = methods s"
  "handled (snd (rpc_call w scope name rpc_id args s)) = handled s"
  "topic_scope (snd (rpc_call w scope name rpc_id args s)) = topic_scope s"
  "peer_uuid (snd (rpc_call w scope name rpc_id args s)) = peer_uuid s"
  "rpc.more (snd (rpc_call w scope name rpc_id args s)) = rpc.more s"
  by (simp_all add: rpc_call_def Let_def)

text \<open>A handler that returns \<open>v\<close> and sends nothing itself is answered with \<open>v\<close>.\<close>

lemma handle_call_answer:
  assumes "lookup_method s scope (rq_name req) = Some d" "jparse w (rq_args req) = Some args"
    and "handler_response (exec d args s) = (v, err, s')" "wire s' = wire s"
    and "rq_response_topic req \<noteq> []"
    and "producer_ok w (rq_response_topic req)" "serial_ok w (jdump w v)"
  shows "wire (handle_call w exec scope req s) =
    wire s @ [(rq_response_topic req, response_request w req v err)]"
  using assms
  by (auto simp: handle_call_def lookup_method_def run_handler_def response_request_def callee_write_wire
      split: option.splits)

text \<open>\<open>_init_consumer\<close> returns exactly if the broker accepts one of the attempts from the current
  one on; with a broker that keeps refusing, registering the first method of a scope never
  returns.\<close>
lemma init_consumer_returns:
  "(\<exists>k. init_consumer accepts n = Some k) \<longleftrightarrow> (\<exists>k. n \<le> k \<and> accepts k)"
proof
  assume "\<exists>k. init_consumer accepts n = Some k"
  then obtain k where ret: "init_consumer accepts n = Some k" by blast
  show "\<exists>k. n \<le> k \<and> accepts k"
  proof (rule init_consumer.raw_induct [where P = "\<lambda>accepts n k. \<exists>k. n \<le> k \<and> accepts k", OF _ ret])
    fix f :: "(nat \<Rightarrow> bool) \<Rightarrow> nat \<Rightarrow> nat option" and acc n r
    assume IH: "\<And>acc n r. f acc n = Some r \<Longrightarrow> \<exists>k. n \<le> k \<and> acc k"
      and eq: "(if acc n then Some n else f acc (Suc n)) = Some r"
    show "\<exists>k. n \<le> k \<and> acc k"
      using eq IH [of acc "Suc n" r] by (cases "acc n") (auto dest: Suc_leD)
  qed
next
  assume "\<exists>k. n \<le> k \<and> accepts k"
  then obtain k where "n \<le> k" "accepts k" by blast
  then show "\<exists>k. init_consumer accepts n = Some k"
  proof (induction "k - n" arbitrary: n)
    case 0
    then have "n = k" by simp
    with 0 show ?case by (simp add: init_consumer.simps)
  next
    case (Suc d)
    then have "d = k - Suc n" "Suc n \<le> k" by simp_all
    with Suc.hyps(1) [of "Suc n"] Suc.prems(2) show ?case
      by (subst init_consumer.simps) simp
  qed
qed

text \<open>A future is settled at most once: under the invariant of the promise map, a settled cell
  keeps its value whatever response arrives, promise is forgotten or call is made.\<close>
lemma future_settles_once:
  assumes "promises_inv s" and "c < length (cells s)" and "cells s ! c \<noteq> Pending"
  shows "cells (solve_promise rpc_id response s) ! c = cells s ! c \<and>
    cells (forget_promise rpc_id s) ! c = cells s ! c \<and>
    cells (snd (rpc_call w scope name rpc_id args s)) ! c = cells s ! c"
proof -
  have "map_of (promises s) rpc_id = Some c' \<Longrightarrow> c' \<noteq> c" for c'
    using assms by (auto simp: promises_inv_def)
  then have "cells (forget_promise rpc_id s) ! c = cells s ! c"
    by (auto simp: forget_promise_def split: option.splits)
  with settled_solve [OF assms] break_replaced_settled [OF assms(1,3)] assms(2) show ?thesis
    by (simp add: rpc_call_promises nth_append)
qed

text \<open>A peer with nothing registered, and its initial invariants.\<close>

definition new_rpc :: "string \<Rightarrow> string \<Rightarrow> 'd rpc" where
  "new_rpc scope uuid =
     \<lparr>topic_scope = scope, peer_uuid = uuid, methods = [], consumers = [], handled = new_utm,
      callee_pool = [], promises = [], cells = [], caller_pool = [], wire = [],
      sys_reads = 0, uuid_reads = 0, errors = [], fail_calls = []\<rparr>"

lemma new_rpc_inv [simp]: "promises_inv (new_rpc scope uuid)" "lru_inv (handled (new_rpc scope uuid))"
  by (simp_all add: promises_inv_def new_rpc_def new_utm_def default_capacity_def)

lemma future_settles_once_witness:
  "cells (solve_promise ''id'' JNull
     (solve_promise ''id'' (JBool True) (snd (rpc_call demo_world ''t'' ''m'' ''id'' [] (new_rpc ''s'' ''u'' :: nat rpc))))) ! 0
   = Fulfilled (JBool True)"
proof -
  let ?s = "solve_promise ''id'' (JBool True) (snd (rpc_call demo_world ''t'' ''m'' ''id'' [] (new_rpc ''s'' ''u'' :: nat rpc)))"
  have cells: "cells ?s = [Fulfilled (JBool True)]"
    by (simp add: solve_promise_def rpc_call_promises break_replaced_def new_rpc_def)
  have "promises_inv ?s" by (intro promises_inv_solve promises_inv_call) simp
  from future_settles_once [OF this, of 0 "''id''" JNull] cells show ?thesis by simp
qed

text \<open>C14: A call between two peers completes: when the callee has registered the method on the scope
  of the call, remembers no request of this id and its handler returns \<open>v\<close>, the callee sends
  one response, and that response settles the caller's future with \<open>v\<close>.\<close>
theorem call_answered:
  fixes p :: "('d, 'm) rpc_scheme" and q :: "('e, 'n) rpc_scheme"
  assumes "lru_inv (handled p)" "lru_inv (handled q)" "\<not> remembers p rpc_id" "\<not> remembers q rpc_id"
    and "rpc_id \<noteq> []" "own_topic p \<noteq> []"
    and "lookup_method q scope name = Some d"
    and "\<And>s. exec d (serialize_args args) s = Ret v s"
    and "jparse w (jdump w (serialize_args args)) = Some (serialize_args args)"
    and "jparse w (jdump w v) = Some v"
    and "producer_ok w (own_topic p)" "serial_ok w (jdump w v)"
  shows "\<exists>resp. wire (try_handle_request w exec scope (call_request w p name rpc_id args) q) =
        wire q @ [(own_topic p, resp)] \<and>
      cells (try_handle_request w exec' (own_topic p) resp (snd (rpc_call w scope name rpc_id args p)))
        ! fst (rpc_call w scope name rpc_id args p) = Fulfilled v"
proof (intro exI conjI)
  let ?req = "call_request w p name rpc_id args" and ?resp = "response_request w (call_request w p name rpc_id args) v False"
  let ?p = "snd (rpc_call w scope name rpc_id args p)"
  obtain l where "try_handle_request w exec scope ?req q = handle_call w exec scope ?req (q\<lparr>handled := l\<rparr>)"
    using try_handle_new [OF assms(2), of ?req w exec scope] assms(4)
    by (auto simp: call_request_def new_request_def)
  then show "wire (try_handle_request w exec scope ?req q) = wire q @ [(own_topic p, ?resp)]"
    using handle_call_answer [of "q\<lparr>handled := l\<rparr>" scope ?req d w "serialize_args args" exec v False "q\<lparr>handled := l\<rparr>"] assms
    by (simp add: call_request_def new_request_def lookup_method_def)
  have "\<not> remembers ?p rpc_id" using assms(3) by (simp add: remembers_def)
  then obtain l' where "try_handle_request w exec' (own_topic p) ?resp ?p = handle_response w ?resp (?p\<lparr>handled := l'\<rparr>)"
    using try_handle_new [of ?p ?resp w exec' "own_topic p"] assms(1,5)
    by (auto simp: response_request_def call_request_def new_request_def)
  then show "cells (try_handle_request w exec' (own_topic p) ?resp ?p) ! fst (rpc_call w scope name rpc_id args p) = Fulfilled v"
    using assms(10)
    by (simp add: handle_response_def response_request_def call_request_def new_request_def
        solve_promise_def rpc_call_promises hmap_simps)
qed

theorem call_answered_witness:
  "\<exists>resp. cells (try_handle_request demo_world (\<lambda>(d :: nat) a s. Ret a s) ''s/caller'' resp
      (snd (rpc_call demo_world ''s/x'' ''ping'' ''id1'' [] (new_rpc ''s/'' ''caller'' :: nat rpc)))) ! 0
    = Fulfilled (JStr ''pong'')"
proof -
  let ?p = "new_rpc ''s/'' ''caller'' :: nat rpc"
  let ?q = "register_method ''s/x'' ''ping'' (7 :: nat) (new_rpc ''s/'' ''callee'')"
  have fresh: "\<not> remembers ?p ''id1''" "\<not> remembers ?q ''id1''" "lru_inv (handled ?q)"
    by (simp_all add: remembers_def register_method_def new_rpc_def new_utm_def default_capacity_def)
  have found: "lookup_method ?q ''s/x'' ''ping'' = Some 7"
    by (simp add: lookup_register) (simp add: lookup_method_def new_rpc_def)
  have topic: "own_topic ?p = ''s/caller''" by (simp add: own_topic_def new_rpc_def)
  have cell: "fst (rpc_call demo_world ''s/x'' ''ping'' ''id1'' [] ?p) = 0"
    by (simp add: rpc_call_promises) (simp add: new_rpc_def)
  show ?thesis
    using call_answered [where p = ?p and q = ?q and rpc_id = "''id1''" and scope = "''s/x''" and name = "''ping''"
        and args = "[]" and v = "JStr ''pong''" and w = demo_world and exec = "\<lambda>d a s. Ret (JStr ''pong'') s"
        and d = 7 and exec' = "\<lambda>(d :: nat) a s. Ret a s"]
    unfolding topic cell
    using fresh found by (simp add: demo_world_def serialize_args_def) blast
qed

section \<open>Retries\<close>

text \<open>The requests of one call id among the messages a peer has sent.\<close>

definition requests :: "string \<Rightarrow> ('d, 'm) rpc_scheme \<Rightarrow> (string \<times> rpc_request) list" where
  "requests uuid s = filter (\<lambda>m. rq_rpc_id (snd m) = uuid \<and> rq_responds_to (snd m) = []) (wire s)"

lemma requests_policy:
  "run_fail_policy p e s = Ret u s' \<Longrightarrow> requests uuid s' = requests uuid s"
  "run_fail_policy p e s = Raise e' s' \<Longrightarrow> requests uuid s' = requests uuid s"
  by (cases p; auto simp: requests_def log_error_def split: if_splits)+

lemma requests_call:
  assumes "producer_ok w scope" "serial_ok w (jdump w (serialize_args args))"
  shows "requests uuid (snd (rpc_call w scope name uuid args s)) =
    requests uuid s @ [(scope, call_request w s name uuid args)]"
  using rpc_call_wire [OF assms, of name uuid s] by (simp add: requests_def call_request_def new_request_def)

lemma call_attempts_bounded:
  assumes "\<And>i s. requests uuid (env i s) = requests uuid s \<and> own_topic (env i s) = own_topic s"
    and "producer_ok w (co_scope co)" "serial_ok w (jdump w (serialize_args args))" "\<not> co_multi co"
  shows "\<exists>k. k \<le> nat (co_retry co) \<and>
      requests uuid (ostate (call_impl w env de name i co uuid args s)) =
        requests uuid s @ replicate (Suc k) (co_scope co, call_request w s name uuid args) \<and>
      (\<forall>s'. call_impl w env de name i co uuid args s = Ret NoValue s' \<longrightarrow> k = nat (co_retry co))"
  using assms(2-4)
proof (induction "nat (co_retry co)" arbitrary: co i s)
  case *: (0 co i s)
  let ?s2 = "after_wait w env name i co uuid args s"
  have one: "requests uuid ?s2 = requests uuid s @ [(co_scope co, call_request w s name uuid args)]"
    using assms(1) requests_call [OF *(2,3)] by metis
  have "requests uuid (ostate (call_impl w env de name i co uuid args s)) = requests uuid ?s2"
    using *(1) call_impl_attempt [OF *(4), of w de name env i uuid args s]
    by (cases "await w de name (co_timeout co) (awaited_cell w env name i co uuid args s)")
      (auto simp: ostate_obind split: outcome.splits dest: requests_policy [where uuid = uuid])
  then show ?case using one *(1) by simp
next
  case *: (Suc n co i s)
  let ?co = "co\<lparr>co_retry := co_retry co - 1\<rparr>"
  let ?s2 = "after_wait w env name i co uuid args s"
  have one: "requests uuid ?s2 = requests uuid s @ [(co_scope co, call_request w s name uuid args)]"
    using assms(1) requests_call [OF *(3,4)] by metis
  have same: "call_request w ?s2 name uuid args = call_request w s name uuid args"
    using assms(1) [of i "snd (rpc_call w (co_scope co) name uuid args s)"]
    by (simp add: call_request_def own_topic_def)
  have more: "co_retry co > 0" and n: "n = nat (co_retry ?co)" using *(2) by auto
  show ?case
  proof (cases "await w de name (co_timeout co) (awaited_cell w env name i co uuid args s)")
    case (Failed e)
    from *(1) [OF n, of "Suc i" ?s2] *(3-5) obtain k where
      "k \<le> nat (co_retry ?co)"
      "requests uuid (ostate (call_impl w env de name (Suc i) ?co uuid args ?s2)) =
        requests uuid ?s2 @ replicate (Suc k) (co_scope co, call_request w ?s2 name uuid args)"
      "\<forall>s'. call_impl w env de name (Suc i) ?co uuid args ?s2 = Ret NoValue s' \<longrightarrow> k = nat (co_retry ?co)"
      by auto
    then show ?thesis
      using one same more *(2) n call_impl_attempt(4) [where w=w and env=env and de=de and name=name and i=i and uuid=uuid and args=args and s=s and e=e, OF *(5) Failed]
      by (intro exI [of _ "Suc k"]) (auto simp flip: n)
  qed (use one call_impl_attempt [OF *(5), of w de name env i uuid args s] in \<open>auto intro!: exI [of _ 0]\<close>)
qed

text \<open>C32: A blocking call sends its request at most \<open>retry + 1\<close> times, always with the same id, scope
  and arguments, and a call that gives up without a value has used all its attempts.\<close>
theorem call_attempts:
  assumes "\<And>i s. requests uuid (env i s) = requests uuid s \<and> own_topic (env i s) = own_topic s"
    and "producer_ok w (co_scope co)" "serial_ok w (jdump w (serialize_args args))" "\<not> co_multi co"
  shows "\<exists>k. k \<le> nat (co_retry co) \<and>
      requests uuid (ostate (call_impl w env de name i co uuid args s)) =
        requests uuid s @ replicate (Suc k) (co_scope co, call_request w s name uuid args) \<and>
      (\<forall>s'. call_impl w env de name i co uuid args s = Ret NoValue s' \<longrightarrow> k = nat (co_retry co))"
  using assms by (rule call_attempts_bounded)

definition ping_call :: "int \<Rightarrow> call_object" where
  "ping_call n = retry n (with_timeout 1000 (on_fail FailThrow (builder_for (on_peer ''s/'' ''callee''))))"

lemma ping_call_fields [simp]:
  "co_scope (ping_call n) = ''s/callee''" "co_timeout (ping_call n) = 1000" "co_retry (ping_call n) = n"
  "co_fail (ping_call n) = FailThrow" "co_multi (ping_call n) = False"
  by (simp_all add: ping_call_def builder_defs on_peer_def tp_peer_def)

theorem call_attempts_witness:
  "\<exists>k. k \<le> 2 \<and>
      requests ''id1'' (ostate (call_impl demo_world (\<lambda>_ s. s) (\<lambda>j. Inr j) ''ping'' 0 (ping_call 2) ''id1'' []
        (new_rpc ''s/'' ''caller'' :: nat rpc))) =
      replicate (Suc k) (''s/callee'', call_request demo_world (new_rpc ''s/'' ''caller'' :: nat rpc) ''ping'' ''id1'' [])"
proof -
  let ?p = "new_rpc ''s/'' ''caller'' :: nat rpc"
  have "requests ''id1'' ?p = []" by (simp add: requests_def new_rpc_def)
  then show ?thesis
    using call_attempts [where w = demo_world and env = "\<lambda>_ s. s" and co = "ping_call 2" and s = ?p
        and uuid = "''id1''" and args = "[]" and name = "''ping''" and de = "\<lambda>j. Inr j" and i = 0]
    by auto
qed

text \<open>
  A caller whose \<open>rpc.more\<close> is the peer it calls: while the caller waits, the broker delivers
  its last message to that peer, and every message the peer sends back to the caller.
\<close>

definition exchange ::
  "world \<Rightarrow> ('e \<Rightarrow> json \<Rightarrow> 'e rpc \<Rightarrow> ('e rpc, json) outcome) \<Rightarrow>
   ('d \<Rightarrow> json \<Rightarrow> ('d, 'e rpc) rpc_scheme \<Rightarrow> (('d, 'e rpc) rpc_scheme, json) outcome) \<Rightarrow>
   ('d, 'e rpc) rpc_scheme \<Rightarrow> ('d, 'e rpc) rpc_scheme" where
  "exchange w exec exec' s =
     (let q = rpc.more s;
          q' = try_handle_request w exec (fst (last (wire s))) (snd (last (wire s))) q
      in fold (\<lambda>m. try_handle_request w exec' (fst m) (snd m)) (drop (length (wire q)) (wire q'))
           (rpc.more_update (\<lambda>_. q') s))"

lemma rpc_call_last:
  assumes "producer_ok w scope" "serial_ok w (jdump w (serialize_args args))"
  shows "last (wire (snd (rpc_call w scope name uuid args s))) = (scope, call_request w s name uuid args)"
  by (simp add: rpc_call_wire [OF assms])

lemma call_request_fields [simp]:
  "rq_rpc_id (call_request w s name uuid args) = uuid"
  "rq_name (call_request w s name uuid args) = name"
  "rq_responds_to (call_request w s name uuid args) = []"
  "rq_response_topic (call_request w s name uuid args) = own_topic s"
  "rq_args (call_request w s name uuid args) = jdump w (serialize_args args)"
  by (simp_all add: call_request_def new_request_def)

lemma rpc_more_simps [simp]:
  "rpc.more (rpc.more_update f s) = f (rpc.more s)"
  "cells (rpc.more_update f s) = cells s" "handled (rpc.more_update f s) = handled s"
  "wire (rpc.more_update f s) = wire s" "promises (rpc.more_update f s) = promises s"
  "rpc.more (s\<lparr>handled := l\<rparr>) = rpc.more s"
  by (cases s; simp)+

text \<open>A request of an id that the callee remembers is answered by nothing, so every attempt times out.\<close>

lemma ignored_attempts:
  assumes "producer_ok w (co_scope co)" "serial_ok w (jdump w (serialize_args args))" "\<not> co_multi co"
    and "0 < co_timeout co" "co_fail co = FailThrow"
    and "lru_inv (handled (rpc.more s))" "remembers (rpc.more s) uuid"
  shows "\<exists>s'. call_impl w (\<lambda>_. exchange w exec exec') de name i co uuid args s =
      Raise (CRPCTimeout (name @ '' timed out'')) s' \<and> rpc.more s' = rpc.more s"
  using assms
proof (induction "nat (co_retry co)" arbitrary: co i s rule: less_induct)
  case less
  let ?env = "\<lambda>_. exchange w exec exec'"
  let ?s1 = "snd (rpc_call w (co_scope co) name uuid args s)"
  have "try_handle_request w exec (co_scope co) (call_request w s name uuid args) (rpc.more s) = rpc.more s"
    using less.prems by (intro try_handle_seen) simp_all
  then have env: "exchange w exec exec' ?s1 = rpc.more_update (\<lambda>_. rpc.more s) ?s1"
    by (simp add: exchange_def rpc_call_last [OF less.prems(1,2)])
  then have aw: "await w de name (co_timeout co) (awaited_cell w ?env name i co uuid args s) =
      Failed (CRPCTimeout (name @ '' timed out''))"
    using less.prems(4) by (simp add: await_def rpc_call_promises nth_append)
  have more: "rpc.more (after_wait w ?env name i co uuid args s) = rpc.more s" using env by simp
  note step = call_impl_attempt(4) [where env = ?env and co = co, OF less.prems(3) aw]
  show ?case
  proof (cases "co_retry co > 0")
    case True
    then show ?thesis
      using less.hyps [of "co\<lparr>co_retry := co_retry co - 1\<rparr>" "after_wait w ?env name i co uuid args s" "Suc i"]
        less.prems step more by simp
  next
    case False
    then show ?thesis using step more less.prems(5) by simp
  qed
qed


lemma wire_solve_promise [simp]: "wire (solve_promise i r s) = wire s" "rpc.more (solve_promise i r s) = rpc.more s"
  by (simp_all add: solve_promise_def split: option.splits)

lemma wire_handle_response [simp]:
  "wire (handle_response w req s) = wire s" "rpc.more (handle_response w req s) = rpc.more s"
  by (simp_all add: handle_response_def split: option.splits)

text \<open>C27: A handler that throws is not run again by a retry: the callee answers the first attempt with an
  error and ignores the following ones, which carry the same id, and the caller, whose own
  filter would drop a second answer as well, reports a timeout after the last attempt. The
  failure it reports is never the error of the handler.\<close>
theorem retries_end_in_timeout:
  fixes p :: "('d, 'e rpc) rpc_scheme"
  assumes "lru_inv (handled p)" "lru_inv (handled (rpc.more p))"
    and "\<not> remembers p uuid" "\<not> remembers (rpc.more p) uuid" "uuid \<noteq> []" "own_topic p \<noteq> []"
    and "lookup_method (rpc.more p) (co_scope co) name = Some d"
    and "\<And>s. exec d (serialize_args args) s = Raise e s"
    and "jparse w (jdump w (serialize_args args)) = Some (serialize_args args)"
    and "\<And>t. producer_ok w t" "\<And>a. serial_ok w a"
    and "0 < co_timeout co" "0 < co_retry co" "co_fail co = FailThrow" "\<not> co_multi co"
  shows "\<exists>p'. call_impl w (\<lambda>_. exchange w exec exec') de name i co uuid args p =
      Raise (CRPCTimeout (name @ '' timed out'')) p' \<and>
    length (wire (rpc.more p')) = Suc (length (wire (rpc.more p)))"
proof -
  let ?env = "\<lambda>_. exchange w exec exec'" and ?q = "rpc.more p"
  let ?req = "call_request w p name uuid args" and ?p1 = "snd (rpc_call w (co_scope co) name uuid args p)"
  obtain v where v: "\<And>s :: 'e rpc. handler_response (Raise e s) = (v, True, s)"
    by (cases e) auto
  let ?resp = "response_request w ?req v True"
  obtain l where l: "lru_inv l" "uuid \<in> set (recency l)"
    "try_handle_request w exec (co_scope co) ?req ?q = handle_call w exec (co_scope co) ?req (?q\<lparr>handled := l\<rparr>)"
    using try_handle_new [OF assms(2), of ?req w exec "co_scope co"] assms(4) by auto
  let ?q1 = "try_handle_request w exec (co_scope co) ?req ?q"
  have wire: "wire ?q1 = wire ?q @ [(own_topic p, ?resp)]"
    using handle_call_answer [of "?q\<lparr>handled := l\<rparr>" "co_scope co" ?req d w "serialize_args args" exec v True "?q\<lparr>handled := l\<rparr>"]
      l(3) assms v by (simp add: lookup_method_def)
  have "handled ?q1 = l"
    using l(3) assms(6-9) v
    by (simp add: lookup_method_def handle_call_def run_handler_def split: option.splits)
  with wire have q1: "wire ?q1 = wire ?q @ [(own_topic p, ?resp)]" "handled ?q1 = l" by auto
  obtain l' where l': "try_handle_request w exec' (own_topic p) ?resp (rpc.more_update (\<lambda>_. ?q1) ?p1) =
      handle_response w ?resp (rpc.more_update (\<lambda>_. ?q1) ?p1\<lparr>handled := l'\<rparr>)"
    using try_handle_new [of "rpc.more_update (\<lambda>_. ?q1) ?p1" ?resp w exec' "own_topic p"] assms(1,3,5)
    by (auto simp: response_request_def new_request_def remembers_def)
  let ?s = "after_wait w ?env name i co uuid args p"
  have s: "?s = handle_response w ?resp (rpc.more_update (\<lambda>_. ?q1) ?p1\<lparr>handled := l'\<rparr>)"
    using l' q1(1) by (simp add: exchange_def rpc_call_last assms(10,11))
  have more: "rpc.more ?s = ?q1" unfolding s by simp
  have "await w de name (co_timeout co) (awaited_cell w ?env name i co uuid args p) =
      Failed (RuntimeError (''Remote error in '' @ name))"
    unfolding s
    by (simp add: handle_response_def response_request_def new_request_def solve_promise_def
        rpc_call_promises hmap_simps await_def)
  from call_impl_attempt(4) [where env = ?env and co = co, OF assms(15) this] assms(13)
  have "call_impl w ?env de name i co uuid args p =
      call_impl w ?env de name (Suc i) (co\<lparr>co_retry := co_retry co - 1\<rparr>) uuid args ?s" by simp
  moreover have "\<exists>s'. call_impl w ?env de name (Suc i) (co\<lparr>co_retry := co_retry co - 1\<rparr>) uuid args ?s =
      Raise (CRPCTimeout (name @ '' timed out'')) s' \<and> rpc.more s' = rpc.more ?s"
    using l q1(2) assms by (intro ignored_attempts) (simp_all add: more remembers_def)
  ultimately show ?thesis using more q1(1) by auto
qed


theorem retries_end_in_timeout_witness:
  "\<exists>p'. call_impl demo_world
      (\<lambda>_. exchange demo_world (\<lambda>d a s. Raise (RuntimeError ''no'') s) (\<lambda>(d :: nat) a s. Ret a s))
      (\<lambda>j. Inr j) ''ping'' 0 (ping_call 3) ''id1'' []
      (rpc.extend (new_rpc ''s/'' ''caller'' :: nat rpc) (register_method ''s/callee'' ''ping'' (7 :: nat) (new_rpc ''s/'' ''callee'')))
    = Raise (CRPCTimeout ''ping timed out'') p' \<and> length (wire (rpc.more p')) = 1"
proof -
  let ?q = "register_method ''s/callee'' ''ping'' (7 :: nat) (new_rpc ''s/'' ''callee'')"
  let ?p = "rpc.extend (new_rpc ''s/'' ''caller'' :: nat rpc) ?q"
  have p: "rpc.more ?p = ?q" "handled ?p = new_utm" "own_topic ?p = ''s/caller''"
    by (simp_all add: rpc.extend_def own_topic_def new_rpc_def)
  have q: "handled ?q = new_utm" "wire ?q = []"
    by (simp_all add: register_method_def new_rpc_def)
  have utm: "lru_inv (new_utm :: string lru)" "recency (new_utm :: string lru) = []"
    by (simp_all add: new_utm_def default_capacity_def)
  have found: "lookup_method ?q ''s/callee'' ''ping'' = Some 7"
    by (simp add: lookup_register) (simp add: lookup_method_def new_rpc_def)
  show ?thesis
    using retries_end_in_timeout [where p = ?p and uuid = "''id1''" and co = "ping_call 3" and name = "''ping''"
        and d = 7 and e = "RuntimeError ''no''" and args = "[]" and w = demo_world and i = 0
        and exec = "\<lambda>d a s. Raise (RuntimeError ''no'') s" and exec' = "\<lambda>(d :: nat) a s. Ret a s" and de = "\<lambda>j. Inr j"]
    unfolding p q remembers_def using utm found by (simp add: p q demo_world_def serialize_args_def)
qed

section \<open>Calls to oneself\<close>

text \<open>A peer that is its own callee: it takes its last request and then the last message sent.\<close>

definition self_exchange ::
  "world \<Rightarrow> ('d \<Rightarrow> json \<Rightarrow> ('d, 'm) rpc_scheme \<Rightarrow> (('d, 'm) rpc_scheme, json) outcome) \<Rightarrow>
   ('d, 'm) rpc_scheme \<Rightarrow> ('d, 'm) rpc_scheme" where
  "self_exchange w exec s =
     (let (scope, req) = last (wire s);
          s1 = try_handle_request w exec scope req s;
          (topic, resp) = last (wire s1)
      in try_handle_request w exec topic resp s1)"

lemma self_seen:
  assumes "lru_inv (handled s)" "remembers s (rq_rpc_id (snd (last (wire s))))"
  shows "self_exchange w exec s = s"
  using assms by (simp add: self_exchange_def case_prod_unfold Let_def try_handle_seen)

lemma self_attempts:
  assumes "producer_ok w (co_scope co)" "serial_ok w (jdump w (serialize_args args))" "\<not> co_multi co"
    and "0 < co_timeout co" "co_fail co = FailThrow" "lru_inv (handled s)" "remembers s uuid" "uuid \<noteq> []"
  shows "\<exists>s'. call_impl w (\<lambda>_. self_exchange w exec) de name i co uuid args s =
      Raise (CRPCTimeout (name @ '' timed out'')) s' \<and>
    filter (\<lambda>m. rq_responds_to (snd m) = uuid) (wire s') = filter (\<lambda>m. rq_responds_to (snd m) = uuid) (wire s)"
  using assms
proof (induction "nat (co_retry co)" arbitrary: co i s rule: less_induct)
  case less
  let ?env = "\<lambda>_. self_exchange w exec" and ?req = "(co_scope co, call_request w s name uuid args)"
  let ?s1 = "snd (rpc_call w (co_scope co) name uuid args s)"
  have wire: "wire ?s1 = wire s @ [?req]" by (rule rpc_call_wire) (use less.prems in simp_all)
  have same: "self_exchange w exec ?s1 = ?s1"
    using less.prems by (intro self_seen) (simp_all add: wire remembers_def)
  have aw: "await w de name (co_timeout co) (awaited_cell w ?env name i co uuid args s) =
      Failed (CRPCTimeout (name @ '' timed out''))"
    using less.prems(4) same by (simp add: await_def rpc_call_promises nth_append)
  note step = call_impl_attempt(4) [where env = ?env and co = co, OF less.prems(3) aw]
  show ?case
  proof (cases "co_retry co > 0")
    case True
    have "\<exists>s'. call_impl w ?env de name (Suc i) (co\<lparr>co_retry := co_retry co - 1\<rparr>) uuid args ?s1 =
        Raise (CRPCTimeout (name @ '' timed out'')) s' \<and>
      filter (\<lambda>m. rq_responds_to (snd m) = uuid) (wire s') = filter (\<lambda>m. rq_responds_to (snd m) = uuid) (wire ?s1)"
      using less.hyps [of "co\<lparr>co_retry := co_retry co - 1\<rparr>" ?s1 "Suc i"] less.prems True by (simp add: remembers_def)
    then show ?thesis using step True same wire less.prems(8) by auto
  next
    case False
    then show ?thesis using step less.prems(5,8) same wire by simp
  qed
qed

text \<open>C28: A peer cannot call itself: the handler runs once and answers, but the answer carries the id of
  the request, which the peer has just handled, so its own filter drops it, and the call ends
  in a timeout after its last attempt, whatever the handler returned.\<close>
theorem self_call_times_out:
  assumes "lru_inv (handled p)" "\<not> remembers p uuid" "uuid \<noteq> []" "own_topic p \<noteq> []"
    and "lookup_method p (co_scope co) name = Some d"
    and "\<And>s. exec d (serialize_args args) s = Ret v s"
    and "jparse w (jdump w (serialize_args args)) = Some (serialize_args args)"
    and "\<And>t. producer_ok w t" "\<And>a. serial_ok w a"
    and "0 < co_timeout co" "co_fail co = FailThrow" "\<not> co_multi co"
    and "filter (\<lambda>m. rq_responds_to (snd m) = uuid) (wire p) = []"
  shows "\<exists>p'. call_impl w (\<lambda>_. self_exchange w exec) de name i co uuid args p =
      Raise (CRPCTimeout (name @ '' timed out'')) p' \<and>
    filter (\<lambda>m. rq_responds_to (snd m) = uuid) (wire p') =
      [(own_topic p, response_request w (call_request w p name uuid args) v False)]"
proof -
  let ?env = "\<lambda>_. self_exchange w exec" and ?req = "call_request w p name uuid args"
  let ?resp = "response_request w ?req v False" and ?s1 = "snd (rpc_call w (co_scope co) name uuid args p)"
  have wire1: "wire ?s1 = wire p @ [(co_scope co, ?req)]" by (rule rpc_call_wire) (use assms in simp_all)
  have new: "lru_inv (handled ?s1)" "\<not> remembers ?s1 (rq_rpc_id ?req)" using assms by (simp_all add: remembers_def)
  obtain l where l: "lru_inv l" "uuid \<in> set (recency l)"
    "try_handle_request w exec (co_scope co) ?req ?s1 = handle_call w exec (co_scope co) ?req (?s1\<lparr>handled := l\<rparr>)"
    using try_handle_new [OF new, of w exec "co_scope co"] by auto
  let ?s2 = "try_handle_request w exec (co_scope co) ?req ?s1"
  have look: "lookup_method (?s1\<lparr>handled := l\<rparr>) (co_scope co) name = Some d"
    using assms(5) by (simp add: lookup_method_def)
  have s2: "?s2 = snd (callee_write w (own_topic p) ?resp (?s1\<lparr>handled := l\<rparr>))"
    using look assms(4,6,7) unfolding l(3)
    by (auto simp: handle_call_def run_handler_def lookup_method_def split: option.splits)
  have wire2: "wire ?s2 = wire p @ [(co_scope co, ?req), (own_topic p, ?resp)]" "handled ?s2 = l" "cells ?s2 = cells ?s1"
    using callee_write_wire [of w "own_topic p" ?resp "?s1\<lparr>handled := l\<rparr>"] assms(8,9) wire1 unfolding s2 by simp_all
  have seen: "remembers ?s2 uuid" "lru_inv (handled ?s2)" using l wire2(2) by (simp_all add: remembers_def)
  have "try_handle_request w exec (own_topic p) ?resp ?s2 = ?s2"
    using seen by (intro try_handle_seen) (simp_all add: response_request_def new_request_def)
  then have env: "self_exchange w exec ?s1 = ?s2"
    using wire1 wire2(1) by (simp add: self_exchange_def)
  have aw: "await w de name (co_timeout co) (awaited_cell w ?env name i co uuid args p) =
      Failed (CRPCTimeout (name @ '' timed out''))"
    using assms(10) by (simp add: env wire2(3) await_def rpc_call_promises nth_append)
  note step = call_impl_attempt(4) [where env = ?env and co = co, OF assms(12) aw]
  have answer: "filter (\<lambda>m. rq_responds_to (snd m) = uuid) (wire ?s2) = [(own_topic p, ?resp)]"
    using assms(3,13) wire2(1) by (simp add: response_request_def new_request_def)
  show ?thesis
  proof (cases "co_retry co > 0")
    case True
    have "\<exists>s'. call_impl w ?env de name (Suc i) (co\<lparr>co_retry := co_retry co - 1\<rparr>) uuid args ?s2 =
        Raise (CRPCTimeout (name @ '' timed out'')) s' \<and>
      filter (\<lambda>m. rq_responds_to (snd m) = uuid) (wire s') = filter (\<lambda>m. rq_responds_to (snd m) = uuid) (wire ?s2)"
      using self_attempts [of w "co\<lparr>co_retry := co_retry co - 1\<rparr>" args ?s2 uuid exec de name "Suc i"] assms seen by simp
    then show ?thesis using step True env answer by auto
  next
    case False
    then show ?thesis using step assms(11) env answer by simp
  qed
qed

theorem self_call_times_out_witness:
  "\<exists>p'. call_impl demo_world (\<lambda>_. self_exchange demo_world (\<lambda>d a s. Ret (JBool True) s)) (\<lambda>j. Inr j) ''ping'' 0
      (ping_call 3) ''id1'' [] (register_method ''s/callee'' ''ping'' (7 :: nat) (new_rpc ''s/'' ''callee'')) =
    Raise (CRPCTimeout ''ping timed out'') p' \<and>
    map fst (filter (\<lambda>m. rq_responds_to (snd m) = ''id1'') (wire p')) = [''s/callee'']"
proof -
  let ?p = "register_method ''s/callee'' ''ping'' (7 :: nat) (new_rpc ''s/'' ''callee'')"
  have p: "handled ?p = new_utm" "wire ?p = []" "own_topic ?p = ''s/callee''"
    by (simp_all add: register_method_def new_rpc_def own_topic_def)
  have utm: "lru_inv (new_utm :: string lru)" "recency (new_utm :: string lru) = []"
    by (simp_all add: new_utm_def default_capacity_def)
  have found: "lookup_method ?p ''s/callee'' ''ping'' = Some 7"
    by (simp add: lookup_register) (simp add: lookup_method_def new_rpc_def)
  show ?thesis
    using self_call_times_out [where p = ?p and uuid = "''id1''" and co = "ping_call 3" and name = "''ping''"
        and d = 7 and v = "JBool True" and args = "[]" and w = demo_world and i = 0
        and exec = "\<lambda>d a s. Ret (JBool True) s" and de = "\<lambda>j. Inr j"]
    unfolding p remembers_def using utm found by (simp add: demo_world_def serialize_args_def) force
qed

text \<open>\<open>cleanup\<close> of a producer pool drops exactly the producers whose last use is more than 60
  seconds ago; every other topic keeps its entry.\<close>
lemma pool_cleanup_exact:
  assumes "distinct (hkeys pool)"
  shows "map_of (pool_cleanup now pool) topic = Some used \<longleftrightarrow>
    map_of pool topic = Some used \<and> now - used \<le> 60000000000"
  by (auto simp: map_of_cleanup [OF assms] split: option.splits)

lemma pool_cleanup_exact_witness:
  "map_of (pool_cleanup 70000000000 [(''a'', 5000000000), (''b'', 10000000000)]) ''b'' = Some 10000000000 \<and>
   map_of (pool_cleanup 70000000000 [(''a'', 5000000000), (''b'', 10000000000)]) ''a'' \<noteq> Some 5000000000"
  using pool_cleanup_exact [of "[(''a'', 5000000000), (''b'', 10000000000)]" 70000000000 "''b''" 10000000000]
    pool_cleanup_exact [of "[(''a'', 5000000000), (''b'', 10000000000)]" 70000000000 "''a''" 5000000000] by simp

end
