(* ===== verification/Ghost.thy ===== *)
theory Ghost
  imports Json
begin

text \<open>
  The replicated properties of the entities (\<open>GhostSystem\<close>): the properties of one entity
  with the times of their last update and last poll, the store of all entities, and the
  update that the owner accumulates for the next replication packet of each container. The
  checks of ownership and the writing of packets involve the registries and are in theory
  \<open>Node\<close>. The last section is the refinement: the store implements a map from entity and
  key to a value that updates override, and what the owner accumulates for a container,
  applied by a replica, makes the replica agree with the owner again.
\<close>

section \<open>The properties of one entity\<close>

record property =
  pr_value :: string
  pr_update :: int
  pr_sync :: int

type_synonym properties = "(string, property) hmap"

text \<open>
  \<open>Properties::Set\<close>. A new entry reads the clock twice to initialise its times before its
  last update is set. \<open>t\<close> counts the reads of the high resolution clock.
\<close>

definition prop_set :: "world \<Rightarrow> string \<Rightarrow> string \<Rightarrow> properties \<times> nat \<Rightarrow> bool \<times> properties \<times> nat" where
  "prop_set w key v pt =
     (case pt of (ps, t) \<Rightarrow>
        (case map_of ps key of
           None \<Rightarrow>
             (True, hput key \<lparr>pr_value = v, pr_update = hr_clock w (t + 2), pr_sync = hr_clock w (t + 1)\<rparr> ps, t + 3)
         | Some p \<Rightarrow>
             if pr_value p \<noteq> v
             then (True, hput key (p\<lparr>pr_value := v, pr_update := hr_clock w t\<rparr>) ps, t + 1)
             else (False, ps, t)))"

definition prop_get :: "string \<Rightarrow> properties \<Rightarrow> string option" where
  "prop_get key ps =
     (case map_of ps key of
        None \<Rightarrow> None
      | Some p \<Rightarrow> if pr_update p > pr_sync p then Some (pr_value p) else None)"

definition AcknowledgeSync :: "world \<Rightarrow> string \<Rightarrow> properties \<times> nat \<Rightarrow> properties \<times> nat" where
  "AcknowledgeSync w key pt =
     (case pt of (ps, t) \<Rightarrow>
        (case map_of ps key of
           None \<Rightarrow> (ps, t)
         | Some p \<Rightarrow> (hput key (p\<lparr>pr_sync := hr_clock w t\<rparr>) ps, t + 1)))"

section \<open>The store\<close>

text \<open>\<open>next_update\<close> maps a container to the JSON object of the changes not sent yet.\<close>

record ghost =
  ett_props :: "(string, properties) hmap"
  next_update :: "(string, json) hmap"
  hr_reads :: nat

definition new_ghost :: ghost where
  "new_ghost = \<lparr>ett_props = [], next_update = [], hr_reads = 0\<rparr>"

definition props_of :: "string \<Rightarrow> ghost \<Rightarrow> properties" where
  "props_of eid g = (case map_of (ett_props g) eid of None \<Rightarrow> [] | Some ps \<Rightarrow> ps)"

text \<open>\<open>__withPropertyLock\<close> inserts an empty entry for an entity it does not know.\<close>

definition with_props :: "string \<Rightarrow> (properties \<times> nat \<Rightarrow> 'a \<times> properties \<times> nat) \<Rightarrow> ghost \<Rightarrow> 'a \<times> ghost" where
  "with_props eid f g =
     (let (a, ps, t) = f (props_of eid g, hr_reads g)
      in (a, g\<lparr>ett_props := hput eid ps (ett_props g), hr_reads := t\<rparr>))"

text \<open>The loop of both forms of \<open>ApplyUpdate\<close> over the items of an update: a value that is not a string throws.\<close>

fun set_items :: "world \<Rightarrow> (string \<times> json) list \<Rightarrow> properties \<times> nat \<Rightarrow> exn option \<times> properties \<times> nat" where
  "set_items w [] pt = (None, pt)"
| "set_items w ((key, v) # items) pt =
     (case json_string v of
        Inl e \<Rightarrow> (Some e, pt)
      | Inr s \<Rightarrow> (let (_, ps, t) = prop_set w key s pt in set_items w items (ps, t)))"

definition apply_entity_update :: "world \<Rightarrow> string \<Rightarrow> json \<Rightarrow> ghost \<Rightarrow> (ghost, unit) outcome" where
  "apply_entity_update w eid update g =
     (let (err, g') = with_props eid (set_items w (json_items update)) g
      in case err of None \<Rightarrow> Ret () g' | Some e \<Rightarrow> Raise e g')"

definition apply_items :: "world \<Rightarrow> (string \<times> json) list \<Rightarrow> ghost \<Rightarrow> (ghost, unit) outcome" where
  "apply_items w items g = ofold (\<lambda>(eid, ps). apply_entity_update w eid ps) items g"

text \<open>\<open>ApplyUpdate(jsonUpdate)\<close> catches every exception, and keeps what was applied before it.\<close>

definition ApplyUpdate :: "world \<Rightarrow> string \<Rightarrow> ghost \<Rightarrow> ghost" where
  "ApplyUpdate w jsonUpdate g =
     (case jparse w jsonUpdate of
        None \<Rightarrow> g
      | Some update \<Rightarrow> ostate (apply_items w (json_items update) g))"

definition PollPropertyUpdate :: "world \<Rightarrow> string \<Rightarrow> string \<Rightarrow> ghost \<Rightarrow> string option \<times> ghost" where
  "PollPropertyUpdate w eid key g =
     with_props eid
       (\<lambda>(ps, t). case prop_get key ps of
           None \<Rightarrow> (None, ps, t)
         | Some v \<Rightarrow> (Some v, AcknowledgeSync w key (ps, t))) g"

text \<open>\<open>PeekProperties\<close>: the entry with the empty key is removed; no property at all gives no object.\<close>

definition PeekProperties :: "string \<Rightarrow> ghost \<Rightarrow> json option \<times> ghost" where
  "PeekProperties eid g =
     with_props eid
       (\<lambda>(ps, t).
          (let ps' = filter (\<lambda>kp. fst kp \<noteq> []) ps
           in (if ps' = [] then None
               else Some (JObj (fold (\<lambda>kp. omap_put (fst kp) (JStr (pr_value (snd kp)))) ps' [])),
               ps', t))) g"

definition TryRemoveEntity :: "string \<Rightarrow> ghost \<Rightarrow> ghost" where
  "TryRemoveEntity eid g = g\<lparr>ett_props := herase eid (ett_props g)\<rparr>"

section \<open>The next update\<close>

text \<open>
  The change of one property in the object of a container: \<open>nextUpdate[eid][key] = value\<close>,
  after an object was stored for an entity that has none.
\<close>

definition note_change :: "string \<Rightarrow> string \<Rightarrow> string \<Rightarrow> json \<Rightarrow> exn + json" where
  "note_change eid key v next =
     (case (if json_contains next eid then Inr next else json_put eid (JObj []) next) of
        Inl e \<Rightarrow> Inl e
      | Inr next1 \<Rightarrow>
          (case json_at next1 eid of
             Inl e \<Rightarrow> Inl e
           | Inr entity \<Rightarrow>
               (case json_put key (JStr v) entity of
                  Inl e \<Rightarrow> Inl e
                | Inr entity1 \<Rightarrow> json_put eid entity1 next1)))"

definition pending_update :: "string \<Rightarrow> ghost \<Rightarrow> json" where
  "pending_update cid g = (case map_of (next_update g) cid of None \<Rightarrow> JNull | Some j \<Rightarrow> j)"

text \<open>The part of \<open>UpdatePropertyState\<close> under the locks, for an entity owned through \<open>cid\<close>.\<close>

definition set_owned :: "world \<Rightarrow> string \<Rightarrow> string \<Rightarrow> string \<Rightarrow> string \<Rightarrow> ghost \<Rightarrow> (ghost, unit) outcome" where
  "set_owned w cid eid key v g =
     (let (changed, g1) = with_props eid (prop_set w key v) g
      in if changed then
           (case note_change eid key v (pending_update cid g1) of
              Inl e \<Rightarrow> Raise e (g1\<lparr>next_update := hput cid (pending_update cid g1) (next_update g1)\<rparr>)
            | Inr j \<Rightarrow> Ret () (g1\<lparr>next_update := hput cid j (next_update g1)\<rparr>))
         else Ret () g1)"

text \<open>
  \<open>FetchNextUpdate\<close> moves the accumulated values out: a moved-from value is null, and
  \<open>clear\<close> leaves null unchanged. The result is the object built for \<open>ProcessUpdate\<close>.
\<close>

definition FetchNextUpdate :: "ghost \<Rightarrow> json \<times> ghost" where
  "FetchNextUpdate g =
     (if next_update g = [] then JNull
      else JObj (fold (\<lambda>cj. omap_put (fst cj) (snd cj)) (next_update g) []),
      g\<lparr>next_update := map (\<lambda>cj. (fst cj, JNull)) (next_update g)\<rparr>)"

text \<open>The containers that \<open>ProcessUpdate\<close> hands to \<open>ReplicateData\<close>, with their text.\<close>

definition ProcessUpdate :: "world \<Rightarrow> json \<Rightarrow> (string \<times> string) list" where
  "ProcessUpdate w update =
     map (\<lambda>cj. (fst cj, jdump w (snd cj)))
       (filter (\<lambda>cj. \<not> (is_null (snd cj) \<or> json_empty (snd cj))) (json_items update))"

section \<open>The store as a map of values\<close>

definition value_of :: "ghost \<Rightarrow> string \<Rightarrow> string \<Rightarrow> string option" where
  "value_of g eid key = map_option pr_value (map_of (props_of eid g) key)"

text \<open>An update is an object of objects of strings; the keys of an object are sorted and distinct.\<close>

fun wf_entity :: "json \<Rightarrow> bool" where
  "wf_entity (JObj ps) = (sorted_wrt (<) (map fst ps) \<and> (\<forall>(k, v) \<in> set ps. case v of JStr s \<Rightarrow> True | _ \<Rightarrow> False))"
| "wf_entity _ = False"

fun wf_update :: "json \<Rightarrow> bool" where
  "wf_update JNull = True"
| "wf_update (JObj es) = (sorted_wrt (<) (map fst es) \<and> (\<forall>(e, ps) \<in> set es. wf_entity ps))"
| "wf_update _ = False"

definition entity_value :: "json \<Rightarrow> string \<Rightarrow> string option" where
  "entity_value j key =
     (case j of JObj ps \<Rightarrow> (case map_of ps key of Some (JStr v) \<Rightarrow> Some v | _ \<Rightarrow> None) | _ \<Rightarrow> None)"

definition update_value :: "json \<Rightarrow> string \<Rightarrow> string \<Rightarrow> string option" where
  "update_value j eid key =
     (case j of JObj es \<Rightarrow> (case map_of es eid of Some ps \<Rightarrow> entity_value ps key | None \<Rightarrow> None) | _ \<Rightarrow> None)"

lemma sorted_keys_distinct: "sorted_wrt (<) (ks :: string list) \<Longrightarrow> distinct ks"
  by (simp add: strict_sorted_iff)

lemma prop_set_value:
  "map_option pr_value (map_of (fst (snd (prop_set w key v (ps, t)))) k) =
     (if k = key then Some v else map_option pr_value (map_of ps k))"
  by (auto simp: prop_set_def hmap_simps split: option.splits)

lemma props_of_with [simp]:
  "props_of eid' (snd (with_props eid f g)) =
     (if eid' = eid then fst (snd (f (props_of eid g, hr_reads g))) else props_of eid' g)"
  by (simp add: with_props_def props_of_def hmap_simps split: prod.splits)

lemma fst_with_props [simp]: "fst (with_props eid f g) = fst (f (props_of eid g, hr_reads g))"
  by (simp add: with_props_def split: prod.splits)

lemma next_update_with [simp]: "next_update (snd (with_props eid f g)) = next_update g"
  by (simp add: with_props_def split: prod.splits)

lemma set_items_strings:
  assumes "\<forall>(k, v) \<in> set items. case v of JStr s \<Rightarrow> True | _ \<Rightarrow> False" "distinct (map fst items)"
  shows "fst (set_items w items (ps, t)) = None \<and>
    map_option pr_value (map_of (fst (snd (set_items w items (ps, t)))) key) =
      (case map_of items key of Some (JStr v) \<Rightarrow> Some v | _ \<Rightarrow> map_option pr_value (map_of ps key))"
  using assms
proof (induction items arbitrary: ps t)
  case (Cons kv items)
  obtain k s where kv: "kv = (k, JStr s)" using Cons.prems by (auto split: json.splits)
  obtain b ps' t' where set: "prop_set w k s (ps, t) = (b, ps', t')" by (cases "prop_set w k s (ps, t)")
  have "map_option pr_value (map_of ps' key) = (if key = k then Some s else map_option pr_value (map_of ps key))"
    using prop_set_value [of w k s ps t key] set by simp
  moreover have "map_of items k = None" using Cons.prems kv by (force simp: map_of_eq_None_iff)
  ultimately show ?case
    using Cons.IH [of ps' t'] Cons.prems kv set by (auto split: option.splits json.splits)
qed simp

lemma apply_entity:
  assumes "wf_entity j"
  shows "\<exists>g'. apply_entity_update w eid j g = Ret () g' \<and> next_update g' = next_update g \<and>
    (\<forall>e k. value_of g' e k =
       (if e = eid then (case entity_value j k of Some v \<Rightarrow> Some v | None \<Rightarrow> value_of g e k) else value_of g e k))"
proof -
  obtain ps where j: "j = JObj ps" using assms by (cases j) auto
  let ?g = "snd (with_props eid (set_items w ps) g)"
  have "fst (with_props eid (set_items w ps) g) = None"
    using set_items_strings [of ps w "props_of eid g" "hr_reads g"] assms j by (simp add: sorted_keys_distinct)
  then have "apply_entity_update w eid j g = Ret () ?g"
    by (simp add: apply_entity_update_def j case_prod_unfold del: fst_with_props)
  moreover have "value_of ?g e k =
      (if e = eid then (case entity_value j k of Some v \<Rightarrow> Some v | None \<Rightarrow> value_of g e k) else value_of g e k)" for e k
    using set_items_strings [of ps w "props_of eid g" "hr_reads g" k] assms j
    by (auto simp: value_of_def entity_value_def sorted_keys_distinct split: option.splits json.splits)
  ultimately show ?thesis by auto
qed

lemma apply_items_wf:
  assumes "distinct (map fst es)" "\<forall>(e, ps) \<in> set es. wf_entity ps"
  shows "\<exists>g'. apply_items w es g = Ret () g' \<and> next_update g' = next_update g \<and>
    (\<forall>e k. value_of g' e k = (case update_value (JObj es) e k of Some v \<Rightarrow> Some v | None \<Rightarrow> value_of g e k))"
  using assms
proof (induction es arbitrary: g)
  case Nil
  then show ?case by (simp add: apply_items_def update_value_def)
next
  case (Cons ej es)
  obtain eid j where ej: "ej = (eid, j)" by (cases ej)
  obtain g1 where g1: "apply_entity_update w eid j g = Ret () g1" "next_update g1 = next_update g"
    "\<And>e k. value_of g1 e k =
       (if e = eid then (case entity_value j k of Some v \<Rightarrow> Some v | None \<Rightarrow> value_of g e k) else value_of g e k)"
    using apply_entity [of j w eid g] Cons.prems ej by auto
  obtain g2 where g2: "apply_items w es g1 = Ret () g2" "next_update g2 = next_update g1"
    "\<And>e k. value_of g2 e k = (case update_value (JObj es) e k of Some v \<Rightarrow> Some v | None \<Rightarrow> value_of g1 e k)"
    using Cons.IH [of g1] Cons.prems by auto
  have none: "map_of es eid = None" using Cons.prems ej by (force simp: map_of_eq_None_iff)
  have "value_of g2 e k = (case update_value (JObj (ej # es)) e k of Some v \<Rightarrow> Some v | None \<Rightarrow> value_of g e k)" for e k
    using none by (auto simp: g2(3) g1(3) ej update_value_def split: option.splits)
  moreover have "apply_items w (ej # es) g = Ret () g2" using g1(1) g2(1) by (simp add: apply_items_def ej)
  ultimately show ?case using g1(2) g2(2) by auto
qed

lemma ApplyUpdate_value:
  assumes "jparse w s = Some j" "wf_update j"
  shows "value_of (ApplyUpdate w s g) e k = (case update_value j e k of Some v \<Rightarrow> Some v | None \<Rightarrow> value_of g e k)"
    and "next_update (ApplyUpdate w s g) = next_update g"
proof -
  have "value_of (ApplyUpdate w s g) e k = (case update_value j e k of Some v \<Rightarrow> Some v | None \<Rightarrow> value_of g e k) \<and>
    next_update (ApplyUpdate w s g) = next_update g"
  proof (cases j)
    case (JObj es)
    then obtain g' where "apply_items w es g = Ret () g'" "next_update g' = next_update g"
      "\<And>e k. value_of g' e k = (case update_value (JObj es) e k of Some v \<Rightarrow> Some v | None \<Rightarrow> value_of g e k)"
      using apply_items_wf [of es w g] assms by (auto simp: sorted_keys_distinct)
    then show ?thesis using assms JObj by (simp add: ApplyUpdate_def)
  qed (use assms in \<open>simp_all add: ApplyUpdate_def apply_items_def update_value_def\<close>)
  then show "value_of (ApplyUpdate w s g) e k = (case update_value j e k of Some v \<Rightarrow> Some v | None \<Rightarrow> value_of g e k)"
    and "next_update (ApplyUpdate w s g) = next_update g" by auto
qed

section \<open>Replication\<close>

lemma set_omap_put: "set (omap_put k v m) \<subseteq> insert (k, v) (set m)"
  by (induction m) auto

lemma wf_entity_put:
  assumes "wf_entity (JObj ps)"
  shows "wf_entity (JObj (omap_put key (JStr v) ps))"
proof -
  have "kv \<in> set (omap_put key (JStr v) ps) \<Longrightarrow> kv = (key, JStr v) \<or> kv \<in> set ps" for kv
    using set_omap_put [of key "JStr v" ps] by blast
  with assms show ?thesis by fastforce
qed

lemma wf_update_put:
  assumes "wf_update (JObj es)" "wf_entity j"
  shows "wf_update (JObj (omap_put eid j es))"
proof -
  have "ej \<in> set (omap_put eid j es) \<Longrightarrow> ej = (eid, j) \<or> ej \<in> set es" for ej
    using set_omap_put [of eid j es] by blast
  with assms show ?thesis by fastforce
qed

lemma wf_update_entity:
  "wf_update (JObj es) \<Longrightarrow> map_of es eid = Some j \<Longrightarrow> \<exists>ps. j = JObj ps \<and> wf_entity (JObj ps)"
  by (auto dest!: map_of_SomeD) (metis (no_types, lifting) case_prodD wf_entity.elims(2))

lemma note_change_obj:
  assumes "wf_update (JObj es)"
  shows "\<exists>j. note_change eid key v (JObj es) = Inr j \<and> wf_update j \<and>
    (\<forall>e k. update_value j e k = (if e = eid \<and> k = key then Some v else update_value (JObj es) e k))"
proof (cases "map_of es eid")
  case None
  have "wf_update (JObj (omap_put eid (JObj [(key, JStr v)]) (omap_put eid (JObj []) es)))"
    using assms by (intro wf_update_put) auto
  then show ?thesis using None
    by (auto simp: note_change_def json_contains_def hmap_simps update_value_def entity_value_def
        split: option.splits)
next
  case (Some j)
  then obtain ps where ps: "map_of es eid = Some (JObj ps)" "wf_entity (JObj ps)"
    using wf_update_entity [OF assms Some] by blast
  have "wf_update (JObj (omap_put eid (JObj (omap_put key (JStr v) ps)) es))"
    by (intro wf_update_put assms wf_entity_put ps(2))
  then show ?thesis using ps(1)
    by (auto simp: note_change_def json_contains_def hmap_simps update_value_def entity_value_def
        split: option.splits)
qed

lemma note_change_wf:
  assumes "wf_update next"
  shows "\<exists>j. note_change eid key v next = Inr j \<and> wf_update j \<and>
    (\<forall>e k. update_value j e k = (if e = eid \<and> k = key then Some v else update_value next e k))"
proof (cases "next")
  case JNull
  have *: "note_change eid key v JNull = note_change eid key v (JObj [])"
    by (simp add: note_change_def json_contains_def)
  have **: "update_value JNull e k = update_value (JObj []) e k" for e k by (simp add: update_value_def)
  show ?thesis unfolding JNull * ** by (rule note_change_obj) simp
next
  case (JObj es)
  with assms have "wf_update (JObj es)" by simp
  then show ?thesis unfolding JObj by (rule note_change_obj)
qed (use assms in simp_all)

lemma value_of_next [simp]: "value_of (g\<lparr>next_update := n\<rparr>) e k = value_of g e k"
  by (simp add: value_of_def props_of_def)

lemma set_owned_effect:
  assumes "wf_update (pending_update cid g)"
  shows "\<exists>g'. set_owned w cid eid key v g = Ret () g' \<and>
    (\<forall>e k. value_of g' e k = (if e = eid \<and> k = key then Some v else value_of g e k)) \<and>
    wf_update (pending_update cid g') \<and>
    (\<forall>c. c \<noteq> cid \<longrightarrow> pending_update c g' = pending_update c g) \<and>
    (distinct (hkeys (next_update g)) \<longrightarrow> distinct (hkeys (next_update g'))) \<and>
    (if value_of g eid key = Some v then pending_update cid g' = pending_update cid g
     else \<forall>e k. update_value (pending_update cid g') e k =
         (if e = eid \<and> k = key then Some v else update_value (pending_update cid g) e k))"
proof -
  let ?r = "with_props eid (prop_set w key v) g"
  have pend: "pending_update c (snd ?r) = pending_update c g" for c by (simp add: pending_update_def)
  have changed: "fst ?r \<longleftrightarrow> value_of g eid key \<noteq> Some v"
    by (auto simp: prop_set_def value_of_def split: option.splits)
  have val: "value_of (snd ?r) e k = (if e = eid \<and> k = key then Some v else value_of g e k)" for e k
    using prop_set_value [of w key v "props_of eid g" "hr_reads g" k] by (auto simp: value_of_def)
  obtain j where j: "note_change eid key v (pending_update cid g) = Inr j" "wf_update j"
    "\<And>e k. update_value j e k = (if e = eid \<and> k = key then Some v else update_value (pending_update cid g) e k)"
    using note_change_wf [OF assms] by metis
  show ?thesis
  proof (cases "fst ?r")
    case True
    then have "set_owned w cid eid key v g =
        Ret () (snd ?r\<lparr>next_update := hput cid j (next_update (snd ?r))\<rparr>)"
      by (simp add: set_owned_def case_prod_unfold pend j(1) del: fst_with_props)
    moreover have "pending_update c (snd ?r\<lparr>next_update := hput cid j (next_update (snd ?r))\<rparr>) =
        (if c = cid then j else pending_update c g)" for c
      by (simp add: pending_update_def hmap_simps)
    ultimately show ?thesis using True changed val j(2,3) by auto
  next
    case False
    then have "set_owned w cid eid key v g = Ret () (snd ?r)"
      by (simp add: set_owned_def case_prod_unfold del: fst_with_props)
    then show ?thesis using False changed val pend assms by auto
  qed
qed

text \<open>What a replica of container \<open>cid\<close> does with the packets of a round.\<close>

definition receive :: "world \<Rightarrow> string \<Rightarrow> (string \<times> string) list \<Rightarrow> ghost \<Rightarrow> ghost" where
  "receive w cid packets r =
     (case map_of packets cid of None \<Rightarrow> r | Some data \<Rightarrow> ApplyUpdate w data r)"

lemma map_of_fold_omap:
  "map_of (fold (\<lambda>cj. omap_put (fst cj) (snd cj)) xs m) k =
     (case map_of (rev xs) k of Some j \<Rightarrow> Some j | None \<Rightarrow> map_of m k)"
  by (induction xs arbitrary: m) (auto simp: hmap_simps map_add_def split: option.splits)

lemma sorted_fold_omap:
  "sorted_wrt (<) (hkeys m) \<Longrightarrow> sorted_wrt (<) (hkeys (fold (\<lambda>cj. omap_put (fst cj) (snd cj)) xs m))"
  by (induction xs arbitrary: m) simp_all

lemma map_of_rev: "distinct (map fst xs) \<Longrightarrow> map_of (rev xs) = map_of xs"
  by (rule map_of_inject_set [THEN iffD2]) (simp_all add: rev_map [symmetric])

lemma map_of_filter_snd:
  "distinct (map fst m) \<Longrightarrow> map_of (map (\<lambda>cj. (fst cj, f (snd cj))) (filter (\<lambda>cj. P (snd cj)) m)) k =
     (case map_of m k of None \<Rightarrow> None | Some j \<Rightarrow> if P j then Some (f j) else None)"
proof (induction m)
  case (Cons a m)
  then have "map_of m (fst a) = None" by (simp add: map_of_eq_None_iff)
  with Cons show ?case by (cases "k = fst a") auto
qed simp

lemma packet_of:
  assumes "distinct (hkeys (next_update g))"
  shows "map_of (ProcessUpdate w (fst (FetchNextUpdate g))) cid =
    (if is_null (pending_update cid g) \<or> json_empty (pending_update cid g) then None
     else Some (jdump w (pending_update cid g)))"
proof -
  let ?m = "fold (\<lambda>cj. omap_put (fst cj) (snd cj)) (next_update g) []"
  have "map_of ?m cid = map_of (next_update g) cid"
    by (simp add: map_of_fold_omap map_of_rev assms split: option.splits)
  moreover have "distinct (map fst ?m)"
    by (rule sorted_keys_distinct, rule sorted_fold_omap) simp
  moreover have "json_items (fst (FetchNextUpdate g)) = ?m" by (simp add: FetchNextUpdate_def)
  ultimately show ?thesis
    using map_of_filter_snd [of ?m "jdump w" "\<lambda>j. \<not> (is_null j \<or> json_empty j)" cid]
    by (auto simp: ProcessUpdate_def pending_update_def split: option.splits)
qed

lemma map_of_const: "map_of (map (\<lambda>cj. (fst cj, c)) m) k = map_option (\<lambda>_. c) (map_of m k)"
  by (induction m) auto

lemma FetchNextUpdate_drains:
  "value_of (snd (FetchNextUpdate g)) e k = value_of g e k"
  "pending_update cid (snd (FetchNextUpdate g)) = JNull"
  "hkeys (next_update (snd (FetchNextUpdate g))) = hkeys (next_update g)"
  by (simp_all add: FetchNextUpdate_def pending_update_def map_of_const comp_def value_of_def props_of_def split: option.splits)

text \<open>A run of property updates by the owner of \<open>cid\<close>.\<close>

definition own_updates :: "world \<Rightarrow> string \<Rightarrow> (string \<times> string \<times> string) list \<Rightarrow> ghost \<Rightarrow> (ghost, unit) outcome" where
  "own_updates w cid ops g = ofold (\<lambda>(eid, key, v). set_owned w cid eid key v) ops g"

text \<open>Between two rounds, the owner's values are those of the last round overridden by the pending update.\<close>

lemma own_updates_pending:
  assumes "wf_update (pending_update cid g)" "distinct (hkeys (next_update g))"
    and "\<forall>e k. value_of g e k = (case update_value (pending_update cid g) e k of Some v \<Rightarrow> Some v | None \<Rightarrow> value_of g0 e k)"
  shows "\<exists>g'. own_updates w cid ops g = Ret () g' \<and> wf_update (pending_update cid g') \<and>
    distinct (hkeys (next_update g')) \<and>
    (\<forall>e k. value_of g' e k = (case update_value (pending_update cid g') e k of Some v \<Rightarrow> Some v | None \<Rightarrow> value_of g0 e k))"
  using assms
proof (induction ops arbitrary: g)
  case Nil
  then show ?case by (simp add: own_updates_def)
next
  case (Cons op ops)
  obtain eid key v where op: "op = (eid, key, v)" by (cases op)
  obtain g1 where g1: "set_owned w cid eid key v g = Ret () g1"
    "\<forall>e k. value_of g1 e k = (if e = eid \<and> k = key then Some v else value_of g e k)"
    "wf_update (pending_update cid g1)" "distinct (hkeys (next_update g1))"
    "if value_of g eid key = Some v then pending_update cid g1 = pending_update cid g
     else \<forall>e k. update_value (pending_update cid g1) e k =
         (if e = eid \<and> k = key then Some v else update_value (pending_update cid g) e k)"
    using set_owned_effect [OF Cons.prems(1), of w eid key v] Cons.prems(2) by blast
  have "value_of g1 e k = (case update_value (pending_update cid g1) e k of Some v \<Rightarrow> Some v | None \<Rightarrow> value_of g0 e k)" for e k
  proof (cases "value_of g eid key = Some v")
    case True
    then have "value_of g1 e k = value_of g e k" using g1(2) by simp
    then show ?thesis using True g1(5) Cons.prems(3) by simp
  qed (use g1(2,5) Cons.prems(3) in auto)
  then obtain g' where "own_updates w cid ops g1 = Ret () g'" "wf_update (pending_update cid g')"
    "distinct (hkeys (next_update g'))"
    "\<forall>e k. value_of g' e k = (case update_value (pending_update cid g') e k of Some v \<Rightarrow> Some v | None \<Rightarrow> value_of g0 e k)"
    using Cons.IH [of g1] g1(3,4) by blast
  moreover have "own_updates w cid (op # ops) g = own_updates w cid ops g1"
    using g1(1) by (simp add: own_updates_def op)
  ultimately show ?case by auto
qed

text \<open>C1: A round of replication converges: when a replica agrees with the owner on a property and
  nothing is pending, then after any property updates by the owner, the packet that
  \<open>FetchNextUpdate\<close> and \<open>ProcessUpdate\<close> make for the container makes the replica agree with
  the owner on that property again, and nothing is pending after the round.\<close>
theorem replication_converges:
  assumes "\<And>j. wf_update j \<Longrightarrow> jparse w (jdump w j) = Some j"
    and "distinct (hkeys (next_update g))" "pending_update cid g = JNull"
    and "value_of r e k = value_of g e k"
  shows "\<exists>g'. own_updates w cid ops g = Ret () g' \<and>
    value_of (receive w cid (ProcessUpdate w (fst (FetchNextUpdate g'))) r) e k = value_of g' e k \<and>
    value_of (snd (FetchNextUpdate g')) e k = value_of g' e k \<and>
    pending_update cid (snd (FetchNextUpdate g')) = JNull \<and>
    distinct (hkeys (next_update (snd (FetchNextUpdate g'))))"
proof -
  obtain g' where g': "own_updates w cid ops g = Ret () g'" "wf_update (pending_update cid g')"
    "distinct (hkeys (next_update g'))"
    "\<forall>e k. value_of g' e k = (case update_value (pending_update cid g') e k of Some v \<Rightarrow> Some v | None \<Rightarrow> value_of g e k)"
    using own_updates_pending [of cid g g w ops] assms(2,3) by (auto simp: update_value_def)
  let ?j = "pending_update cid g'"
  have "value_of (receive w cid (ProcessUpdate w (fst (FetchNextUpdate g'))) r) e k =
      (case update_value ?j e k of Some v \<Rightarrow> Some v | None \<Rightarrow> value_of r e k)"
  proof (cases "is_null ?j \<or> json_empty ?j")
    case True
    then have "update_value ?j e k = None" using g'(2) by (cases ?j) (auto simp: update_value_def)
    with True show ?thesis by (simp add: receive_def packet_of [OF g'(3)])
  next
    case False
    then show ?thesis
      using ApplyUpdate_value(1) [OF assms(1) [OF g'(2)] g'(2)] by (simp add: receive_def packet_of [OF g'(3)])
  qed
  with g' assms(4) show ?thesis by (simp add: FetchNextUpdate_drains split: option.split)
qed

theorem replication_converges_witness:
  "\<exists>g'. own_updates demo_world ''c'' [(''e1'', ''hp'', ''10''), (''e1'', ''hp'', ''7'')] new_ghost = Ret () g' \<and>
    value_of (receive demo_world ''c'' (ProcessUpdate demo_world (fst (FetchNextUpdate g'))) new_ghost) ''e1'' ''hp'' = Some ''7''"
proof -
  let ?ops = "[(''e1'', ''hp'', ''10''), (''e1'', ''hp'', ''7'')]"
  obtain g' where g': "own_updates demo_world ''c'' ?ops new_ghost = Ret () g'"
    "value_of (receive demo_world ''c'' (ProcessUpdate demo_world (fst (FetchNextUpdate g'))) new_ghost) ''e1'' ''hp''
      = value_of g' ''e1'' ''hp''"
    using replication_converges [of demo_world new_ghost "''c''" new_ghost "''e1''" "''hp''" ?ops]
    by (auto simp: new_ghost_def pending_update_def)
  have "map_option (\<lambda>g. value_of g ''e1'' ''hp'')
      (case own_updates demo_world ''c'' ?ops new_ghost of Ret _ g \<Rightarrow> Some g | _ \<Rightarrow> None) = Some (Some ''7'')"
    by code_simp
  with g' show ?thesis by simp
qed

section \<open>Polling\<close>

text \<open>Every time in the store was read from the clock, which only moves forward.\<close>

definition ghost_times :: "world \<Rightarrow> ghost \<Rightarrow> bool" where
  "ghost_times w g \<longleftrightarrow>
     (\<forall>eid key p. map_of (props_of eid g) key = Some p \<longrightarrow>
        pr_update p < hr_clock w (hr_reads g) \<and> pr_sync p < hr_clock w (hr_reads g))"

definition props_times :: "int \<Rightarrow> properties \<Rightarrow> bool" where
  "props_times now ps \<longleftrightarrow> (\<forall>key p. map_of ps key = Some p \<longrightarrow> pr_update p < now \<and> pr_sync p < now)"

lemma ghost_times_props: "ghost_times w g \<longleftrightarrow> (\<forall>eid. props_times (hr_clock w (hr_reads g)) (props_of eid g))"
  by (auto simp: ghost_times_def props_times_def)

lemma props_times_mono: "props_times now ps \<Longrightarrow> now \<le> now' \<Longrightarrow> props_times now' ps"
  unfolding props_times_def by force

lemma hr_reads_with [simp]: "hr_reads (snd (with_props eid f g)) = snd (snd (f (props_of eid g, hr_reads g)))"
  by (simp add: with_props_def split: prod.splits)

lemma with_props_times:
  assumes "strict_mono (hr_clock w)" "ghost_times w g"
    and "\<And>ps t. props_times (hr_clock w t) ps \<Longrightarrow>
      t \<le> snd (snd (f (ps, t))) \<and> props_times (hr_clock w (snd (snd (f (ps, t))))) (fst (snd (f (ps, t))))"
  shows "ghost_times w (snd (with_props eid f g))"
proof -
  let ?t = "snd (snd (f (props_of eid g, hr_reads g)))"
  have old: "props_times (hr_clock w (hr_reads g)) (props_of e g)" for e
    using assms(2) by (simp add: ghost_times_props)
  note new = assms(3) [OF old, of eid]
  then have "hr_clock w (hr_reads g) \<le> hr_clock w ?t" by (simp add: strict_mono_less_eq [OF assms(1)])
  then have "props_times (hr_clock w ?t) (props_of e g)" for e by (rule props_times_mono [OF old])
  with new show ?thesis unfolding ghost_times_props by simp
qed

lemma prop_set_times:
  assumes "strict_mono (hr_clock w)" "props_times (hr_clock w t) ps"
  shows "t \<le> snd (snd (prop_set w key v (ps, t)))"
    and "props_times (hr_clock w (snd (snd (prop_set w key v (ps, t))))) (fst (snd (prop_set w key v (ps, t))))"
proof -
  have less: "hr_clock w t < hr_clock w (Suc t)" "hr_clock w t < hr_clock w (t + 3)"
    "hr_clock w (Suc t) < hr_clock w (t + 3)" "hr_clock w (t + 2) < hr_clock w (t + 3)"
    by (simp_all add: strict_mono_less [OF assms(1)])
  show "t \<le> snd (snd (prop_set w key v (ps, t)))"
    by (simp add: prop_set_def split: option.splits)
  show "props_times (hr_clock w (snd (snd (prop_set w key v (ps, t))))) (fst (snd (prop_set w key v (ps, t))))"
    using assms(2) less
    by (auto simp: prop_set_def props_times_def hmap_simps split: option.splits if_splits)
      (meson order.strict_trans)+
qed

lemma set_items_times:
  assumes "strict_mono (hr_clock w)" "props_times (hr_clock w t) ps"
  shows "t \<le> snd (snd (set_items w items (ps, t))) \<and>
    props_times (hr_clock w (snd (snd (set_items w items (ps, t))))) (fst (snd (set_items w items (ps, t))))"
  using assms(2)
proof (induction items arbitrary: ps t)
  case (Cons kv items)
  obtain k v where kv: "kv = (k, v)" by (cases kv)
  show ?case
  proof (cases "json_string v")
    case (Inr s)
    obtain b ps' t' where set: "prop_set w k s (ps, t) = (b, ps', t')" by (cases "prop_set w k s (ps, t)")
    have "t \<le> t'" "props_times (hr_clock w t') ps'"
      using prop_set_times [OF assms(1) Cons.prems, of k s] set by auto
    then show ?thesis using Cons.IH [of t' ps'] Inr set kv by auto
  qed (use Cons.prems kv in simp)
qed simp

text \<open>The invariant is kept by every operation of the store.\<close>

lemma ghost_times_apply:
  assumes "strict_mono (hr_clock w)" "ghost_times w g"
  shows "ghost_times w (ostate (apply_entity_update w eid j g))"
proof -
  have "ghost_times w (snd (with_props eid (set_items w (json_items j)) g))"
    by (rule with_props_times [OF assms]) (rule set_items_times [OF assms(1)])
  then show ?thesis
    by (simp add: apply_entity_update_def case_prod_unfold Let_def del: fst_with_props split: option.split)
qed

lemma ghost_times_ApplyUpdate:
  assumes "strict_mono (hr_clock w)" "ghost_times w g"
  shows "ghost_times w (ApplyUpdate w s g)"
proof (cases "jparse w s")
  case (Some j)
  have "ghost_times w (ostate (ofold (\<lambda>(eid, ps). apply_entity_update w eid ps) (json_items j) g))"
  proof (rule ofold_invariant)
    show "ghost_times w (ostate ((case x of (eid, ps) \<Rightarrow> apply_entity_update w eid ps) g'))"
      if "ghost_times w g'" for x g'
      using ghost_times_apply [OF assms(1) that] by (cases x) simp
  qed (rule assms(2))
  with Some show ?thesis by (simp add: ApplyUpdate_def apply_items_def)
qed (simp add: ApplyUpdate_def assms(2))

lemma ghost_times_poll:
  assumes "strict_mono (hr_clock w)" "ghost_times w g"
  shows "ghost_times w (snd (PollPropertyUpdate w eid key g))"
  unfolding PollPropertyUpdate_def
proof (rule with_props_times [OF assms])
  fix ps :: properties and t
  assume *: "props_times (hr_clock w t) ps"
  have less: "hr_clock w t < hr_clock w (Suc t)" by (simp add: strict_mono_less [OF assms(1)])
  let ?r = "(case (ps, t) of (ps, t) \<Rightarrow> case prop_get key ps of None \<Rightarrow> (None, ps, t) | Some v \<Rightarrow> (Some v, AcknowledgeSync w key (ps, t)))"
  show "t \<le> snd (snd ?r) \<and> props_times (hr_clock w (snd (snd ?r))) (fst (snd ?r))"
    using * less unfolding props_times_def prop_get_def AcknowledgeSync_def
    by (auto simp: hmap_simps split: option.splits if_splits) (meson order.strict_trans)+
qed

lemma poll_fst: "fst (PollPropertyUpdate w eid key g) = prop_get key (props_of eid g)"
  by (simp add: PollPropertyUpdate_def split: option.splits)

lemma poll_again:
  assumes "ghost_times w g"
  shows "fst (PollPropertyUpdate w eid key (snd (PollPropertyUpdate w eid key g))) = None"
proof -
  have "pr_update p < hr_clock w (hr_reads g)" if "map_of (props_of eid g) key = Some p" for p
    using assms that by (simp add: ghost_times_def)
  then show ?thesis
    unfolding poll_fst
    by (auto simp: PollPropertyUpdate_def prop_get_def AcknowledgeSync_def hmap_simps split: option.splits)
qed



end
