(* ===== verification/Queues.thy ===== *)
theory Queues
  imports Prelude
begin

text \<open>
  The queues between the system and the engine: the task queue of an \<open>Executor\<close>
  (\<open>Executor.hpp\<close>, \<open>Executor.cpp\<close>) and the named task queues of a grape (\<open>Grape.hpp\<close>), whose
  items are tuples of strings stored as \<open>std::any\<close>. Both meet the interface \<open>fifo\<close>: whatever
  the interleaving of pushes and pops, what comes out is what went in, in order.
\<close>

section \<open>Executor\<close>

definition PushTaskToEngine :: "'task \<Rightarrow> 'task list \<Rightarrow> 'task list" where
  "PushTaskToEngine task q = q @ [task]"

definition PollEngineTask :: "'task list \<Rightarrow> 'task option \<times> 'task list" where
  "PollEngineTask q = (case q of [] \<Rightarrow> (None, []) | task # rest \<Rightarrow> (Some task, rest))"

section \<open>Named tasks\<close>

type_synonym named_queues = "(string, string list list) hmap"

definition pushNamedTaskToEngine :: "string \<Rightarrow> string list \<Rightarrow> named_queues \<Rightarrow> named_queues" where
  "pushNamedTaskToEngine name args qs =
     (case map_of qs name of
        Some q \<Rightarrow> hput name (q @ [args]) qs
      | None \<Rightarrow> hput name [args] qs)"

text \<open>
  \<open>popNamedTaskFromEngine<Args...>\<close> for a tuple type of \<open>n\<close> strings: the item leaves the
  queue before \<open>any_cast\<close> checks that it is such a tuple.
\<close>

definition popNamedTaskFromEngine ::
  "nat \<Rightarrow> string \<Rightarrow> named_queues \<Rightarrow> (named_queues, string list option) outcome" where
  "popNamedTaskFromEngine n name qs =
     (case map_of qs name of
        None \<Rightarrow> Ret None qs
      | Some [] \<Rightarrow> Ret None qs
      | Some (args # rest) \<Rightarrow>
          (let qs' = hput name rest qs
           in if length args = n then Ret (Some args) qs' else Raise BadAnyCast qs'))"

text \<open>The items waiting under a name.\<close>

definition waiting :: "string \<Rightarrow> named_queues \<Rightarrow> string list list" where
  "waiting name qs = (case map_of qs name of None \<Rightarrow> [] | Some q \<Rightarrow> q)"

lemma waiting_push:
  "waiting name' (pushNamedTaskToEngine name args qs) =
     (if name' = name then waiting name qs @ [args] else waiting name' qs)"
  by (auto simp: waiting_def pushNamedTaskToEngine_def hmap_simps split: option.splits)

lemma popNamed_empty: "waiting name qs = [] \<Longrightarrow> popNamedTaskFromEngine n name qs = Ret None qs"
  by (auto simp: waiting_def popNamedTaskFromEngine_def split: option.splits list.splits)

lemma popNamed_item:
  assumes "waiting name qs = args # rest"
  shows "\<exists>qs'. popNamedTaskFromEngine n name qs =
      (if length args = n then Ret (Some args) qs' else Raise BadAnyCast qs') \<and>
    (\<forall>name'. waiting name' qs' = (if name' = name then rest else waiting name' qs))"
  using assms
  by (auto simp: waiting_def popNamedTaskFromEngine_def hmap_simps Let_def split: option.splits list.splits)

section \<open>The queue interface\<close>

datatype 'a qop = Push 'a | Pop

text \<open>A run of operations: the items popped, in order, and the final queue.\<close>

fun run_ops :: "('a \<Rightarrow> 'q \<Rightarrow> 'q) \<Rightarrow> ('q \<Rightarrow> 'a option \<times> 'q) \<Rightarrow> 'a qop list \<Rightarrow> 'q \<Rightarrow> 'a list \<times> 'q" where
  "run_ops push pop [] q = ([], q)"
| "run_ops push pop (Push a # ops) q = run_ops push pop ops (push a q)"
| "run_ops push pop (Pop # ops) q =
     (let (r, q1) = pop q; (out, q2) = run_ops push pop ops q1
      in (case r of None \<Rightarrow> out | Some a \<Rightarrow> a # out, q2))"

fun pushed :: "'a qop list \<Rightarrow> 'a list" where
  "pushed [] = []"
| "pushed (Push a # ops) = a # pushed ops"
| "pushed (Pop # ops) = pushed ops"

locale fifo =
  fixes push :: "'a \<Rightarrow> 'q \<Rightarrow> 'q"
    and pop :: "'q \<Rightarrow> 'a option \<times> 'q"
    and contents :: "'q \<Rightarrow> 'a list"
    and item :: "'a \<Rightarrow> bool"
  assumes contents_push: "contents (push a q) = contents q @ [a]"
    and pop_empty: "contents q = [] \<Longrightarrow> fst (pop q) = None \<and> contents (snd (pop q)) = []"
    and pop_item: "contents q = a # as \<Longrightarrow> item a \<Longrightarrow> fst (pop q) = Some a \<and> contents (snd (pop q)) = as"
begin

lemma run_ops_conserve:
  assumes "list_all item (contents q @ pushed ops)" and "run_ops push pop ops q = (out, q')"
  shows "out @ contents q' = contents q @ pushed ops"
  using assms
proof (induction ops arbitrary: q out)
  case (Cons p ops)
  show ?case
  proof (cases p)
    case (Push a)
    with Cons.prems Cons.IH [of "push a q" out] show ?thesis by (simp add: contents_push)
  next
    case Pop
    obtain r q1 out1 where q1: "pop q = (r, q1)" and rest: "run_ops push pop ops q1 = (out1, q')"
      and out: "out = (case r of None \<Rightarrow> out1 | Some a \<Rightarrow> a # out1)"
      using Pop Cons.prems(2) by (auto split: prod.splits)
    show ?thesis
    proof (cases "contents q")
      case Nil
      with q1 have "r = None" "contents q1 = []" using pop_empty [of q] by auto
      with Cons.IH [OF _ rest] Cons.prems(1) Nil Pop out show ?thesis by simp
    next
      case (Cons a as)
      with Cons.prems(1) q1 have "r = Some a" "contents q1 = as" using pop_item [of q a as] by auto
      with Cons.IH [OF _ rest] Cons.prems(1) Cons Pop out show ?thesis by simp
    qed
  qed
qed simp

lemma drain:
  assumes "list_all item (contents q)"
  shows "fst (run_ops push pop (replicate (length (contents q)) Pop) q) = contents q"
  using assms
proof (induction "contents q" arbitrary: q)
  case (Cons a as)
  then have "fst (pop q) = Some a" "contents (snd (pop q)) = as"
    using pop_item [of q a as] by (auto simp flip: Cons.hyps(2))
  moreover have "list_all item as" using Cons.prems by (simp flip: Cons.hyps(2))
  ultimately have "fst (run_ops push pop (replicate (length as) Pop) (snd (pop q))) = as"
    using Cons.hyps(1) [of "snd (pop q)"] by simp
  with \<open>fst (pop q) = Some a\<close> show ?case
    by (simp add: case_prod_unfold Let_def flip: Cons.hyps(2))
qed simp

end

interpretation executor: fifo PushTaskToEngine PollEngineTask "\<lambda>q. q" "\<lambda>_. True"
  by unfold_locales (auto simp: PushTaskToEngine_def PollEngineTask_def)

text \<open>The queue of one name, popped at one tuple type.\<close>

definition popNamed :: "nat \<Rightarrow> string \<Rightarrow> named_queues \<Rightarrow> string list option \<times> named_queues" where
  "popNamed n name qs =
     (case popNamedTaskFromEngine n name qs of Ret r qs' \<Rightarrow> (r, qs') | Raise e qs' \<Rightarrow> (None, qs'))"

interpretation named: fifo "pushNamedTaskToEngine name" "popNamed n name" "waiting name" "\<lambda>args. length args = n"
  for name n
proof unfold_locales
  fix q :: named_queues and a :: "string list" and as
  show "waiting name q = a # as \<Longrightarrow> length a = n \<Longrightarrow>
      fst (popNamed n name q) = Some a \<and> waiting name (snd (popNamed n name q)) = as"
    using popNamed_item [of name q a as n] by (auto simp: popNamed_def)
qed (simp_all add: waiting_push popNamed_def popNamed_empty)

text \<open>However the system's pushes and the engine's polls interleave, an executor hands out every
  task once and in the order of the pushes: the polled tasks followed by the tasks still
  queued are the tasks queued at the start followed by the pushed ones.\<close>
lemma executor_fifo:
  "fst (run_ops PushTaskToEngine PollEngineTask ops q) @ snd (run_ops PushTaskToEngine PollEngineTask ops q) =
     q @ pushed ops"
  by (rule executor.run_ops_conserve [of q ops]) (simp_all add: list_all_iff)

text \<open>The named tasks of a grape are handed to the engine in order and without loss, for each name
  on its own, as long as the engine pops them at the tuple type they were pushed with.\<close>
lemma named_tasks_fifo:
  assumes "list_all (\<lambda>args. length args = n) (waiting name qs @ pushed ops)"
    and "run_ops (pushNamedTaskToEngine name) (popNamed n name) ops qs = (out, qs')"
  shows "out @ waiting name qs' = waiting name qs @ pushed ops"
  using assms by (rule named.run_ops_conserve)

lemma named_tasks_fifo_witness:
  "\<exists>qs'. [[''e1'', ''c'', ''p'']] @ waiting ''proxyTakeAuthority'' qs' =
     [[''e1'', ''c'', ''p''], [''e2'', ''c'', ''p'']]"
proof -
  let ?ops = "[Push [''e1'', ''c'', ''p''], Push [''e2'', ''c'', ''p''], Pop]"
  let ?run = "run_ops (pushNamedTaskToEngine ''proxyTakeAuthority'') (popNamed 3 ''proxyTakeAuthority'') ?ops []"
  have "fst ?run = [[''e1'', ''c'', ''p'']]"
    by (simp add: pushNamedTaskToEngine_def popNamed_def popNamedTaskFromEngine_def)
  then have "?run = ([[''e1'', ''c'', ''p'']], snd ?run)" by (metis prod.collapse)
  from named_tasks_fifo [OF _ this] show ?thesis by (auto simp: waiting_def)
qed

text \<open>A pop at the wrong tuple type throws \<open>bad_any_cast\<close>, and the item it looked at is lost: it
  has left the queue, and the queues of the other names are unchanged.\<close>
lemma named_task_wrong_type:
  assumes "waiting name qs = args # rest" and "length args \<noteq> n"
  shows "\<exists>qs'. popNamedTaskFromEngine n name qs = Raise BadAnyCast qs' \<and>
    waiting name qs' = rest \<and> (\<forall>name'. name' \<noteq> name \<longrightarrow> waiting name' qs' = waiting name' qs)"
  using popNamed_item [OF assms(1), of n] assms(2) by auto

lemma named_task_wrong_type_witness:
  "\<exists>qs'. popNamedTaskFromEngine 3 ''t'' [(''t'', [[''a'']])] = Raise BadAnyCast qs' \<and> waiting ''t'' qs' = []"
proof -
  have "waiting ''t'' [(''t'', [[''a'']])] = [''a''] # []" "length [''a''] \<noteq> (3::nat)"
    by (simp_all add: waiting_def)
  from named_task_wrong_type [OF this] show ?thesis by blast
qed

end
