(* ===== verification/Node.thy ===== *)
theory Node
  imports Rpc Ghost Queues
begin

text \<open>
  The state of one peer: the singletons of the process (\<open>Runtime\<close>, the registries, the ghost
  system, the peer service) as one record \<open>node\<close> that extends the state of the remote
  procedure calls, with the closures of the code as constructors of \<open>task\<close>, \<open>callback\<close> and
  \<open>delegate\<close>. The flag \<open>server_mode\<close> stands for \<open>CELTE_SERVER_MODE_ENABLED\<close>. What the engine
  does inside a hook or a callback is outside: a call of a hook is recorded in \<open>hook_calls\<close>, a
  call of a user function in \<open>user_calls\<close>, and a hook that was not set throws.
\<close>

section \<open>Closures\<close>

text \<open>
  A callback is a user function, the empty lambda, or the lambda of
  \<open>ContainerCreateAndAttach\<close> that pushes a user function to the top executor.
\<close>

datatype callback = NoCallback | UserFn nat | PushTop nat

text \<open>
  The tasks: for the engine (first group), for the compute scheduler (second group) and for the
  I/O scheduler (third group). The arguments are the captured variables.
\<close>

datatype task =
    RunUser nat
  | DeleteAndUnregister string string
  | DeleteHook string string
  | InstantiateEntity string string string json
  | LoadGrapeHook string bool
  | AcceptClientHook string string
  | WaitNetworkReady string callback
  | GrapeReady string bool nat
  | CleanupContainer string
  | LoadEntitiesCall string string
  | DropEntityAt int string string string string
  | SubscribeClientCall string string nat
  | OpenReader string string
  | SubscribeGrapeIO string string
  | UnsubscribeGrapeIO string string
  | SendDeleteIO string string string
  | SubscribeClientIO string string nat
  | UnsubscribeClientIO string string

text \<open>The bound methods that \<open>register_method\<close> stores: the class, the object and the method.\<close>

datatype delegate =
    ContainerMethod string string
  | GrapeMethod string string
  | EntityMethod string string
  | PeerMethod string
  | GlobalMethod

text \<open>The name of \<open>TypeIdentifier<Call##bound_class##method_name>\<close>.\<close>

definition rpc_name :: "string \<Rightarrow> string \<Rightarrow> string" where
  "rpc_name bound_class method_name = bound_class @ ''_call_'' @ method_name"

text \<open>The hooks of \<open>HookTable\<close> that start as \<open>UNIMPLEMENTED\<close>.\<close>

datatype hook =
    OnServerReceivedInitializationPayload | OnGetClientInitialGrape | OnAcceptNewClient
  | OnClientRequestDisconnect | OnClientNotSeen | OnClientDisconnect | OnLoadGrape
  | OnConnectionFailed | OnConnectionSuccess | OnInstantiateEntity | OnDeleteEntity

section \<open>The registered objects\<close>

text \<open>One input of a player: the two floats are carried as raw values.\<close>

record input_data =
  in_status :: bool
  in_time :: int
  in_x :: int
  in_y :: int

record entity =
  et_id :: string
  et_owner :: string
  et_quarantine :: bool
  et_valid :: bool
  et_tasks :: "task list"
  et_native :: "nat option"
  et_payload :: string
  et_inputs :: "(string, input_data list) hmap"
  et_rpcs :: "(string, nat) hmap"

definition new_entity :: "string \<Rightarrow> string \<Rightarrow> entity" where
  "new_entity eid owner =
     \<lparr>et_id = eid, et_owner = owner, et_quarantine = False, et_valid = True, et_tasks = [],
      et_native = None, et_payload = [], et_inputs = [], et_rpcs = []\<rparr>"

text \<open>
  A container with the reference count of its cell. Its reader streams are their topics, with
  whether the subscription has succeeded; \<open>ct_replws\<close> is the topic of the replication writer.
\<close>

record container =
  ct_id :: string
  ct_refs :: int
  ct_local :: bool
  ct_owned :: "string list"
  ct_replws :: "string option"
  ct_readers :: "(string \<times> bool) list"

record grape =
  gr_id :: string
  gr_local :: bool
  gr_tasks :: "task list"
  gr_subs :: "string list"
  gr_owned :: "(string, nat option) hmap"
  gr_proxy :: "string list"
  gr_named :: named_queues
  gr_rpcs :: "(string, nat) hmap"

definition empty_grape :: grape where
  "empty_grape =
     \<lparr>gr_id = [], gr_local = False, gr_tasks = [], gr_subs = [], gr_owned = [], gr_proxy = [],
      gr_named = [], gr_rpcs = []\<rparr>"

record client_data =
  cd_id :: string
  cd_last_seen :: int
  cd_local :: bool
  cd_grape :: string
  cd_subs :: "string list"

section \<open>The node\<close>

text \<open>
  \<open>client_subs\<close> is the subscription component of a client's peer service. \<open>trash\<close> holds the
  containers whose cleanup is pending. \<open>packets\<close> are the replication packets written, with
  their topic, \<open>inputs_sent\<close> the inputs handed to the writer pool.
\<close>

record node = "delegate rpc" +
  server_mode :: bool
  assigned_grape :: string
  ghosts :: ghost
  entities :: "(string, entity) hmap"
  containers :: "(string, container) hmap"
  grapes :: "(string, grape) hmap"
  clients :: "(string, client_data) hmap"
  client_subs :: "string list"
  peer_rpcs :: "(string, nat) hmap"
  global_rpcs :: "(string, nat) hmap"
  top_tasks :: "task list"
  async_tasks :: "task list"
  io_tasks :: "task list"
  trash :: "container list"
  hooks_set :: "hook list"
  hook_calls :: "(hook \<times> string list) list"
  user_calls :: "nat list"
  rpc_calls :: "(nat \<times> string) list"
  packets :: "(string \<times> string) list"
  inputs_sent :: "(string \<times> string \<times> string \<times> bool \<times> int \<times> int) list"
  tick_value :: int
  tick_local :: int

definition new_node :: "bool \<Rightarrow> string \<Rightarrow> string \<Rightarrow> hook list \<Rightarrow> node" where
  "new_node server scope uuid hs =
     rpc.extend (new_rpc scope uuid)
       \<lparr>server_mode = server, assigned_grape = [], ghosts = new_ghost, entities = [],
        containers = [], grapes = [], clients = [], client_subs = [], peer_rpcs = [],
        global_rpcs = [], top_tasks = [], async_tasks = [], io_tasks = [], trash = [],
        hooks_set = hs, hook_calls = [], user_calls = [], rpc_calls = [], packets = [],
        inputs_sent = [], tick_value = 0, tick_local = 0\<rparr>"

type_synonym 'a op = "node \<Rightarrow> (node, 'a) outcome"

section \<open>Queues, hooks and callbacks\<close>

definition push_top :: "task \<Rightarrow> node \<Rightarrow> node" where
  "push_top t s = s\<lparr>top_tasks := PushTaskToEngine t (top_tasks s)\<rparr>"

definition ScheduleAsyncTask :: "task \<Rightarrow> node \<Rightarrow> node" where
  "ScheduleAsyncTask t s = s\<lparr>async_tasks := async_tasks s @ [t]\<rparr>"

definition ScheduleAsyncIOTask :: "task \<Rightarrow> node \<Rightarrow> node" where
  "ScheduleAsyncIOTask t s = s\<lparr>io_tasks := io_tasks s @ [t]\<rparr>"

definition call_hook :: "hook \<Rightarrow> string list \<Rightarrow> unit op" where
  "call_hook h args s =
     (if h \<in> set (hooks_set s) then Ret () (s\<lparr>hook_calls := hook_calls s @ [(h, args)]\<rparr>)
      else Raise (RuntimeError ''Missing hook'') s)"

definition run_callback :: "callback \<Rightarrow> node \<Rightarrow> node" where
  "run_callback c s =
     (case c of
        NoCallback \<Rightarrow> s
      | UserFn n \<Rightarrow> s\<lparr>user_calls := user_calls s @ [n]\<rparr>
      | PushTop n \<Rightarrow> push_top (RunUser n) s)"

text \<open>\<open>CustomRPCTemplate::RegisterRPC\<close> and \<open>Handler\<close>, on the map of one object.\<close>

definition RegisterRPC :: "string \<Rightarrow> nat \<Rightarrow> (string, nat) hmap \<Rightarrow> (string, nat) hmap" where
  "RegisterRPC name f m = (if map_of m name \<noteq> None then m else omap_put name f m)"

definition Handler :: "string \<Rightarrow> string \<Rightarrow> (string, nat) hmap \<Rightarrow> node \<Rightarrow> node" where
  "Handler name args m s =
     (case map_of m name of
        None \<Rightarrow> s
      | Some f \<Rightarrow> s\<lparr>rpc_calls := rpc_calls s @ [(f, args)]\<rparr>)"

section \<open>The clock of the cluster\<close>

text \<open>\<open>Clock::GetUnifiedTime\<close> and the handler of a clock tick; times count nanoseconds.\<close>

definition GetUnifiedTime :: "world \<Rightarrow> node \<Rightarrow> int \<times> node" where
  "GetUnifiedTime w s =
     (let (now, s1) = read_sys w s in (tick_value s + (now - tick_local s), s1))"

definition updateCurrentTime :: "world \<Rightarrow> int \<Rightarrow> node \<Rightarrow> node" where
  "updateCurrentTime w tick_ms s =
     (let (now, s1) = read_sys w s
      in s1\<lparr>tick_value := tick_ms * 1000000, tick_local := now\<rparr>)"

section \<open>Lookups shared by the registries\<close>

definition ContainerIsLocallyOwned :: "string \<Rightarrow> node \<Rightarrow> bool" where
  "ContainerIsLocallyOwned cid s =
     (case map_of (containers s) cid of None \<Rightarrow> False | Some c \<Rightarrow> ct_local c)"

definition ContainerExists :: "string \<Rightarrow> node \<Rightarrow> bool" where
  "ContainerExists cid s = hcontains (containers s) cid"

definition GetEntityOwnerContainer :: "string \<Rightarrow> node \<Rightarrow> string" where
  "GetEntityOwnerContainer eid s =
     (case map_of (entities s) eid of None \<Rightarrow> [] | Some e \<Rightarrow> et_owner e)"

text \<open>\<open>RunWithLock\<close> with an update of the object only.\<close>

definition update_entity :: "string \<Rightarrow> (entity \<Rightarrow> entity) \<Rightarrow> node \<Rightarrow> node" where
  "update_entity eid f s = s\<lparr>entities := hmodify eid f (entities s)\<rparr>"

definition update_container :: "string \<Rightarrow> (container \<Rightarrow> container) \<Rightarrow> node \<Rightarrow> node" where
  "update_container cid f s = s\<lparr>containers := hmodify cid f (containers s)\<rparr>"

definition update_grape :: "string \<Rightarrow> (grape \<Rightarrow> grape) \<Rightarrow> node \<Rightarrow> node" where
  "update_grape gid f s = s\<lparr>grapes := hmodify gid f (grapes s)\<rparr>"

definition update_client :: "string \<Rightarrow> (client_data \<Rightarrow> client_data) \<Rightarrow> node \<Rightarrow> node" where
  "update_client cid f s = s\<lparr>clients := hmodify cid f (clients s)\<rparr>"

interpretation entity_registry: registry entities update_entity
  by unfold_locales (simp add: update_entity_def)

interpretation container_registry: registry containers update_container
  by unfold_locales (simp add: update_container_def)

interpretation grape_registry: registry grapes update_grape
  by unfold_locales (simp add: update_grape_def)

interpretation client_registry: registry clients update_client
  by unfold_locales (simp add: update_client_def)

lemmas registry_lookups [simp] =
  entity_registry.lookup_update container_registry.lookup_update
  grape_registry.lookup_update client_registry.lookup_update

lemmas registry_contains [simp] =
  entity_registry.contains_update container_registry.contains_update
  grape_registry.contains_update client_registry.contains_update

section \<open>Frames\<close>

text \<open>The registration of remote methods changes only the callee stub.\<close>

lemma register_method_frame [simp]:
  "entities (register_method t m d s) = entities s"
  "containers (register_method t m d s) = containers s"
  "grapes (register_method t m d s) = grapes s"
  "clients (register_method t m d s) = clients s"
  "client_subs (register_method t m d s) = client_subs s"
  "ghosts (register_method t m d s) = ghosts s"
  "server_mode (register_method t m d s) = server_mode s"
  "assigned_grape (register_method t m d s) = assigned_grape s"
  "hooks_set (register_method t m d s) = hooks_set s"
  "hook_calls (register_method t m d s) = hook_calls s"
  "user_calls (register_method t m d s) = user_calls s"
  "top_tasks (register_method t m d s) = top_tasks s"
  "async_tasks (register_method t m d s) = async_tasks s"
  "io_tasks (register_method t m d s) = io_tasks s"
  "trash (register_method t m d s) = trash s"
  "packets (register_method t m d s) = packets s"
  "errors (register_method t m d s) = errors s"
  "topic_scope (register_method t m d s) = topic_scope s"
  "peer_uuid (register_method t m d s) = peer_uuid s"
  "wire (register_method t m d s) = wire s"
  "handled (register_method t m d s) = handled s"
  by (simp_all add: register_method_def split: option.splits)

lemma fold_register_frame [simp]:
  "entities (fold (\<lambda>m. register_method t (f m) (g m)) ms s) = entities s"
  "containers (fold (\<lambda>m. register_method t (f m) (g m)) ms s) = containers s"
  "grapes (fold (\<lambda>m. register_method t (f m) (g m)) ms s) = grapes s"
  "clients (fold (\<lambda>m. register_method t (f m) (g m)) ms s) = clients s"
  "client_subs (fold (\<lambda>m. register_method t (f m) (g m)) ms s) = client_subs s"
  "ghosts (fold (\<lambda>m. register_method t (f m) (g m)) ms s) = ghosts s"
  "server_mode (fold (\<lambda>m. register_method t (f m) (g m)) ms s) = server_mode s"
  "assigned_grape (fold (\<lambda>m. register_method t (f m) (g m)) ms s) = assigned_grape s"
  "hooks_set (fold (\<lambda>m. register_method t (f m) (g m)) ms s) = hooks_set s"
  "hook_calls (fold (\<lambda>m. register_method t (f m) (g m)) ms s) = hook_calls s"
  "user_calls (fold (\<lambda>m. register_method t (f m) (g m)) ms s) = user_calls s"
  "top_tasks (fold (\<lambda>m. register_method t (f m) (g m)) ms s) = top_tasks s"
  "async_tasks (fold (\<lambda>m. register_method t (f m) (g m)) ms s) = async_tasks s"
  "io_tasks (fold (\<lambda>m. register_method t (f m) (g m)) ms s) = io_tasks s"
  "trash (fold (\<lambda>m. register_method t (f m) (g m)) ms s) = trash s"
  "packets (fold (\<lambda>m. register_method t (f m) (g m)) ms s) = packets s"
  "errors (fold (\<lambda>m. register_method t (f m) (g m)) ms s) = errors s"
  "topic_scope (fold (\<lambda>m. register_method t (f m) (g m)) ms s) = topic_scope s"
  "peer_uuid (fold (\<lambda>m. register_method t (f m) (g m)) ms s) = peer_uuid s"
  "wire (fold (\<lambda>m. register_method t (f m) (g m)) ms s) = wire s"
  "handled (fold (\<lambda>m. register_method t (f m) (g m)) ms s) = handled s"
  by (induction ms arbitrary: s; simp)+

text \<open>An operation of the stubs alone leaves every part of the node that extends them.\<close>

lemma node_more:
  fixes s s' :: node
  assumes "rpc.more s' = rpc.more s"
  shows "server_mode s' = server_mode s" "assigned_grape s' = assigned_grape s" "ghosts s' = ghosts s"
    "entities s' = entities s" "containers s' = containers s" "grapes s' = grapes s" "clients s' = clients s"
    "client_subs s' = client_subs s" "top_tasks s' = top_tasks s" "async_tasks s' = async_tasks s"
    "io_tasks s' = io_tasks s" "trash s' = trash s" "hooks_set s' = hooks_set s" "hook_calls s' = hook_calls s"
    "user_calls s' = user_calls s" "packets s' = packets s"
  using assms by (cases s; cases s'; simp)+

end
