(* ===== verification/Entities.thy ===== *)
theory Entities
  imports Node
begin

text \<open>
  The entity registry (\<open>ETTRegistry\<close>), the inputs of the players (\<open>CelteInputSystem\<close>) and the
  operations of the ghost system that depend on who owns an entity. An entity has one owner
  container at a time; an entity that is valid cannot be unregistered; deletion goes through
  a task for the engine.
\<close>

section \<open>Registration\<close>

text \<open>\<open>Entity::initRPCService\<close>.\<close>

definition entity_initRPCService :: "entity \<Rightarrow> node \<Rightarrow> node" where
  "entity_initRPCService e s =
     (let m = rpc_name ''Entity'' ''RPCHandler''; d = EntityMethod (et_id e) ''RPCHandler'';
          s1 = (if server_mode s \<and> ContainerIsLocallyOwned (et_owner e) s
                then register_method (tp_peer (topic_scope s) (et_id e)) m d s else s)
      in register_method (tp_rpc (topic_scope s) (et_id e)) m d s1)"

definition RegisterEntity :: "entity \<Rightarrow> unit op" where
  "RegisterEntity e s =
     (if map_of (entities s) (et_id e) = None
      then Ret () (entity_initRPCService e (s\<lparr>entities := hput (et_id e) e (entities s)\<rparr>))
      else Raise (ETTAlreadyRegistered (et_id e)) s)"

definition UnregisterEntity :: "string \<Rightarrow> unit op" where
  "UnregisterEntity eid s =
     (case map_of (entities s) eid of
        None \<Rightarrow> Ret () s
      | Some e \<Rightarrow>
          if et_valid e
          then Raise (RuntimeError ''Cannot unregister a valid entity as it is still in use.'') s
          else Ret () (s\<lparr>entities := herase eid (entities s), ghosts := TryRemoveEntity eid (ghosts s)\<rparr>))"

definition IsEntityRegistered :: "string \<Rightarrow> node \<Rightarrow> bool" where
  "IsEntityRegistered eid s = hcontains (entities s) eid"

definition entities_Clear :: "node \<Rightarrow> node" where
  "entities_Clear s = s\<lparr>entities := []\<rparr>"

section \<open>Tasks and attributes of an entity\<close>

definition entity_PushTaskToEngine :: "string \<Rightarrow> task \<Rightarrow> node \<Rightarrow> node" where
  "entity_PushTaskToEngine eid t = update_entity eid (\<lambda>e. e\<lparr>et_tasks := PushTaskToEngine t (et_tasks e)\<rparr>)"

definition entity_PollEngineTask :: "string \<Rightarrow> node \<Rightarrow> task option \<times> node" where
  "entity_PollEngineTask eid s =
     (case map_of (entities s) eid of
        None \<Rightarrow> (None, s)
      | Some e \<Rightarrow> (let (t, q) = PollEngineTask (et_tasks e) in (t, update_entity eid (\<lambda>e. e\<lparr>et_tasks := q\<rparr>) s)))"

definition SetEntityOwnerContainer :: "string \<Rightarrow> string \<Rightarrow> node \<Rightarrow> node" where
  "SetEntityOwnerContainer eid owner = update_entity eid (\<lambda>e. e\<lparr>et_owner := owner\<rparr>)"

definition IsEntityQuarantined :: "string \<Rightarrow> node \<Rightarrow> bool" where
  "IsEntityQuarantined eid s = (case map_of (entities s) eid of None \<Rightarrow> False | Some e \<Rightarrow> et_quarantine e)"

definition SetEntityQuarantined :: "string \<Rightarrow> bool \<Rightarrow> node \<Rightarrow> node" where
  "SetEntityQuarantined eid b = update_entity eid (\<lambda>e. e\<lparr>et_quarantine := b\<rparr>)"

definition IsEntityLocallyOwned :: "string \<Rightarrow> node \<Rightarrow> bool" where
  "IsEntityLocallyOwned eid s =
     (if server_mode s then ContainerIsLocallyOwned (GetEntityOwnerContainer eid s) s else False)"

definition IsEntityValid :: "string \<Rightarrow> node \<Rightarrow> bool" where
  "IsEntityValid eid s = (case map_of (entities s) eid of None \<Rightarrow> False | Some e \<Rightarrow> et_valid e)"

definition SetEntityValid :: "string \<Rightarrow> bool \<Rightarrow> node \<Rightarrow> node" where
  "SetEntityValid eid b = update_entity eid (\<lambda>e. e\<lparr>et_valid := b\<rparr>)"

definition SetEntityNativeHandle :: "string \<Rightarrow> nat \<Rightarrow> node \<Rightarrow> node" where
  "SetEntityNativeHandle eid h = update_entity eid (\<lambda>e. e\<lparr>et_native := Some h\<rparr>)"

text \<open>The handle of a known entity is itself optional; the code returns it as it is.\<close>

definition GetEntityNativeHandle :: "string \<Rightarrow> node \<Rightarrow> nat option" where
  "GetEntityNativeHandle eid s = (case map_of (entities s) eid of None \<Rightarrow> None | Some e \<Rightarrow> et_native e)"

definition RemoveOwnedEntityFromContainer :: "string \<Rightarrow> string \<Rightarrow> node \<Rightarrow> node" where
  "RemoveOwnedEntityFromContainer cid eid =
     update_container cid (\<lambda>c. c\<lparr>ct_owned := oset_erase eid (ct_owned c)\<rparr>)"

definition ForgetEntityNativeHandle :: "string \<Rightarrow> node \<Rightarrow> node" where
  "ForgetEntityNativeHandle eid s =
     (let s1 = (if server_mode s
                then RemoveOwnedEntityFromContainer (GetEntityOwnerContainer eid s) eid s else s)
      in update_entity eid (\<lambda>e. e\<lparr>et_native := None\<rparr>) s1)"

definition SaveEntityPayload :: "string \<Rightarrow> string \<Rightarrow> node \<Rightarrow> bool \<times> node" where
  "SaveEntityPayload eid payload s =
     (if map_of (entities s) eid = None then (False, s)
      else (True, update_entity eid (\<lambda>e. e\<lparr>et_payload := payload\<rparr>) s))"

definition GetEntityPayload :: "string \<Rightarrow> node \<Rightarrow> string option" where
  "GetEntityPayload eid s = map_option et_payload (map_of (entities s) eid)"

section \<open>Instantiation\<close>

definition EngineCallInstantiate :: "string \<Rightarrow> string \<Rightarrow> string \<Rightarrow> unit op" where
  "EngineCallInstantiate eid payload owner s =
     (case RegisterEntity (new_entity eid owner) s of
        Ret _ s1 \<Rightarrow> call_hook OnInstantiateEntity [eid, payload] s1
      | Raise e s1 \<Rightarrow> Ret () (update_entity eid (\<lambda>e. e\<lparr>et_owner := owner\<rparr>) s1))"

definition lift_ghost :: "(ghost, unit) outcome \<Rightarrow> unit op" where
  "lift_ghost r s =
     (case r of Ret _ g \<Rightarrow> Ret () (s\<lparr>ghosts := g\<rparr>) | Raise e g \<Rightarrow> Raise e (s\<lparr>ghosts := g\<rparr>))"

text \<open>
  The snapshot of the entities of a container that a server sends, and what a peer does with
  it: \<open>GetExistingEntities\<close> and the callback of \<open>LoadExistingEntities\<close>.
\<close>

definition entity_snapshot :: "world \<Rightarrow> string \<Rightarrow> node \<Rightarrow> string \<times> node" where
  "entity_snapshot w eid s =
     (let payload = (case GetEntityPayload eid s of None \<Rightarrow> ''{}'' | Some p \<Rightarrow> p);
          (props, g) = PeekProperties eid (ghosts s);
          ghost = (case props of None \<Rightarrow> JObj [] | Some j \<Rightarrow> j)
      in (jdump w (JObj (omap_put ''ghost'' ghost (omap_put ''payload'' (JStr payload) []))), s\<lparr>ghosts := g\<rparr>))"

definition GetExistingEntities :: "world \<Rightarrow> string \<Rightarrow> node \<Rightarrow> (string, string) hmap \<times> node" where
  "GetExistingEntities w cid s =
     fold (\<lambda>(eid, e) (etts, s).
             if et_owner e = cid
             then (let (data, s1) = entity_snapshot w eid s in (omap_insert eid data etts, s1))
             else (etts, s))
       (entities s) ([], s)"

definition LoadExistingEntities :: "string \<Rightarrow> string \<Rightarrow> node \<Rightarrow> node" where
  "LoadExistingEntities gid cid = ScheduleAsyncTask (LoadEntitiesCall gid cid)"

definition load_entity :: "world \<Rightarrow> string \<Rightarrow> string \<Rightarrow> string \<Rightarrow> unit op" where
  "load_entity w cid eid data s =
     (case jparse w data of
        None \<Rightarrow> Raise (JsonError (parse_error w data)) s
      | Some j \<Rightarrow>
          (case json_get_string j ''payload'' of
             Inl e \<Rightarrow> Raise e s
           | Inr payload \<Rightarrow>
               (case json_at j ''ghost'' of
                  Inl e \<Rightarrow> Raise e s
                | Inr ghost \<Rightarrow>
                    obind (lift_ghost (apply_entity_update w eid ghost (ghosts s)) s)
                      (\<lambda>_. EngineCallInstantiate eid payload cid))))"

definition load_entities :: "world \<Rightarrow> string \<Rightarrow> (string, string) hmap \<Rightarrow> unit op" where
  "load_entities w cid etts s =
     ofold (\<lambda>(eid, data) s. ocatch (load_entity w cid eid data s)
              (\<lambda>e s. Ret () (log_error (''Error while loading entity '' @ eid @ '': '' @ exn_what e) s)))
       etts s"

section \<open>Deletion\<close>

definition fire_log_error ::
  "world \<Rightarrow> string \<times> bool \<Rightarrow> string \<Rightarrow> string list \<Rightarrow> unit op" where
  "fire_log_error w to name args s =
     builder_fire w (on_fail FailLogError (builder_for to)) name (map JStr args) s"

definition SendEntityDeleteOrder :: "string \<Rightarrow> node \<Rightarrow> node" where
  "SendEntityDeleteOrder eid s =
     (case map_of (entities s) eid of
        None \<Rightarrow> s
      | Some e \<Rightarrow>
          if \<not> et_valid e then s
          else
            (let s1 = update_entity eid (\<lambda>e. e\<lparr>et_quarantine := True, et_valid := False\<rparr>) s
             in case map_of (containers s1) (et_owner e) of
                  None \<Rightarrow> s1
                | Some c \<Rightarrow>
                    if \<not> ct_local c then s1
                    else ScheduleAsyncIOTask (SendDeleteIO eid (et_owner e) (et_payload e)) s1))"

definition send_delete_io :: "world \<Rightarrow> string \<Rightarrow> string \<Rightarrow> string \<Rightarrow> unit op" where
  "send_delete_io w eid owner payload s =
     fire_log_error w (on_scope (topic_scope s) owner) (rpc_name ''Container'' ''DeleteEntity'') [eid, payload] s"

text \<open>
  \<open>DeleteEntitiesInContainer\<close>: the loop that pushes the deletion tasks is inside the loop over
  the entities, so it runs once per registered entity on all that was collected so far.
\<close>

fun delete_loop :: "string \<Rightarrow> string list \<Rightarrow> (string, string) hmap \<Rightarrow> node \<Rightarrow> node" where
  "delete_loop cid [] toDelete s = s"
| "delete_loop cid (eid # eids) toDelete s =
     (let (toDelete1, s1) =
            (case map_of (entities s) eid of
               None \<Rightarrow> (toDelete, s)
             | Some e \<Rightarrow>
                 if et_owner e = cid
                 then (omap_insert eid (et_payload e) toDelete,
                       update_entity eid (\<lambda>e. e\<lparr>et_valid := False, et_quarantine := True\<rparr>) s)
                 else (toDelete, s));
          s2 = fold (\<lambda>(i, payload). push_top (DeleteAndUnregister i payload)) toDelete1 s1
      in delete_loop cid eids toDelete1 s2)"

definition DeleteEntitiesInContainer :: "string \<Rightarrow> node \<Rightarrow> node" where
  "DeleteEntitiesInContainer cid s = delete_loop cid (hkeys (entities s)) [] s"

text \<open>The deletion task: the hook first, then the registry.\<close>

definition delete_and_unregister :: "string \<Rightarrow> string \<Rightarrow> unit op" where
  "delete_and_unregister eid payload s =
     obind (call_hook OnDeleteEntity [eid, payload] s) (\<lambda>_. UnregisterEntity eid)"

section \<open>Inputs\<close>

definition input_capacity :: nat where
  "input_capacity = 10"

text \<open>\<open>push_back\<close> on a full \<open>boost::circular_buffer\<close> overwrites the oldest element.\<close>

definition ring_push :: "'a \<Rightarrow> 'a list \<Rightarrow> 'a list" where
  "ring_push x xs = (let ys = xs @ [x] in drop (length ys - input_capacity) ys)"

text \<open>\<open>HandleInput\<close> reads the clock twice and stores the second value.\<close>

definition HandleInput :: "world \<Rightarrow> string \<Rightarrow> string \<Rightarrow> bool \<Rightarrow> int \<Rightarrow> int \<Rightarrow> node \<Rightarrow> node" where
  "HandleInput w uuid name status x y s =
     (case map_of (entities s) uuid of
        None \<Rightarrow> s
      | Some e \<Rightarrow>
          (let (_, s1) = read_sys w s; (now, s2) = read_sys w s1;
               old = (case map_of (et_inputs e) name of None \<Rightarrow> [] | Some b \<Rightarrow> b);
               new = ring_push \<lparr>in_status = status, in_time = now, in_x = x, in_y = y\<rparr> old
           in update_entity uuid (\<lambda>e. e\<lparr>et_inputs := omap_put name new (et_inputs e)\<rparr>) s2))"

definition GetEntityCircularBuf :: "string \<Rightarrow> string \<Rightarrow> node \<Rightarrow> input_data list option" where
  "GetEntityCircularBuf eid name s =
     (case map_of (entities s) eid of None \<Rightarrow> None | Some e \<Rightarrow> map_of (et_inputs e) name)"

definition GetSpecificInput :: "string \<Rightarrow> string \<Rightarrow> int \<Rightarrow> node \<Rightarrow> input_data option" where
  "GetSpecificInput eid name i s =
     (case map_of (entities s) eid of
        None \<Rightarrow> None
      | Some e \<Rightarrow>
          (case map_of (et_inputs e) name of
             None \<Rightarrow> None
           | Some b \<Rightarrow> if 0 \<le> i \<and> nat i < length b then Some (b ! nat i) else None))"

definition UploadInputData :: "string \<Rightarrow> string \<Rightarrow> bool \<Rightarrow> int \<Rightarrow> int \<Rightarrow> node \<Rightarrow> node" where
  "UploadInputData uuid name pressed x y s =
     (let owner = GetEntityOwnerContainer uuid s
      in if owner = [] then s
         else s\<lparr>inputs_sent := inputs_sent s @ [(tp_input (topic_scope s) owner, name, uuid, pressed, x, y)]\<rparr>)"

section \<open>Ghost properties of owned entities\<close>

definition UpdatePropertyState :: "world \<Rightarrow> string \<Rightarrow> string \<Rightarrow> string \<Rightarrow> unit op" where
  "UpdatePropertyState w eid key v s =
     (let cid = GetEntityOwnerContainer eid s
      in if cid = [] \<or> \<not> ContainerIsLocallyOwned cid s then Ret () s
         else lift_ghost (set_owned w cid eid key v (ghosts s)) s)"

text \<open>
  \<open>ReplicateData\<close>, for a container whose writer stream has its producer: a container that is
  absent, or that has no writer stream, drops the data.
\<close>

definition ReplicateData :: "string \<Rightarrow> string \<Rightarrow> node \<Rightarrow> node" where
  "ReplicateData cid data s =
     (case map_of (containers s) cid of
        None \<Rightarrow> s
      | Some c \<Rightarrow>
          (case ct_replws c of
             None \<Rightarrow> s
           | Some topic \<Rightarrow> s\<lparr>packets := packets s @ [(topic, data)]\<rparr>))"

text \<open>One round of the replication upload worker.\<close>

definition upload_round :: "world \<Rightarrow> node \<Rightarrow> node" where
  "upload_round w s =
     (let (update, g) = FetchNextUpdate (ghosts s)
      in fold (\<lambda>(cid, data). ReplicateData cid data) (ProcessUpdate w update) (s\<lparr>ghosts := g\<rparr>))"

definition HandleReplicationPacket :: "world \<Rightarrow> string \<Rightarrow> node \<Rightarrow> node" where
  "HandleReplicationPacket w data s = s\<lparr>ghosts := ApplyUpdate w data (ghosts s)\<rparr>"

section \<open>Deletion of the entities of a container\<close>

definition is_delete_of :: "string \<Rightarrow> task \<Rightarrow> bool" where
  "is_delete_of eid t \<longleftrightarrow> (case t of DeleteAndUnregister i _ \<Rightarrow> i = eid | _ \<Rightarrow> False)"

definition delete_tasks :: "string \<Rightarrow> node \<Rightarrow> nat" where
  "delete_tasks eid s = length (filter (is_delete_of eid) (top_tasks s))"

lemma push_deletes:
  "fold (\<lambda>(i, payload). push_top (DeleteAndUnregister i payload)) td s =
     s\<lparr>top_tasks := top_tasks s @ map (\<lambda>(i, payload). DeleteAndUnregister i payload) td\<rparr>"
proof (induction td arbitrary: s)
  case (Cons x td)
  then show ?case by (cases x) (simp add: push_top_def PushTaskToEngine_def)
qed simp

lemma one_key:
  "distinct (map fst td) \<Longrightarrow> length (filter (\<lambda>x. fst x = k) td) = (if k \<in> fst ` set td then 1 else 0)"
proof (induction td)
  case (Cons x td)
  show ?case
  proof (cases "fst x = k")
    case True
    then have "filter (\<lambda>x. fst x = k) td = []" using Cons.prems by (auto simp: filter_empty_conv) (metis fst_conv image_eqI)
    with True show ?thesis by simp
  qed (use Cons in auto)
qed simp

lemma delete_tasks_push:
  assumes "distinct (map fst td)"
  shows "delete_tasks eid (s\<lparr>top_tasks := top_tasks s @ map (\<lambda>(i, payload). DeleteAndUnregister i payload) td\<rparr>) =
    delete_tasks eid s + (if eid \<in> fst ` set td then 1 else 0)"
proof -
  have "length (filter (is_delete_of eid) (map (\<lambda>(i, payload). DeleteAndUnregister i payload) td)) =
      (if eid \<in> fst ` set td then 1 else 0)"
    using one_key [OF assms, of eid]
    by (simp add: filter_map comp_def is_delete_of_def case_prod_unfold)
  then show ?thesis by (simp add: delete_tasks_def)
qed

definition mark_deleted :: "entity \<Rightarrow> entity" where
  "mark_deleted e = e\<lparr>et_valid := False, et_quarantine := True\<rparr>"

lemma sorted_omap_insert: "sorted_wrt (<) (hkeys m) \<Longrightarrow> sorted_wrt (<) (hkeys (omap_insert k v m))"
  by (simp add: omap_insert_def)

lemma dom_omap_insert: "fst ` set (omap_insert k v m) = insert k (fst ` set m)"
  by (auto simp: omap_insert_def dest: map_of_in_hkeys split: if_splits)

text \<open>One round of the loop: the entity is marked, and every entity collected so far gets a task.\<close>

lemma delete_loop_Cons:
  "delete_loop cid (eid # eids) td s =
     (let own = (case map_of (entities s) eid of None \<Rightarrow> False | Some e \<Rightarrow> et_owner e = cid);
          td1 = (if own then omap_insert eid (et_payload (the (map_of (entities s) eid))) td else td);
          s1 = (if own then update_entity eid mark_deleted s else s)
      in delete_loop cid eids td1
           (s1\<lparr>top_tasks := top_tasks s1 @ map (\<lambda>(i, payload). DeleteAndUnregister i payload) td1\<rparr>))"
  by (simp add: push_deletes mark_deleted_def [abs_def] Let_def split: option.splits)

declare delete_loop.simps(2) [simp del]

lemma delete_loop_frame:
  "containers (delete_loop cid eids td s) = containers s \<and> grapes (delete_loop cid eids td s) = grapes s \<and>
   client_subs (delete_loop cid eids td s) = client_subs s \<and> server_mode (delete_loop cid eids td s) = server_mode s \<and>
   async_tasks (delete_loop cid eids td s) = async_tasks s \<and> trash (delete_loop cid eids td s) = trash s"
proof (induction eids arbitrary: td s)
  case (Cons eid eids)
  then show ?case by (simp add: delete_loop_Cons Let_def update_entity_def)
qed simp

lemma delete_loop_assigned: "assigned_grape (delete_loop cid eids td s) = assigned_grape s"
proof (induction eids arbitrary: td s)
  case (Cons eid eids)
  then show ?case by (simp add: delete_loop_Cons Let_def update_entity_def)
qed simp

lemma delete_loop_entities:
  "map_of (entities (delete_loop cid eids td s)) i =
     map_option (\<lambda>e. if i \<in> set eids \<and> et_owner e = cid then mark_deleted e else e) (map_of (entities s) i)"
proof (induction eids arbitrary: td s)
  case (Cons eid eids)
  then show ?case
    by (auto simp: delete_loop_Cons Let_def mark_deleted_def split: option.splits)
qed (simp add: option.map_ident)

lemma delete_loop_collected:
  assumes "sorted_wrt (<) (hkeys td)" "eid \<in> fst ` set td"
  shows "delete_tasks eid (delete_loop cid eids td s) = delete_tasks eid s + length eids"
  using assms
proof (induction eids arbitrary: td s)
  case (Cons i eids)
  let ?own = "case map_of (entities s) i of None \<Rightarrow> False | Some e \<Rightarrow> et_owner e = cid"
  define td1 where "td1 = (if ?own then omap_insert i (et_payload (the (map_of (entities s) i))) td else td)"
  define s1 where "s1 = (if ?own then update_entity i mark_deleted s else s)"
  have td1: "sorted_wrt (<) (hkeys td1)" "eid \<in> fst ` set td1"
    using Cons.prems by (auto simp: td1_def sorted_omap_insert dom_omap_insert)
  have "top_tasks s1 = top_tasks s" by (simp add: s1_def update_entity_def)
  then have "delete_tasks eid s1 = delete_tasks eid s" by (simp add: delete_tasks_def)
  then show ?case
    using Cons.IH [OF td1] td1 delete_tasks_push [OF sorted_keys_distinct [OF td1(1)], of eid s1]
    by (simp add: delete_loop_Cons Let_def flip: td1_def s1_def)
qed simp

lemma delete_loop_skip:
  assumes "sorted_wrt (<) (hkeys td)" "eid \<notin> fst ` set td" "eid \<notin> set eids"
  shows "\<exists>td' s'. delete_loop cid (eids @ rest) td s = delete_loop cid rest td' s' \<and>
    sorted_wrt (<) (hkeys td') \<and> eid \<notin> fst ` set td' \<and> delete_tasks eid s' = delete_tasks eid s \<and>
    map_of (entities s') eid = map_of (entities s) eid"
  using assms
proof (induction eids arbitrary: td s)
  case (Cons i eids)
  let ?own = "case map_of (entities s) i of None \<Rightarrow> False | Some e \<Rightarrow> et_owner e = cid"
  define td1 where "td1 = (if ?own then omap_insert i (et_payload (the (map_of (entities s) i))) td else td)"
  define s1 where "s1 = (if ?own then update_entity i mark_deleted s else s)"
  define s2 where "s2 = s1\<lparr>top_tasks := top_tasks s1 @ map (\<lambda>(i, payload). DeleteAndUnregister i payload) td1\<rparr>"
  have td1: "sorted_wrt (<) (hkeys td1)" "eid \<notin> fst ` set td1"
    using Cons.prems by (auto simp: td1_def sorted_omap_insert dom_omap_insert)
  have "top_tasks s1 = top_tasks s" by (simp add: s1_def update_entity_def)
  then have "delete_tasks eid s2 = delete_tasks eid s"
    using delete_tasks_push [OF sorted_keys_distinct [OF td1(1)], of eid s1] td1(2)
    by (simp add: s2_def delete_tasks_def)
  moreover have "map_of (entities s2) eid = map_of (entities s) eid"
    using Cons.prems(3) by (auto simp: s2_def s1_def)
  moreover have "delete_loop cid ((i # eids) @ rest) td s = delete_loop cid (eids @ rest) td1 s2"
    by (simp add: delete_loop_Cons Let_def flip: td1_def s1_def s2_def)
  ultimately show ?case using Cons.IH [OF td1, of s2] Cons.prems(3) by auto
qed auto

text \<open>C33: Removing a container marks all its entities, and only them, as invalid and quarantined; but an
  entity at position \<open>i\<close> of a registry of \<open>n\<close> entities gets \<open>n - i\<close> deletion tasks in place of
  one, so the delete hook of the engine runs again for entities that are gone.\<close>
theorem delete_container_entities:
  assumes "distinct (hkeys (entities s))" "i < length (entities s)"
    and "entities s ! i = (eid, e)" "et_owner e = cid"
  shows "delete_tasks eid (DeleteEntitiesInContainer cid s) = delete_tasks eid s + (length (entities s) - i) \<and>
    (\<forall>j. map_of (entities (DeleteEntitiesInContainer cid s)) j =
       map_option (\<lambda>e. if et_owner e = cid then e\<lparr>et_valid := False, et_quarantine := True\<rparr> else e)
         (map_of (entities s) j))"
proof
  let ?ks = "hkeys (entities s)"
  have ks: "?ks = take i ?ks @ eid # drop (Suc i) ?ks"
    using assms(2,3) by (metis fst_conv id_take_nth_drop length_map nth_map)
  have fresh: "eid \<notin> set (take i ?ks)"
    using assms(1) ks by (metis distinct_append disjoint_iff list.set_intros(1))
  have e: "map_of (entities s) eid = Some e"
    using assms(1-3) by (metis map_of_eq_Some_iff nth_mem)
  obtain td s' where skip: "delete_loop cid ?ks [] s = delete_loop cid (eid # drop (Suc i) ?ks) td s'"
    "sorted_wrt (<) (hkeys td)" "eid \<notin> fst ` set td" "delete_tasks eid s' = delete_tasks eid s"
    "map_of (entities s') eid = map_of (entities s) eid"
    using delete_loop_skip [of "[]" eid "take i ?ks" cid "eid # drop (Suc i) ?ks" s] fresh ks by auto
  define td1 where "td1 = omap_insert eid (et_payload e) td"
  define s1 where "s1 = update_entity eid mark_deleted s'"
  have td1: "sorted_wrt (<) (hkeys td1)" "eid \<in> fst ` set td1"
    using skip(2) by (simp_all add: td1_def sorted_omap_insert dom_omap_insert)
  have "delete_tasks eid s1 = delete_tasks eid s'" by (simp add: delete_tasks_def s1_def update_entity_def)
  then show "delete_tasks eid (DeleteEntitiesInContainer cid s) = delete_tasks eid s + (length (entities s) - i)"
    using skip e assms(2,4) delete_loop_collected [OF td1] td1 delete_tasks_push [OF sorted_keys_distinct [OF td1(1)], of eid s1]
    by (simp add: DeleteEntitiesInContainer_def delete_loop_Cons Let_def flip: td1_def s1_def)
  have "j \<notin> set ?ks \<Longrightarrow> map_of (entities s) j = None" for j by (simp add: map_of_eq_None_iff)
  then show "\<forall>j. map_of (entities (DeleteEntitiesInContainer cid s)) j =
       map_option (\<lambda>e. if et_owner e = cid then e\<lparr>et_valid := False, et_quarantine := True\<rparr> else e)
         (map_of (entities s) j)"
    unfolding DeleteEntitiesInContainer_def delete_loop_entities
    by (auto simp: mark_deleted_def map_option_case split: option.split)
qed

theorem delete_container_entities_witness:
  "delete_tasks ''a'' (DeleteEntitiesInContainer ''c''
     ((new_node True ''s/'' ''u'' [])\<lparr>entities := [(''a'', new_entity ''a'' ''c''), (''b'', new_entity ''b'' ''d'')]\<rparr>)) = 2"
proof -
  let ?s = "(new_node True ''s/'' ''u'' [])\<lparr>entities := [(''a'', new_entity ''a'' ''c''), (''b'', new_entity ''b'' ''d'')]\<rparr>"
  have "delete_tasks ''a'' ?s = 0" by (simp add: delete_tasks_def new_node_def rpc.extend_def)
  then show ?thesis
    using delete_container_entities [of ?s 0 "''a''" "new_entity ''a'' ''c''" "''c''"]
    by (simp add: new_entity_def)
qed

section \<open>Late joiners\<close>

text \<open>The ghost of a snapshot holds exactly the properties with a key.\<close>

definition snapshot_ghost :: "string \<Rightarrow> node \<Rightarrow> json" where
  "snapshot_ghost eid s = (case fst (PeekProperties eid (ghosts s)) of None \<Rightarrow> JObj [] | Some j \<Rightarrow> j)"

definition snapshot_json :: "string \<Rightarrow> node \<Rightarrow> json" where
  "snapshot_json eid s =
     JObj [(''ghost'', snapshot_ghost eid s),
           (''payload'', JStr (case GetEntityPayload eid s of None \<Rightarrow> ''{}'' | Some p \<Rightarrow> p))]"

lemma map_of_fold_values:
  "map_of (fold (\<lambda>kp. omap_put (fst kp) (JStr (pr_value (snd kp)))) ps m) k =
     (case map_of (rev ps) k of Some p \<Rightarrow> Some (JStr (pr_value p)) | None \<Rightarrow> map_of m k)"
  by (induction ps arbitrary: m) (auto simp: hmap_simps map_add_def split: option.splits)

lemma wf_fold_values:
  "wf_entity (JObj m) \<Longrightarrow> wf_entity (JObj (fold (\<lambda>kp. omap_put (fst kp) (JStr (pr_value (snd kp)))) ps m))"
proof (induction ps arbitrary: m)
  case (Cons x ps)
  show ?case
    using Cons.IH [OF wf_entity_put [OF Cons.prems, of "fst x" "pr_value (snd x)"]]
    by (simp del: wf_entity.simps)
qed simp

lemma map_of_filter_keys: "map_of (filter (\<lambda>kp. P (fst kp)) m) k = (if P k then map_of m k else None)"
  by (induction m) auto

lemma snapshot_ghost_ok:
  assumes "distinct (hkeys (props_of eid (ghosts s)))"
  shows "wf_entity (snapshot_ghost eid s)"
    and "entity_value (snapshot_ghost eid s) k = (if k = [] then None else value_of (ghosts s) eid k)"
proof -
  let ?ps = "filter (\<lambda>kp. fst kp \<noteq> []) (props_of eid (ghosts s))"
  let ?m = "fold (\<lambda>kp. omap_put (fst kp) (JStr (pr_value (snd kp)))) ?ps []"
  have g: "snapshot_ghost eid s = JObj ?m" by (simp add: snapshot_ghost_def PeekProperties_def Let_def)
  show "wf_entity (snapshot_ghost eid s)" unfolding g by (rule wf_fold_values) simp
  have "distinct (map fst ?ps)" using assms by (rule distinct_map_filter)
  then show "entity_value (snapshot_ghost eid s) k = (if k = [] then None else value_of (ghosts s) eid k)"
    unfolding g using map_of_filter_keys [of "\<lambda>k. k \<noteq> []" "props_of eid (ghosts s)" k]
    by (auto simp: entity_value_def map_of_fold_values map_of_rev value_of_def split: option.splits)
qed

text \<open>Reading a snapshot changes no entity and no property with a key.\<close>

definition same_view :: "node \<Rightarrow> node \<Rightarrow> bool" where
  "same_view s s' \<longleftrightarrow> entities s' = entities s \<and>
     (\<forall>e. distinct (hkeys (props_of e (ghosts s))) \<longrightarrow> distinct (hkeys (props_of e (ghosts s')))) \<and>
     (\<forall>e k. k \<noteq> [] \<longrightarrow> value_of (ghosts s') e k = value_of (ghosts s) e k)"

lemma same_view_trans: "same_view s s' \<Longrightarrow> same_view s' s'' \<Longrightarrow> same_view s s''"
  by (simp add: same_view_def)

lemma entity_snapshot_view:
  "\<exists>s'. entity_snapshot w eid s = (jdump w (snapshot_json eid s), s') \<and> same_view s s'"
proof -
  have "value_of (snd (PeekProperties eid (ghosts s))) e k = value_of (ghosts s) e k" if "k \<noteq> []" for e k
    using that map_of_filter_keys [of "\<lambda>k. k \<noteq> []" "props_of eid (ghosts s)" k]
    by (simp add: value_of_def PeekProperties_def Let_def)
  moreover have "distinct (hkeys (props_of e (snd (PeekProperties eid (ghosts s)))))"
    if "distinct (hkeys (props_of e (ghosts s)))" for e
    using that distinct_map_filter [of fst "props_of eid (ghosts s)"]
    by (cases "e = eid") (simp_all add: PeekProperties_def Let_def)
  ultimately have "same_view s (s\<lparr>ghosts := snd (PeekProperties eid (ghosts s))\<rparr>)"
    by (simp add: same_view_def)
  moreover have "entity_snapshot w eid s =
      (jdump w (snapshot_json eid s), s\<lparr>ghosts := snd (PeekProperties eid (ghosts s))\<rparr>)"
    by (simp add: entity_snapshot_def snapshot_json_def snapshot_ghost_def case_prod_unfold Let_def)
  ultimately show ?thesis by blast
qed

text \<open>What a snapshot of one entity says, for the state it was taken in.\<close>

definition snapshot_of :: "world \<Rightarrow> node \<Rightarrow> string \<Rightarrow> string \<Rightarrow> bool" where
  "snapshot_of w s eid data \<longleftrightarrow>
     (\<exists>j payload. data = jdump w (JObj [(''ghost'', j), (''payload'', JStr payload)]) \<and> wf_entity j \<and>
        (\<forall>k. entity_value j k = (if k = [] then None else value_of (ghosts s) eid k)))"

lemma snapshots_of_container:
  assumes "\<And>e. distinct (hkeys (props_of e (ghosts s)))"
  shows "\<forall>etts s1. sorted_wrt (<) (hkeys etts) \<and> same_view s s1 \<and>
      (\<forall>i data. map_of etts i = Some data \<longrightarrow> snapshot_of w s i data) \<longrightarrow>
    (\<exists>etts' s'. fold (\<lambda>(eid, e) (etts, s). if et_owner e = cid
             then (let (data, s1) = entity_snapshot w eid s in (omap_insert eid data etts, s1))
             else (etts, s)) es (etts, s1) = (etts', s') \<and> sorted_wrt (<) (hkeys etts') \<and>
      (\<forall>i data. map_of etts' i = Some data \<longrightarrow> snapshot_of w s i data) \<and>
      fst ` set etts' = fst ` set etts \<union> {eid. \<exists>e. (eid, e) \<in> set es \<and> et_owner e = cid})"
proof (induction es)
  case (Cons x es)
  obtain eid e where x: "x = (eid, e)" by (cases x)
  show ?case
  proof (intro allI impI, elim conjE)
    fix etts :: "(string, string) hmap" and s1
    assume *: "sorted_wrt (<) (hkeys etts)" "same_view s s1" "\<forall>i data. map_of etts i = Some data \<longrightarrow> snapshot_of w s i data"
    show "\<exists>etts' s'. fold (\<lambda>(eid, e) (etts, s). if et_owner e = cid
             then (let (data, s1) = entity_snapshot w eid s in (omap_insert eid data etts, s1))
             else (etts, s)) (x # es) (etts, s1) = (etts', s') \<and> sorted_wrt (<) (hkeys etts') \<and>
      (\<forall>i data. map_of etts' i = Some data \<longrightarrow> snapshot_of w s i data) \<and>
      fst ` set etts' = fst ` set etts \<union> {eid. \<exists>e. (eid, e) \<in> set (x # es) \<and> et_owner e = cid}"
    proof (cases "et_owner e = cid")
      case True
      obtain s2 where s2: "entity_snapshot w eid s1 = (jdump w (snapshot_json eid s1), s2)" "same_view s1 s2"
        using entity_snapshot_view by blast
      have "distinct (hkeys (props_of eid (ghosts s1)))" using *(2) assms by (simp add: same_view_def)
      from snapshot_ghost_ok [OF this] have "snapshot_of w s eid (jdump w (snapshot_json eid s1))"
        using *(2) by (auto simp: snapshot_of_def snapshot_json_def same_view_def)
      then have "\<forall>i data. map_of (omap_insert eid (jdump w (snapshot_json eid s1)) etts) i = Some data \<longrightarrow> snapshot_of w s i data"
        using *(3) by (auto simp: hmap_simps)
      then show ?thesis
        using Cons.IH [rule_format, of "omap_insert eid (jdump w (snapshot_json eid s1)) etts" s2]
          * s2 same_view_trans [OF *(2) s2(2)] True
        by (auto simp: x sorted_omap_insert dom_omap_insert)
    next
      case False
      then show ?thesis using Cons.IH [rule_format, of etts s1] * by (auto simp: x)
    qed
  qed
qed auto

text \<open>The view of a peer that loaded the snapshots of some entities of the state \<open>s\<close>.\<close>

definition joined :: "node \<Rightarrow> string \<Rightarrow> string set \<Rightarrow> node \<Rightarrow> node \<Rightarrow> bool" where
  "joined s cid E r r' \<longleftrightarrow>
     errors r' = errors r \<and> hooks_set r' = hooks_set r \<and>
     (\<forall>i. map_option et_owner (map_of (entities r') i) =
        (if i \<in> E then Some cid else map_option et_owner (map_of (entities r) i))) \<and>
     (\<forall>i k. value_of (ghosts r') i k =
        (if i \<in> E \<and> k \<noteq> []
         then (case value_of (ghosts s) i k of Some v \<Rightarrow> Some v | None \<Rightarrow> value_of (ghosts r) i k)
         else value_of (ghosts r) i k))"

lemma joined_none: "joined s cid {} r r"
  by (simp add: joined_def)

lemma joined_trans: "joined s cid E r r1 \<Longrightarrow> joined s cid F r1 r2 \<Longrightarrow> joined s cid (E \<union> F) r r2"
  by (auto simp: joined_def split: option.splits)

lemma EngineCallInstantiate_ok:
  assumes "OnInstantiateEntity \<in> set (hooks_set s)"
  shows "\<exists>s'. EngineCallInstantiate eid payload cid s = Ret () s' \<and> errors s' = errors s \<and>
    hooks_set s' = hooks_set s \<and> ghosts s' = ghosts s \<and>
    (\<forall>i. map_option et_owner (map_of (entities s') i) =
       (if i = eid then Some cid else map_option et_owner (map_of (entities s) i)))"
proof (cases "map_of (entities s) eid")
  case None
  then show ?thesis using assms
    by (simp add: EngineCallInstantiate_def RegisterEntity_def entity_initRPCService_def Let_def
        call_hook_def new_entity_def hmap_simps)
next
  case (Some e)
  then show ?thesis
    by (simp add: EngineCallInstantiate_def RegisterEntity_def new_entity_def)
      (auto simp: update_entity_def hmap_simps)
qed

lemma load_entity_joined:
  assumes "\<And>j. jparse w (jdump w j) = Some j" "snapshot_of w s eid data"
    and "OnInstantiateEntity \<in> set (hooks_set r)"
  shows "\<exists>r'. load_entity w cid eid data r = Ret () r' \<and> joined s cid {eid} r r'"
proof -
  obtain j payload where j: "data = jdump w (JObj [(''ghost'', j), (''payload'', JStr payload)])"
    "wf_entity j" "\<And>k. entity_value j k = (if k = [] then None else value_of (ghosts s) eid k)"
    using assms(2) by (auto simp: snapshot_of_def)
  obtain g where g: "apply_entity_update w eid j (ghosts r) = Ret () g"
    "\<And>e k. value_of g e k = (if e = eid then (case entity_value j k of Some v \<Rightarrow> Some v | None \<Rightarrow> value_of (ghosts r) e k)
       else value_of (ghosts r) e k)"
    using apply_entity [OF j(2)] by blast
  define r1 where "r1 = r\<lparr>ghosts := g\<rparr>"
  obtain r' where r': "EngineCallInstantiate eid payload cid r1 = Ret () r'" "errors r' = errors r1"
    "hooks_set r' = hooks_set r1" "ghosts r' = ghosts r1"
    "\<And>i. map_option et_owner (map_of (entities r') i) =
       (if i = eid then Some cid else map_option et_owner (map_of (entities r1) i))"
    using EngineCallInstantiate_ok [of r1 eid payload cid] assms(3) by (auto simp: r1_def)
  have "load_entity w cid eid data r = Ret () r'"
    using g(1) r'(1) by (simp add: load_entity_def j(1) assms(1) json_get_string_def lift_ghost_def r1_def)
  moreover have "joined s cid {eid} r r'"
    using r' by (auto simp: joined_def r1_def g(2) j(3) split: option.splits)
  ultimately show ?thesis by blast
qed

lemma load_entities_joined:
  assumes "\<And>j. jparse w (jdump w j) = Some j" "\<forall>(i, data) \<in> set etts. snapshot_of w s i data"
    and "OnInstantiateEntity \<in> set (hooks_set r)"
  shows "\<exists>r'. load_entities w cid etts r = Ret () r' \<and> joined s cid (fst ` set etts) r r'"
  using assms(2,3)
proof (induction etts arbitrary: r)
  case Nil
  then show ?case by (auto simp: load_entities_def joined_none)
next
  case (Cons x etts)
  obtain eid data where x: "x = (eid, data)" by (cases x)
  obtain r1 where r1: "load_entity w cid eid data r = Ret () r1" "joined s cid {eid} r r1"
    using load_entity_joined [OF assms(1), of s eid data r cid] Cons.prems x by auto
  obtain r2 where r2: "load_entities w cid etts r1 = Ret () r2" "joined s cid (fst ` set etts) r1 r2"
    using Cons.IH [of r1] Cons.prems r1(2) by (auto simp: joined_def)
  have "load_entities w cid (x # etts) r = Ret () r2"
    using r1(1) r2(1) by (simp add: load_entities_def x)
  then show ?case using joined_trans [OF r1(2) r2(2)] by (simp add: x)
qed

text \<open>C13: A peer that loads the snapshots a server took of the entities of a container ends, with no error
  logged, with all of them registered under that container; each of their properties that the server
  knows has the server's value, and everything else at the joiner is as it was.\<close>
theorem late_join_snapshot:
  assumes "\<And>j. jparse w (jdump w j) = Some j" "\<And>e. distinct (hkeys (props_of e (ghosts s)))"
    and "distinct (hkeys (entities s))" "OnInstantiateEntity \<in> set (hooks_set r)"
  shows "\<exists>r'. load_entities w cid (fst (GetExistingEntities w cid s)) r = Ret () r' \<and>
    joined s cid {eid. GetEntityOwnerContainer eid s = cid \<and> IsEntityRegistered eid s} r r'"
proof -
  obtain etts s' where etts: "GetExistingEntities w cid s = (etts, s')" "sorted_wrt (<) (hkeys etts)"
    "\<forall>i data. map_of etts i = Some data \<longrightarrow> snapshot_of w s i data"
    "fst ` set etts = {eid. \<exists>e. (eid, e) \<in> set (entities s) \<and> et_owner e = cid}"
    using snapshots_of_container [OF assms(2), where es = "entities s" and w = w and cid = cid,
        rule_format, of "[]" s]
    by (auto simp: GetExistingEntities_def same_view_def)
  have "\<forall>(i, data) \<in> set etts. snapshot_of w s i data"
    using etts(3) map_of_is_SomeI [OF sorted_keys_distinct [OF etts(2)]] by blast
  moreover have "{eid. \<exists>e. (eid, e) \<in> set (entities s) \<and> et_owner e = cid} =
      {eid. GetEntityOwnerContainer eid s = cid \<and> IsEntityRegistered eid s}"
    unfolding map_of_eq_Some_iff [OF assms(3), symmetric]
    by (auto simp: GetEntityOwnerContainer_def IsEntityRegistered_def hcontains_def split: option.splits)
  ultimately show ?thesis
    using load_entities_joined [OF assms(1), of etts s r cid] assms(4) etts(1,4) by auto
qed

text \<open>A server with one entity and one property, and a client that knows nothing.\<close>

definition demo_server :: node where
  "demo_server = (new_node True ''s/'' ''u'' [])
     \<lparr>entities := [(''a'', new_entity ''a'' ''c'')],
      ghosts := new_ghost\<lparr>ett_props := [(''a'', [(''x'', \<lparr>pr_value = ''1'', pr_update = 2, pr_sync = 1\<rparr>)])]\<rparr>\<rparr>"

theorem late_join_snapshot_witness:
  "\<exists>r'. load_entities demo_world ''c'' (fst (GetExistingEntities demo_world ''c'' demo_server))
       (new_node False ''s/'' ''v'' [OnInstantiateEntity]) = Ret () r' \<and>
     value_of (ghosts r') ''a'' ''x'' = Some ''1'' \<and> map_option et_owner (map_of (entities r') ''a'') = Some ''c''"
proof -
  have keys: "distinct (hkeys (props_of e (ghosts demo_server)))" for e
    by (simp add: demo_server_def props_of_def new_ghost_def)
  have "distinct (hkeys (entities demo_server))" by (simp add: demo_server_def)
  moreover have "OnInstantiateEntity \<in> set (hooks_set (new_node False ''s/'' ''v'' [OnInstantiateEntity]))"
    by (simp add: new_node_def rpc.extend_def)
  ultimately obtain r' where r': "load_entities demo_world ''c'' (fst (GetExistingEntities demo_world ''c'' demo_server))
       (new_node False ''s/'' ''v'' [OnInstantiateEntity]) = Ret () r'"
    "joined demo_server ''c'' {eid. GetEntityOwnerContainer eid demo_server = ''c'' \<and> IsEntityRegistered eid demo_server}
       (new_node False ''s/'' ''v'' [OnInstantiateEntity]) r'"
    using late_join_snapshot [OF demo_roundtrip keys, of "new_node False ''s/'' ''v'' [OnInstantiateEntity]" "''c''"]
    by auto
  have here: "GetEntityOwnerContainer ''a'' demo_server = ''c'' \<and> IsEntityRegistered ''a'' demo_server"
    "value_of (ghosts demo_server) ''a'' ''x'' = Some ''1''"
    by (simp_all add: demo_server_def GetEntityOwnerContainer_def IsEntityRegistered_def hcontains_def
        new_entity_def value_of_def props_of_def)
  have "map_option et_owner (map_of (entities r') ''a'') = Some ''c''"
    using r'(2) here(1) by (simp only: joined_def mem_Collect_eq if_True conj_absorb simp_thms)
  moreover have "value_of (ghosts r') ''a'' ''x'' = Some ''1''"
    using r'(2) here by (simp add: joined_def)
  ultimately show ?thesis using r'(1) by blast
qed

section \<open>A property on its way to a replica\<close>

text \<open>The packets that a round writes, in the order of the containers.\<close>

definition round_packets :: "node \<Rightarrow> (string \<times> string) list \<Rightarrow> (string \<times> string) list" where
  "round_packets s = List.map_filter (\<lambda>(cid, data).
     case map_of (containers s) cid of None \<Rightarrow> None | Some c \<Rightarrow> map_option (\<lambda>topic. (topic, data)) (ct_replws c))"

lemma ReplicateData_packets: "ReplicateData cid data s = s\<lparr>packets := packets s @ round_packets s [(cid, data)]\<rparr>"
  by (simp add: ReplicateData_def round_packets_def map_filter_simps split: option.split)

lemma round_packets_Cons: "round_packets s (p # ps) = round_packets s [p] @ round_packets s ps"
  by (simp add: round_packets_def map_filter_simps split: option.split)

lemma round_packets_frame [simp]: "round_packets (s\<lparr>packets := x\<rparr>) ps = round_packets s ps"
  by (simp add: round_packets_def)

lemma fold_ReplicateData:
  "fold (\<lambda>(cid, data). ReplicateData cid data) ps s = s\<lparr>packets := packets s @ round_packets s ps\<rparr>"
proof (induction ps arbitrary: s)
  case Nil
  then show ?case by (simp add: round_packets_def map_filter_simps)
next
  case (Cons p ps)
  obtain cid data where p: "p = (cid, data)" by (cases p)
  show ?case using Cons.IH by (simp add: p ReplicateData_packets round_packets_Cons [of s "(cid, data)" ps])
qed

lemma upload_round_packets:
  "packets (upload_round w s) =
     packets s @ round_packets s (ProcessUpdate w (fst (FetchNextUpdate (ghosts s))))"
  by (simp add: upload_round_def case_prod_unfold fold_ReplicateData [unfolded case_prod_unfold] round_packets_def Let_def)

lemma in_round_packets:
  assumes "map_of ps cid = Some data" "map_of (containers s) cid = Some c" "ct_replws c = Some topic"
  shows "(topic, data) \<in> set (round_packets s ps)"
  using map_of_SomeD [OF assms(1)] assms(2,3)
  by (force simp: round_packets_def List.map_filter_def)



end
