(* ===== verification/Streams.thy ===== *)
theory Streams
  imports Json
begin

text \<open>
  The streams of the network services: the subscription loop, the message delegate and the
  closing of a \<open>ReaderStream\<close>. The broker is
  the sequence of the results of the subscription attempts; what a message handler does with
  the data is recorded.
\<close>

section \<open>Subscribing\<close>

datatype attempt = SubOk | SubFail | SubThrow

text \<open>
  The loop of \<open>ReaderStream::__subscribe\<close> from attempt \<open>n\<close> on, with \<open>r\<close> retries left: whether
  it subscribed, and the number of the next attempt. \<open>None\<close> is a loop that never ends. The
  \<open>continue\<close> of the exception handler skips the decrement of the retries.
\<close>

partial_function (option) subscribe_loop :: "(nat \<Rightarrow> attempt) \<Rightarrow> nat \<Rightarrow> nat \<Rightarrow> (bool \<times> nat) option" where
  "subscribe_loop res n r =
     (if r = 0 then Some (False, n)
      else (case res n of
              SubOk \<Rightarrow> Some (True, Suc n)
            | SubThrow \<Rightarrow> subscribe_loop res (Suc n) r
            | SubFail \<Rightarrow> subscribe_loop res (Suc n) (r - 1)))"

declare subscribe_loop.simps [code]

definition max_retries :: nat where
  "max_retries = 10"

definition reader_subscribe :: "(nat \<Rightarrow> attempt) \<Rightarrow> (bool \<times> nat) option" where
  "reader_subscribe res = subscribe_loop res 0 max_retries"

lemma subscribe_loop_0 [simp]: "subscribe_loop res n 0 = Some (False, n)"
  by (subst subscribe_loop.simps) simp

lemma subscribe_loop_step:
  assumes "0 < r"
  shows "res n = SubOk \<Longrightarrow> subscribe_loop res n r = Some (True, Suc n)"
    and "res n = SubFail \<Longrightarrow> subscribe_loop res n r = subscribe_loop res (Suc n) (r - 1)"
    and "res n = SubThrow \<Longrightarrow> subscribe_loop res n r = subscribe_loop res (Suc n) r"
  by (subst subscribe_loop.simps, simp add: assms)+

text \<open>Without exceptions the loop makes at most \<open>r\<close> attempts.\<close>

lemma subscribe_loop_bound:
  assumes "\<And>k. n \<le> k \<Longrightarrow> res k \<noteq> SubThrow"
  shows "\<exists>b m. subscribe_loop res n r = Some (b, m) \<and> m \<le> n + r \<and> (b \<longleftrightarrow> (\<exists>k. n \<le> k \<and> k < n + r \<and> res k = SubOk))"
  using assms
proof (induction r arbitrary: n)
  case 0
  then show ?case by simp
next
  case (Suc r)
  show ?case
  proof (cases "res n")
    case SubOk
    then show ?thesis by (auto simp: subscribe_loop_step(1))
  next
    case SubFail
    have "\<And>k. Suc n \<le> k \<Longrightarrow> res k \<noteq> SubThrow" using Suc.prems by simp
    from Suc.IH [OF this] obtain b m where *: "subscribe_loop res (Suc n) r = Some (b, m)" "m \<le> Suc n + r"
      "b \<longleftrightarrow> (\<exists>k. Suc n \<le> k \<and> k < Suc n + r \<and> res k = SubOk)" by blast
    have "n \<le> k \<and> k < n + Suc r \<and> res k = SubOk \<longleftrightarrow> Suc n \<le> k \<and> k < Suc n + r \<and> res k = SubOk" for k
      using SubFail by (cases "k = n") auto
    with * show ?thesis unfolding subscribe_loop_step(2) [of "Suc r" res n, simplified, OF SubFail] by simp
  next
    case SubThrow
    then show ?thesis using Suc.prems by auto
  qed
qed

text \<open>A run that ends has met an attempt that did not throw.\<close>

lemma subscribe_loop_ends:
  assumes "subscribe_loop res n r = Some bm" "0 < r"
  shows "\<exists>k. n \<le> k \<and> res k \<noteq> SubThrow"
proof -
  have "0 < r \<longrightarrow> (\<exists>k. n \<le> k \<and> res k \<noteq> SubThrow)"
  proof (rule subscribe_loop.raw_induct [where P = "\<lambda>res n r bm. 0 < r \<longrightarrow> (\<exists>k. n \<le> k \<and> res k \<noteq> SubThrow)", OF _ assms(1)])
    fix f :: "(nat \<Rightarrow> attempt) \<Rightarrow> nat \<Rightarrow> nat \<Rightarrow> (bool \<times> nat) option" and rs m q y
    assume IH: "\<And>rs m q y. f rs m q = Some y \<Longrightarrow> 0 < q \<longrightarrow> (\<exists>k. m \<le> k \<and> rs k \<noteq> SubThrow)"
      and eq: "(if q = 0 then Some (False, m) else case rs m of SubOk \<Rightarrow> Some (True, Suc m)
            | SubFail \<Rightarrow> f rs (Suc m) (q - 1) | SubThrow \<Rightarrow> f rs (Suc m) q) = Some y"
    show "0 < q \<longrightarrow> (\<exists>k. m \<le> k \<and> rs k \<noteq> SubThrow)"
    proof (cases "rs m = SubThrow \<and> 0 < q")
      case True
      with eq IH [of rs "Suc m" q y] obtain k where "Suc m \<le> k" "rs k \<noteq> SubThrow" by auto
      then show ?thesis by (auto intro: Suc_leD)
    qed auto
  qed
  with assms(2) show ?thesis by simp
qed

text \<open>A broker that answers is asked at most ten times, and the stream is subscribed exactly if one
  of the first ten attempts succeeds.\<close>
lemma subscribe_bounded:
  assumes "\<And>k. res k \<noteq> SubThrow"
  shows "\<exists>b m. reader_subscribe res = Some (b, m) \<and> m \<le> 10 \<and> (b \<longleftrightarrow> (\<exists>k < 10. res k = SubOk))"
  using subscribe_loop_bound [of 0 res 10] assms unfolding reader_subscribe_def max_retries_def by simp

lemma subscribe_bounded_witness:
  "\<exists>b m. reader_subscribe (\<lambda>k. if k = 3 then SubOk else SubFail) = Some (b, m) \<and> m \<le> 10 \<and> b"
proof -
  have "(\<exists>k < 10. (if k = (3 :: nat) then SubOk else SubFail) = SubOk)" by (rule exI [of _ 3]) simp
  then show ?thesis using subscribe_bounded [of "\<lambda>k. if k = 3 then SubOk else SubFail"] by simp
qed

text \<open>When every subscription attempt throws, the loop never ends: the exception handler retries
  without counting the attempt.\<close>
lemma subscribe_throw_diverges: "reader_subscribe (\<lambda>_. SubThrow) = None"
proof (rule ccontr)
  assume "reader_subscribe (\<lambda>_. SubThrow) \<noteq> None"
  then obtain bm where "subscribe_loop (\<lambda>_. SubThrow) 0 max_retries = Some bm"
    by (auto simp: reader_subscribe_def)
  from subscribe_loop_ends [OF this] show False by (simp add: max_retries_def)
qed

section \<open>Receiving\<close>

text \<open>A reader stream: its flags, the counter of messages in flight, and what was acknowledged and handled.\<close>

record reader =
  rs_closed :: bool
  rs_pending :: int
  rs_acked :: "string list"
  rs_handled :: "string list"

text \<open>
  A thread of the listener runs \<open>handleMessageDelegate\<close> in two steps: it enters, which
  increments the counter, and it leaves, which decrements it after the message was handled.
\<close>

definition delegate_enter :: "reader \<Rightarrow> reader" where
  "delegate_enter r = r\<lparr>rs_pending := rs_pending r + 1\<rparr>"

definition delegate_leave :: "string \<Rightarrow> reader \<Rightarrow> reader" where
  "delegate_leave data r =
     (let r1 = (if rs_closed r \<or> data = [] then r
                else r\<lparr>rs_acked := rs_acked r @ [data], rs_handled := rs_handled r @ [data]\<rparr>)
      in r1\<lparr>rs_pending := rs_pending r1 - 1\<rparr>)"

definition handleMessageDelegate :: "string \<Rightarrow> reader \<Rightarrow> reader" where
  "handleMessageDelegate data r = delegate_leave data (delegate_enter r)"

text \<open>
  \<open>BlockUntilNoPending\<close> compares the shared pointer to the counter with zero, not the
  counter: \<open>ptr\<close> is that pointer, \<open>pending k\<close> the counter when the loop is at round \<open>k\<close>.
\<close>

partial_function (option) BlockUntilNoPending :: "nat \<Rightarrow> (nat \<Rightarrow> int) \<Rightarrow> nat \<Rightarrow> unit option" where
  "BlockUntilNoPending ptr pending k =
     (if ptr > 0 then BlockUntilNoPending ptr pending (Suc k) else Some ())"

declare BlockUntilNoPending.simps [code]

text \<open>
  \<open>Close\<close> for a stream with counter pointer \<open>ptr\<close>: \<open>None\<close> when it does not return. It marks
  the stream closed and waits if the counter is positive.
\<close>

definition reader_close :: "nat \<Rightarrow> (nat \<Rightarrow> int) \<Rightarrow> reader \<Rightarrow> reader option" where
  "reader_close ptr pending r =
     (if rs_closed r then Some r
      else if rs_pending r > 0
      then map_option (\<lambda>_. r\<lparr>rs_closed := True\<rparr>) (BlockUntilNoPending ptr pending 0)
      else Some (r\<lparr>rs_closed := True\<rparr>))"

text \<open>\<open>CelteService::__cleanup\<close> on the reader streams of a service.\<close>

fun service_cleanup :: "nat \<Rightarrow> (nat \<Rightarrow> int) \<Rightarrow> reader list \<Rightarrow> reader list option" where
  "service_cleanup ptr pending rs =
     (case those (map (reader_close ptr pending) rs) of
        None \<Rightarrow> None
      | Some rs' \<Rightarrow>
          (case those (map (\<lambda>_. BlockUntilNoPending ptr pending 0) rs') of
             None \<Rightarrow> None
           | Some _ \<Rightarrow> Some []))"

lemma block_never_returns:
  assumes "0 < ptr"
  shows "BlockUntilNoPending ptr pending k = None"
proof (rule ccontr)
  assume "BlockUntilNoPending ptr pending k \<noteq> None"
  then obtain u where ret: "BlockUntilNoPending ptr pending k = Some u" by blast
  have "ptr = 0"
  proof (rule BlockUntilNoPending.raw_induct [where P = "\<lambda>ptr pending k u. ptr = 0", OF _ ret])
    fix f :: "nat \<Rightarrow> (nat \<Rightarrow> int) \<Rightarrow> nat \<Rightarrow> unit option" and p pd n u
    assume "\<And>p pd n u. f p pd n = Some u \<Longrightarrow> p = 0"
      and "(if 0 < p then f p pd (Suc n) else Some ()) = Some u"
    then show "p = 0" by (cases "0 < p") auto
  qed
  with assms show False by simp
qed

text \<open>The cleanup of a service that has a reader stream never returns, even when no message is in
  flight: the wait compares the pointer to the counter, which is never null.\<close>
lemma cleanup_never_returns:
  assumes "0 < ptr" and "rs \<noteq> []"
  shows "service_cleanup ptr pending rs = None"
proof -
  have "those (map (\<lambda>_. None :: unit option) xs) = None" if "xs \<noteq> []" for xs :: "reader list"
    using that by (cases xs) auto
  moreover have "those (map (reader_close ptr pending) rs) = Some rs' \<Longrightarrow> rs' \<noteq> []" for rs'
    using assms(2) by (cases rs) (auto split: option.splits)
  ultimately show ?thesis
    by (auto simp: block_never_returns [OF assms(1)] split: option.splits)
qed

text \<open>The counter is balanced, and a closed stream neither acknowledges nor handles.\<close>

lemma delegate_balanced: "rs_pending (handleMessageDelegate data r) = rs_pending r"
  by (simp add: handleMessageDelegate_def delegate_leave_def delegate_enter_def Let_def)

lemma delegate_closed: "rs_closed r \<Longrightarrow> handleMessageDelegate data r = r"
  by (simp add: handleMessageDelegate_def delegate_leave_def delegate_enter_def Let_def)

end
