(* ===== verification/Containers.thy ===== *)
theory Containers
  imports Entities Streams
begin

text \<open>
  The containers of a peer (\<open>Container\<close>, \<open>ContainerRegistry\<close>) and the component through which
  a grape or a client subscribes to them (\<open>ContainerSubscriptionComponent\<close>). A subscription
  creates the container on first use, registers its three remote methods and opens its
  streams; an unsubscription removes it. The lemmas state what a subscription establishes
  and show that the reference count does not keep a container alive.
\<close>

section \<open>The registry\<close>

text \<open>The text of a \<open>CelteError\<close>; the file is the one the compiler was given.\<close>

definition celte_error :: "string \<Rightarrow> nat \<Rightarrow> string \<Rightarrow> string" where
  "celte_error file line msg = ''At '' @ file @ '' - '' @ nat_digits line @ '' : '' @ msg"

definition new_container :: "world \<Rightarrow> string \<Rightarrow> container" where
  "new_container w cid =
     \<lparr>ct_id = cid, ct_refs = 1, ct_local = uninit_bool w, ct_owned = [], ct_replws = None, ct_readers = []\<rparr>"

definition container_methods :: "string list" where
  "container_methods = [''TakeAuthority'', ''DropAuthority'', ''DeleteEntity'']"

text \<open>The destructor of a container.\<close>

definition destroy_container :: "string \<Rightarrow> node \<Rightarrow> node" where
  "destroy_container cid s =
     fold (\<lambda>m s. unregister_method (tp_rpc (topic_scope s) cid) (rpc_name ''Container'' m) s) container_methods s"

text \<open>
  \<open>CreateContainerIfNotExists\<close>: the id and whether the container was created. The constructor
  of a container draws an id of its own, which the given one replaces.
\<close>

definition CreateContainerIfNotExists :: "world \<Rightarrow> string \<Rightarrow> (string \<times> bool) op" where
  "CreateContainerIfNotExists w cid s =
     (case map_of (containers s) cid of
        Some c \<Rightarrow> Ret (ct_id c, False) s
      | None \<Rightarrow>
          (let (containerId, s1) = (if cid = [] then GenUUID w s else (cid, s));
               (_, s2) = GenUUID w s1
           in if map_of (containers s2) containerId = None
              then Ret (containerId, True)
                (s2\<lparr>containers := hput containerId (new_container w containerId) (containers s2)\<rparr>)
              else
                (let msg = celte_error ''Container.cpp'' 149 (''Failed to create container '' @ containerId)
                 in Raise (ContainerCreationExn msg) (log_error msg (destroy_container containerId s2)))))"

text \<open>
  The number of owners of the shared pointer of a cell. No operation keeps a second one while
  the cell is in the registry: \<open>GetContainerPtr\<close> is called for the trash only, just before
  the cell is erased.
\<close>

definition use_count :: "container \<Rightarrow> nat" where
  "use_count c = 1"

definition TrashContainer :: "container \<Rightarrow> node \<Rightarrow> node" where
  "TrashContainer c s = ScheduleAsyncTask (CleanupContainer (ct_id c)) (s\<lparr>trash := trash s @ [c]\<rparr>)"

definition UpdateRefCount :: "string \<Rightarrow> node \<Rightarrow> node" where
  "UpdateRefCount cid s =
     (case map_of (containers s) cid of
        None \<Rightarrow> s
      | Some c \<Rightarrow>
          if server_mode s \<and> use_count c \<noteq> 1 then s
          else
            (let s1 = TrashContainer c (DeleteEntitiesInContainer cid s)
             in s1\<lparr>containers := herase cid (containers s1)\<rparr>))"

definition RegisterNewOwnedEntityToContainer :: "string \<Rightarrow> string \<Rightarrow> node \<Rightarrow> node" where
  "RegisterNewOwnedEntityToContainer cid eid =
     update_container cid (\<lambda>c. c\<lparr>ct_owned := oset_insert eid (ct_owned c)\<rparr>)"

definition GetOwnedEntitiesNativeHandles :: "string \<Rightarrow> node \<Rightarrow> nat list" where
  "GetOwnedEntitiesNativeHandles cid s =
     (case map_of (containers s) cid of
        None \<Rightarrow> []
      | Some c \<Rightarrow> List.map_filter (\<lambda>eid. GetEntityNativeHandle eid s) (ct_owned c))"

section \<open>A container's network\<close>

definition container_initRPCs :: "string \<Rightarrow> node \<Rightarrow> node" where
  "container_initRPCs cid s =
     fold (\<lambda>m s. register_method (tp_rpc (topic_scope s) cid) (rpc_name ''Container'' m) (ContainerMethod cid m) s)
       container_methods s"

text \<open>The three registrations one after the other, for evaluation.\<close>

lemma container_initRPCs_code [code]:
  "container_initRPCs cid s =
     (let t = tp_rpc (topic_scope s) cid;
          s1 = register_method t (rpc_name ''Container'' ''TakeAuthority'') (ContainerMethod cid ''TakeAuthority'') s;
          s2 = register_method t (rpc_name ''Container'' ''DropAuthority'') (ContainerMethod cid ''DropAuthority'') s1
      in register_method t (rpc_name ''Container'' ''DeleteEntity'') (ContainerMethod cid ''DeleteEntity'') s2)"
proof -
  have "topic_scope (register_method t m d u) = topic_scope u" for t m d and u :: node
    by (simp add: register_method_def split: option.split)
  then show ?thesis by (simp only: container_initRPCs_def container_methods_def fold.simps comp_def id_def Let_def)
qed

definition createReaderStream :: "string \<Rightarrow> string \<Rightarrow> node \<Rightarrow> node" where
  "createReaderStream cid topic s =
     ScheduleAsyncIOTask (OpenReader cid topic)
       (update_container cid (\<lambda>c. c\<lparr>ct_readers := ct_readers c @ [(topic, False)]\<rparr>) s)"

definition container_initStreams :: "string \<Rightarrow> node \<Rightarrow> node" where
  "container_initStreams cid s =
     (case map_of (containers s) cid of
        None \<Rightarrow> s
      | Some c \<Rightarrow>
          (let repl = tp_repl (topic_scope s) (ct_id c);
               s1 = (if server_mode s \<and> ct_local c
                     then update_container cid (\<lambda>c. c\<lparr>ct_replws := Some repl\<rparr>) s
                     else createReaderStream cid repl s)
           in createReaderStream cid (tp_input (topic_scope s) (ct_id c)) s1))"

definition WaitForNetworkReady :: "string \<Rightarrow> callback \<Rightarrow> node \<Rightarrow> node" where
  "WaitForNetworkReady cid onReady = ScheduleAsyncTask (WaitNetworkReady cid onReady)"

text \<open>
  The tasks of a container capture the object, which the trash bin keeps after it has left the
  registry: the object of an id is the one in the registry, else the one in the trash.
\<close>

definition container_object :: "string \<Rightarrow> node \<Rightarrow> container option" where
  "container_object cid s =
     (case map_of (containers s) cid of
        Some c \<Rightarrow> Some c
      | None \<Rightarrow> find (\<lambda>c. ct_id c = cid) (trash s))"

definition modify_object :: "string \<Rightarrow> (container \<Rightarrow> container) \<Rightarrow> node \<Rightarrow> node" where
  "modify_object cid f s =
     (if ContainerExists cid s then update_container cid f s
      else s\<lparr>trash := map (\<lambda>c. if ct_id c = cid then f c else c) (trash s)\<rparr>)"

text \<open>
  One round of the waiting loop: the callback when all streams are subscribed, another round
  otherwise.
\<close>

definition wait_round :: "string \<Rightarrow> callback \<Rightarrow> node \<Rightarrow> node" where
  "wait_round cid onReady s =
     (case container_object cid s of
        None \<Rightarrow> s
      | Some c \<Rightarrow>
          if list_all snd (ct_readers c) then run_callback onReady s
          else ScheduleAsyncTask (WaitNetworkReady cid onReady) s)"

text \<open>The I/O task of \<open>ReaderStream::Open\<close>: \<open>res\<close> are the answers of the broker.\<close>

definition open_reader :: "(nat \<Rightarrow> attempt) \<Rightarrow> string \<Rightarrow> string \<Rightarrow> node \<Rightarrow> node option" where
  "open_reader res cid topic s =
     (case reader_subscribe res of
        None \<Rightarrow> None
      | Some (False, _) \<Rightarrow> Some s
      | Some (True, _) \<Rightarrow>
          Some (modify_object cid
            (\<lambda>c. c\<lparr>ct_readers := map (\<lambda>r. if fst r = topic then (topic, True) else r) (ct_readers c)\<rparr>) s))"

text \<open>The trash task of a container: \<open>__cleanup\<close>, then the destructor. The counters' pointers are not null.\<close>

definition cleanup_container :: "container \<Rightarrow> node \<Rightarrow> node option" where
  "cleanup_container c s =
     map_option (\<lambda>_. destroy_container (ct_id c) (s\<lparr>trash := remove1 c (trash s)\<rparr>))
       (service_cleanup 1 (\<lambda>_. 0)
          (map (\<lambda>_. \<lparr>rs_closed = False, rs_pending = 0, rs_acked = [], rs_handled = []\<rparr>) (ct_readers c)))"

section \<open>Subscriptions\<close>

text \<open>Who holds a subscription component: a grape, or the peer service of a client.\<close>

datatype holder = GrapeSubs string | PeerSubs

definition get_subs :: "holder \<Rightarrow> node \<Rightarrow> string list" where
  "get_subs h s =
     (case h of
        PeerSubs \<Rightarrow> client_subs s
      | GrapeSubs gid \<Rightarrow> (case map_of (grapes s) gid of None \<Rightarrow> [] | Some g \<Rightarrow> gr_subs g))"

definition mod_subs :: "holder \<Rightarrow> (string list \<Rightarrow> string list) \<Rightarrow> node \<Rightarrow> node" where
  "mod_subs h f s =
     (case h of
        PeerSubs \<Rightarrow> s\<lparr>client_subs := f (client_subs s)\<rparr>
      | GrapeSubs gid \<Rightarrow> update_grape gid (\<lambda>g. g\<lparr>gr_subs := f (gr_subs g)\<rparr>) s)"

definition IsSubscribed :: "holder \<Rightarrow> string \<Rightarrow> node \<Rightarrow> bool" where
  "IsSubscribed h cid s \<longleftrightarrow> cid \<in> set (get_subs h s)"

text \<open>What the code does with a container that the subscription has created.\<close>

definition start_container :: "string \<Rightarrow> callback \<Rightarrow> bool \<Rightarrow> node \<Rightarrow> node" where
  "start_container cid onReady isLocallyOwned s =
     (let s1 = update_container cid
            (\<lambda>c. c\<lparr>ct_refs := ct_refs c + 1, ct_local := server_mode s \<and> isLocallyOwned\<rparr>) s
      in WaitForNetworkReady cid onReady (container_initStreams cid (container_initRPCs cid s1)))"

definition Subscribe :: "world \<Rightarrow> holder \<Rightarrow> string \<Rightarrow> callback \<Rightarrow> bool \<Rightarrow> string option op" where
  "Subscribe w h cid onReady isLocallyOwned s =
     (if IsSubscribed h cid s then Ret None (run_callback onReady s)
      else
        obind (CreateContainerIfNotExists w cid s)
          (\<lambda>(newId, wasCreated) s1.
             (let s2 = mod_subs h (oset_insert newId) s1
              in Ret (Some newId) (if wasCreated then start_container newId onReady isLocallyOwned s2 else s2))))"

definition Unsubscribe :: "holder \<Rightarrow> string \<Rightarrow> node \<Rightarrow> node" where
  "Unsubscribe h cid s =
     (if \<not> IsSubscribed h cid s then s
      else UpdateRefCount cid
        (update_container cid (\<lambda>c. c\<lparr>ct_refs := ct_refs c - 1\<rparr>) (mod_subs h (oset_erase cid) s)))"

section \<open>What a subscription establishes\<close>

text \<open>The topics that the readers of a container are subscribed to.\<close>

definition reader_topics :: "string \<Rightarrow> bool \<Rightarrow> node \<Rightarrow> string list" where
  "reader_topics cid isLocallyOwned s =
     (if server_mode s \<and> isLocallyOwned then [] else [tp_repl (topic_scope s) cid]) @ [tp_input (topic_scope s) cid]"

text \<open>A holder that has a subscription component.\<close>

definition holder_exists :: "holder \<Rightarrow> node \<Rightarrow> bool" where
  "holder_exists h s = (case h of PeerSubs \<Rightarrow> True | GrapeSubs gid \<Rightarrow> map_of (grapes s) gid \<noteq> None)"

lemma mod_subs_frame [simp]:
  "containers (mod_subs h f s) = containers s" "entities (mod_subs h f s) = entities s"
  "server_mode (mod_subs h f s) = server_mode s" "topic_scope (mod_subs h f s) = topic_scope s"
  "methods (mod_subs h f s) = methods s" "io_tasks (mod_subs h f s) = io_tasks s"
  "async_tasks (mod_subs h f s) = async_tasks s" "user_calls (mod_subs h f s) = user_calls s"
  "top_tasks (mod_subs h f s) = top_tasks s" "trash (mod_subs h f s) = trash s"
  by (simp_all add: mod_subs_def update_grape_def split: holder.splits)

lemma get_mod_subs:
  "get_subs h' (mod_subs h f s) =
     (if h' = h \<and> holder_exists h s then f (get_subs h s) else get_subs h' s)"
  by (auto simp: get_subs_def mod_subs_def holder_exists_def update_grape_def hmap_simps
      split: holder.splits option.splits)

lemma get_subs_cong: "client_subs s' = client_subs s \<Longrightarrow> grapes s' = grapes s \<Longrightarrow> get_subs h s' = get_subs h s"
  by (simp add: get_subs_def split: holder.splits)

lemma update_container_frame [simp]:
  "grapes (update_container cid f s) = grapes s" "client_subs (update_container cid f s) = client_subs s"
  "server_mode (update_container cid f s) = server_mode s" "topic_scope (update_container cid f s) = topic_scope s"
  "methods (update_container cid f s) = methods s" "io_tasks (update_container cid f s) = io_tasks s"
  "async_tasks (update_container cid f s) = async_tasks s" "user_calls (update_container cid f s) = user_calls s"
  "entities (update_container cid f s) = entities s" "trash (update_container cid f s) = trash s"
  by (simp_all add: update_container_def)

lemma container_initRPCs_frame [simp]:
  "containers (container_initRPCs cid s) = containers s" "grapes (container_initRPCs cid s) = grapes s"
  "client_subs (container_initRPCs cid s) = client_subs s" "server_mode (container_initRPCs cid s) = server_mode s"
  "topic_scope (container_initRPCs cid s) = topic_scope s" "io_tasks (container_initRPCs cid s) = io_tasks s"
  "async_tasks (container_initRPCs cid s) = async_tasks s" "user_calls (container_initRPCs cid s) = user_calls s"
  "entities (container_initRPCs cid s) = entities s" "handled (container_initRPCs cid s) = handled s"
  "top_tasks (container_initRPCs cid s) = top_tasks s"
  by (simp_all add: container_initRPCs_def container_methods_def)

lemma container_initRPCs_lookup:
  assumes "\<forall>m \<in> set container_methods. lookup_method s (tp_rpc (topic_scope s) cid) (rpc_name ''Container'' m) = None"
    and "m \<in> set container_methods"
  shows "lookup_method (container_initRPCs cid s) (tp_rpc (topic_scope s) cid) (rpc_name ''Container'' m) =
    Some (ContainerMethod cid m)"
  using assms by (auto simp: container_initRPCs_def container_methods_def lookup_register rpc_name_def)

lemma container_initStreams_effect:
  assumes "map_of (containers s) cid = Some c" "ct_id c = cid"
  shows "map_of (containers (container_initStreams cid s)) cid =
      Some (c\<lparr>ct_replws := (if server_mode s \<and> ct_local c then Some (tp_repl (topic_scope s) cid) else ct_replws c),
              ct_readers := ct_readers c @ map (\<lambda>t. (t, False)) (reader_topics cid (ct_local c) s)\<rparr>)"
    and "io_tasks (container_initStreams cid s) = io_tasks s @ map (OpenReader cid) (reader_topics cid (ct_local c) s)"
    and "async_tasks (container_initStreams cid s) = async_tasks s"
    and "user_calls (container_initStreams cid s) = user_calls s"
    and "methods (container_initStreams cid s) = methods s"
  using assms
  by (auto simp: container_initStreams_def reader_topics_def createReaderStream_def ScheduleAsyncIOTask_def Let_def)

lemma container_initStreams_frame [simp]:
  "grapes (container_initStreams cid s) = grapes s" "client_subs (container_initStreams cid s) = client_subs s"
  by (simp_all add: container_initStreams_def createReaderStream_def ScheduleAsyncIOTask_def Let_def split: option.splits)

lemma GenUUID_frame [simp]:
  fixes s :: node
  shows "containers (snd (GenUUID w s)) = containers s" "grapes (snd (GenUUID w s)) = grapes s"
  "client_subs (snd (GenUUID w s)) = client_subs s" "server_mode (snd (GenUUID w s)) = server_mode s"
  "topic_scope (snd (GenUUID w s)) = topic_scope s" "methods (snd (GenUUID w s)) = methods s"
  "io_tasks (snd (GenUUID w s)) = io_tasks s" "async_tasks (snd (GenUUID w s)) = async_tasks s"
  "user_calls (snd (GenUUID w s)) = user_calls s" "entities (snd (GenUUID w s)) = entities s"
  by (simp_all add: GenUUID_def)

lemma subscribe_creates':
  assumes "\<not> IsSubscribed h cid s" "map_of (containers s) cid = None" "cid \<noteq> []" "holder_exists h s"
    and "\<forall>m \<in> set container_methods. lookup_method s (tp_rpc (topic_scope s) cid) (rpc_name ''Container'' m) = None"
  shows "\<exists>s'. Subscribe w h cid onReady own s = Ret (Some cid) s' \<and> IsSubscribed h cid s' \<and>
    map_of (containers s') cid = Some
      \<lparr>ct_id = cid, ct_refs = 2, ct_local = server_mode s \<and> own, ct_owned = [],
       ct_replws = (if server_mode s \<and> own then Some (tp_repl (topic_scope s) cid) else None),
       ct_readers = map (\<lambda>t. (t, False)) (reader_topics cid own s)\<rparr> \<and>
    (\<forall>m \<in> set container_methods.
       lookup_method s' (tp_rpc (topic_scope s) cid) (rpc_name ''Container'' m) = Some (ContainerMethod cid m)) \<and>
    io_tasks s' = io_tasks s @ map (OpenReader cid) (reader_topics cid own s) \<and>
    async_tasks s' = async_tasks s @ [WaitNetworkReady cid onReady] \<and> user_calls s' = user_calls s"
proof -
  let ?s0 = "snd (GenUUID w s)"
  let ?s1 = "?s0\<lparr>containers := hput cid (new_container w cid) (containers ?s0)\<rparr>"
  let ?s2 = "mod_subs h (oset_insert cid) ?s1"
  let ?s3 = "update_container cid (\<lambda>c. c\<lparr>ct_refs := ct_refs c + 1, ct_local := server_mode ?s2 \<and> own\<rparr>) ?s2"
  let ?s4 = "container_initRPCs cid ?s3"
  define c where "c = (new_container w cid)\<lparr>ct_refs := 2, ct_local := server_mode s \<and> own\<rparr>"
  have c4: "map_of (containers ?s4) cid = Some c" by (simp add: c_def new_container_def hmap_simps)
  have id: "ct_id c = cid" by (simp add: c_def new_container_def)
  note streams = container_initStreams_effect [OF c4 id]
  have sub: "Subscribe w h cid onReady own s = Ret (Some cid) (WaitForNetworkReady cid onReady (container_initStreams cid ?s4))"
    using assms(1-3)
    by (simp add: Subscribe_def CreateContainerIfNotExists_def case_prod_unfold start_container_def)
  have loc: "reader_topics cid (ct_local c) ?s4 = reader_topics cid own s"
    by (simp add: reader_topics_def c_def)
  have "get_subs h ?s1 = get_subs h s" by (rule get_subs_cong) simp_all
  moreover have "holder_exists h ?s1" using assms(4) by (simp add: holder_exists_def split: holder.splits)
  ultimately have "cid \<in> set (get_subs h ?s2)" by (simp add: get_mod_subs)
  moreover have "get_subs h (WaitForNetworkReady cid onReady (container_initStreams cid ?s4)) = get_subs h ?s2"
    by (rule get_subs_cong) (simp_all add: WaitForNetworkReady_def ScheduleAsyncTask_def)
  ultimately have "IsSubscribed h cid (WaitForNetworkReady cid onReady (container_initStreams cid ?s4))"
    by (simp add: IsSubscribed_def)
  moreover have "lookup_method ?s4 (tp_rpc (topic_scope s) cid) (rpc_name ''Container'' m) = Some (ContainerMethod cid m)"
    if "m \<in> set container_methods" for m
    using container_initRPCs_lookup [OF _ that, of ?s3 cid] assms(5) by (simp add: lookup_method_def)
  ultimately show ?thesis
    using streams sub loc
    by (simp add: WaitForNetworkReady_def ScheduleAsyncTask_def lookup_method_def c_def new_container_def)
qed

text \<open>C31: A subscription to a container that the peer does not have creates it: it is owned exactly by a
  server that asked to own it, its three remote methods are bound, its streams are requested,
  the holder is subscribed, and the callback is not called but waits for the streams.\<close>
theorem subscribe_creates:
  assumes "\<not> IsSubscribed h cid s" "map_of (containers s) cid = None" "cid \<noteq> []" "holder_exists h s"
    and "\<forall>m \<in> set container_methods. lookup_method s (tp_rpc (topic_scope s) cid) (rpc_name ''Container'' m) = None"
  shows "\<exists>s'. Subscribe w h cid onReady own s = Ret (Some cid) s' \<and> IsSubscribed h cid s' \<and>
    map_of (containers s') cid = Some
      \<lparr>ct_id = cid, ct_refs = 2, ct_local = server_mode s \<and> own, ct_owned = [],
       ct_replws = (if server_mode s \<and> own then Some (tp_repl (topic_scope s) cid) else None),
       ct_readers = map (\<lambda>t. (t, False)) (reader_topics cid own s)\<rparr> \<and>
    (\<forall>m \<in> set container_methods.
       lookup_method s' (tp_rpc (topic_scope s) cid) (rpc_name ''Container'' m) = Some (ContainerMethod cid m)) \<and>
    io_tasks s' = io_tasks s @ map (OpenReader cid) (reader_topics cid own s) \<and>
    async_tasks s' = async_tasks s @ [WaitNetworkReady cid onReady] \<and> user_calls s' = user_calls s"
  by (rule subscribe_creates' [OF assms])

theorem subscribe_creates_witness:
  "\<exists>s'. Subscribe demo_world PeerSubs ''c'' (UserFn 1) False (new_node False ''s/'' ''v'' []) = Ret (Some ''c'') s' \<and>
     ''c'' \<in> set (client_subs s') \<and> async_tasks s' = [WaitNetworkReady ''c'' (UserFn 1)]"
proof -
  let ?s = "new_node False ''s/'' ''v'' []"
  have "\<not> IsSubscribed PeerSubs ''c'' ?s" "map_of (containers ?s) ''c'' = None" "holder_exists PeerSubs ?s"
    by (simp_all add: IsSubscribed_def get_subs_def holder_exists_def new_node_def rpc.extend_def)
  moreover have "\<forall>m \<in> set container_methods. lookup_method ?s (tp_rpc (topic_scope ?s) ''c'') (rpc_name ''Container'' m) = None"
    by (simp add: lookup_method_def new_node_def new_rpc_def rpc.extend_def)
  ultimately show ?thesis
    using subscribe_creates [of PeerSubs "''c''" ?s demo_world "UserFn 1" False]
    by (auto simp: new_node_def rpc.extend_def IsSubscribed_def get_subs_def)
qed

section \<open>Shared containers\<close>

text \<open>A subscription to a container that the peer already has only adds it to the holder's set: the
  callback is neither called nor scheduled, and no reference is counted.\<close>
lemma subscribe_existing:
  assumes "\<not> IsSubscribed h cid s" "map_of (containers s) cid = Some c" "ct_id c = cid"
  shows "\<exists>s'. Subscribe w h cid onReady own s = Ret (Some cid) s' \<and> containers s' = containers s \<and>
    async_tasks s' = async_tasks s \<and> io_tasks s' = io_tasks s \<and> top_tasks s' = top_tasks s \<and>
    user_calls s' = user_calls s \<and> (holder_exists h s \<longrightarrow> IsSubscribed h cid s')"
  using assms
  by (simp add: Subscribe_def CreateContainerIfNotExists_def IsSubscribed_def get_mod_subs)

lemma UpdateRefCount_removes:
  assumes "map_of (containers s) cid = Some c"
  shows "map_of (containers (UpdateRefCount cid s)) cid = None"
    and "grapes (UpdateRefCount cid s) = grapes s" and "client_subs (UpdateRefCount cid s) = client_subs s"
    and "async_tasks (UpdateRefCount cid s) = async_tasks s @ [CleanupContainer (ct_id c)]"
    and "trash (UpdateRefCount cid s) = trash s @ [c]"
    and "map_of (entities (UpdateRefCount cid s)) i =
      map_option (\<lambda>e. if et_owner e = cid then mark_deleted e else e) (map_of (entities s) i)"
proof -
  let ?s = "DeleteEntitiesInContainer cid s"
  have u: "UpdateRefCount cid s = (TrashContainer c ?s)\<lparr>containers := herase cid (containers (TrashContainer c ?s))\<rparr>"
    using assms by (simp add: UpdateRefCount_def use_count_def Let_def)
  note frame = delete_loop_frame [of cid "hkeys (entities s)" "[]" s]
  show "map_of (containers (UpdateRefCount cid s)) cid = None"
    "grapes (UpdateRefCount cid s) = grapes s" "client_subs (UpdateRefCount cid s) = client_subs s"
    "async_tasks (UpdateRefCount cid s) = async_tasks s @ [CleanupContainer (ct_id c)]"
    "trash (UpdateRefCount cid s) = trash s @ [c]"
    using frame
    by (simp_all add: u TrashContainer_def ScheduleAsyncTask_def DeleteEntitiesInContainer_def hmap_simps)
  show "map_of (entities (UpdateRefCount cid s)) i =
      map_option (\<lambda>e. if et_owner e = cid then mark_deleted e else e) (map_of (entities s) i)"
    by (cases "map_of (entities s) i")
      (simp_all add: u TrashContainer_def ScheduleAsyncTask_def DeleteEntitiesInContainer_def
        delete_loop_entities map_of_in_hkeys)
qed

text \<open>C26: When one of two holders of a container unsubscribes, the container leaves the registry, its
  cleanup is scheduled and its entities are invalidated, although the other holder is still
  subscribed to it; a further subscription of that holder is a no-op that reports success.\<close>
theorem unsubscribe_deletes_shared:
  assumes "h1 \<noteq> h2" "IsSubscribed h1 cid s" "IsSubscribed h2 cid s"
    and "map_of (containers s) cid = Some c" "ct_id c = cid"
  shows "\<not> ContainerExists cid (Unsubscribe h1 cid s) \<and> IsSubscribed h2 cid (Unsubscribe h1 cid s) \<and>
    CleanupContainer cid \<in> set (async_tasks (Unsubscribe h1 cid s)) \<and>
    (\<forall>eid. GetEntityOwnerContainer eid s = cid \<longrightarrow> \<not> IsEntityValid eid (Unsubscribe h1 cid s)) \<and>
    Subscribe w h2 cid onReady own (Unsubscribe h1 cid s) = Ret None (run_callback onReady (Unsubscribe h1 cid s))"
proof -
  let ?s1 = "update_container cid (\<lambda>c. c\<lparr>ct_refs := ct_refs c - 1\<rparr>) (mod_subs h1 (oset_erase cid) s)"
  have un: "Unsubscribe h1 cid s = UpdateRefCount cid ?s1"
    using assms(2) by (simp add: Unsubscribe_def)
  have c1: "map_of (containers ?s1) cid = Some (c\<lparr>ct_refs := ct_refs c - 1\<rparr>)" using assms(4) by simp
  note gone = UpdateRefCount_removes [OF c1, folded un]
  have "get_subs h2 (Unsubscribe h1 cid s) = get_subs h2 (mod_subs h1 (oset_erase cid) s)"
    by (rule get_subs_cong) (simp_all add: gone)
  then have sub: "IsSubscribed h2 cid (Unsubscribe h1 cid s)"
    using assms(1,3) by (simp add: IsSubscribed_def get_mod_subs)
  moreover have "\<not> IsEntityValid eid (Unsubscribe h1 cid s)" if "GetEntityOwnerContainer eid s = cid" for eid
    using that gone(6) [of eid]
    by (simp add: IsEntityValid_def GetEntityOwnerContainer_def mark_deleted_def split: option.splits)
  ultimately show ?thesis
    using gone(1,4) assms(5) by (simp add: ContainerExists_def hcontains_def Subscribe_def)
qed

text \<open>A server whose two grapes are subscribed to one container.\<close>

definition demo_shared :: node where
  "demo_shared = (new_node True ''s/'' ''u'' [])
     \<lparr>grapes := [(''g'', empty_grape\<lparr>gr_subs := [''c'']\<rparr>), (''h'', empty_grape\<lparr>gr_subs := [''c'']\<rparr>)],
      containers := [(''c'', new_container demo_world ''c'')]\<rparr>"

theorem unsubscribe_deletes_shared_witness:
  "\<not> ContainerExists ''c'' (Unsubscribe (GrapeSubs ''g'') ''c'' demo_shared) \<and>
   IsSubscribed (GrapeSubs ''h'') ''c'' (Unsubscribe (GrapeSubs ''g'') ''c'' demo_shared)"
proof -
  have "GrapeSubs ''g'' \<noteq> GrapeSubs ''h''" "IsSubscribed (GrapeSubs ''g'') ''c'' demo_shared"
    "IsSubscribed (GrapeSubs ''h'') ''c'' demo_shared" "ct_id (new_container demo_world ''c'') = ''c''"
    "map_of (containers demo_shared) ''c'' = Some (new_container demo_world ''c'')"
    by (simp_all add: demo_shared_def IsSubscribed_def get_subs_def new_container_def)
  from unsubscribe_deletes_shared [OF this(1-3,5,4)] show ?thesis by blast
qed

lemma subscribe_existing_witness:
  "\<exists>s'. Subscribe demo_world PeerSubs ''c'' (UserFn 1) False demo_shared = Ret (Some ''c'') s' \<and> user_calls s' = []"
proof -
  have "\<not> IsSubscribed PeerSubs ''c'' demo_shared" "ct_id (new_container demo_world ''c'') = ''c''"
    "map_of (containers demo_shared) ''c'' = Some (new_container demo_world ''c'')" "user_calls demo_shared = []"
    by (simp_all add: demo_shared_def IsSubscribed_def get_subs_def new_container_def new_node_def rpc.extend_def)
  then show ?thesis
    using subscribe_existing [of PeerSubs "''c''" demo_shared "new_container demo_world ''c''" demo_world "UserFn 1" False]
    by auto
qed

end
