(* ===== verification/Grapes.thy ===== *)
theory Grapes
  imports Containers
begin

text \<open>
  The grapes (\<open>Grape\<close>) and their registry (\<open>GrapeRegistry\<close>): registration, the containers a
  grape owns or subscribes to, the subscriptions of remote grapes to local containers and the
  remote methods of a grape. A call that waits for its answer is told what other threads do
  meanwhile by \<open>env\<close>.
\<close>

type_synonym environment = "nat \<Rightarrow> node \<Rightarrow> node"

section \<open>Remote methods of a grape\<close>

definition grape_server_methods :: "string list" where
  "grape_server_methods =
     [''GetExistingEntities'', ''GetExistingOwnedContainers'', ''SubscribeToContainer'',
      ''UnsubscribeFromContainer'', ''ProxyTakeAuthority'', ''RequestClientDisconnect'', ''Ping'',
      ''CMIInstantiate'', ''RPCHandler'']"

definition subscribe_grape_method :: "string \<Rightarrow> string \<Rightarrow> string \<Rightarrow> node \<Rightarrow> node" where
  "subscribe_grape_method topic gid m = register_method topic (rpc_name ''Grape'' m) (GrapeMethod gid m)"

definition grape_initRPCService :: "grape \<Rightarrow> node \<Rightarrow> node" where
  "grape_initRPCService g s =
     (let ds = topic_scope s; gid = gr_id g;
          s1 = (if server_mode s \<and> gr_local g
                then fold (subscribe_grape_method (tp_peer ds gid) gid) grape_server_methods s else s)
      in fold (subscribe_grape_method (tp_rpc ds gid) gid) [''RPCHandler'', ''ExecClientDisconnect''] s1)"

section \<open>The registry\<close>

definition SetAssignedGrape :: "string \<Rightarrow> node \<Rightarrow> node" where
  "SetAssignedGrape gid s = s\<lparr>assigned_grape := gid\<rparr>"

text \<open>\<open>RegisterGrape\<close>: the entry is inserted before the checks, so a throw leaves an empty grape behind.\<close>

definition RegisterGrape :: "string \<Rightarrow> bool \<Rightarrow> nat option \<Rightarrow> unit op" where
  "RegisterGrape gid isLocallyOwned onReady s =
     (if map_of (grapes s) gid \<noteq> None
      then Raise (RuntimeError (''Grape with id '' @ gid @ '' already exists.'')) s
      else
        (let s1 = s\<lparr>grapes := hput gid empty_grape (grapes s)\<rparr>
         in if server_mode s \<and> isLocallyOwned \<and> assigned_grape s \<noteq> []
            then Raise (RuntimeError ''Server already has a node assigned as locally owned.'') s1
            else
              (let s2 = (if server_mode s \<and> isLocallyOwned then SetAssignedGrape gid s1 else s1);
                   s3 = update_grape gid (\<lambda>g. g\<lparr>gr_id := gid, gr_local := isLocallyOwned\<rparr>) s2
               in Ret () (case onReady of None \<Rightarrow> s3
                    | Some f \<Rightarrow> ScheduleAsyncTask (GrapeReady gid isLocallyOwned f) s3))))"

definition UnregisterGrape :: "string \<Rightarrow> node \<Rightarrow> node" where
  "UnregisterGrape gid s = s\<lparr>grapes := herase gid (grapes s)\<rparr>"

definition GrapeExists :: "string \<Rightarrow> node \<Rightarrow> bool" where
  "GrapeExists gid s = hcontains (grapes s) gid"

definition grape_PushTaskToEngine :: "string \<Rightarrow> task \<Rightarrow> node \<Rightarrow> node" where
  "grape_PushTaskToEngine gid t = update_grape gid (\<lambda>g. g\<lparr>gr_tasks := PushTaskToEngine t (gr_tasks g)\<rparr>)"

definition grape_PollEngineTask :: "string \<Rightarrow> node \<Rightarrow> task option \<times> node" where
  "grape_PollEngineTask gid s =
     (case map_of (grapes s) gid of
        None \<Rightarrow> (None, s)
      | Some g \<Rightarrow> (let (t, q) = PollEngineTask (gr_tasks g) in (t, update_grape gid (\<lambda>g. g\<lparr>gr_tasks := q\<rparr>) s)))"

definition grape_PushTaskToSystem :: "string \<Rightarrow> task \<Rightarrow> node \<Rightarrow> node" where
  "grape_PushTaskToSystem gid t s = (if GrapeExists gid s then ScheduleAsyncTask t s else s)"

definition grape_PushIOTaskToSystem :: "string \<Rightarrow> task \<Rightarrow> node \<Rightarrow> node" where
  "grape_PushIOTaskToSystem gid t s = (if GrapeExists gid s then ScheduleAsyncIOTask t s else s)"

definition GetGrapeId :: "string \<Rightarrow> node \<Rightarrow> string" where
  "GetGrapeId gid s = (case map_of (grapes s) gid of None \<Rightarrow> [] | Some g \<Rightarrow> gr_id g)"

definition IsGrapeLocallyOwned :: "string \<Rightarrow> node \<Rightarrow> bool" where
  "IsGrapeLocallyOwned gid s = (case map_of (grapes s) gid of None \<Rightarrow> False | Some g \<Rightarrow> gr_local g)"

definition SetGrapeLocallyOwned :: "string \<Rightarrow> bool \<Rightarrow> node \<Rightarrow> node" where
  "SetGrapeLocallyOwned gid b = update_grape gid (\<lambda>g. g\<lparr>gr_local := b\<rparr>)"

definition GetKnownGrapes :: "node \<Rightarrow> string list" where
  "GetKnownGrapes s = hkeys (grapes s)"

definition PushNamedTaskToEngine :: "string \<Rightarrow> string \<Rightarrow> string list \<Rightarrow> node \<Rightarrow> node" where
  "PushNamedTaskToEngine gid name args =
     update_grape gid (\<lambda>g. g\<lparr>gr_named := pushNamedTaskToEngine name args (gr_named g)\<rparr>)"

definition PopNamedTaskFromEngine :: "nat \<Rightarrow> string \<Rightarrow> string \<Rightarrow> string list option op" where
  "PopNamedTaskFromEngine n gid name s =
     (case map_of (grapes s) gid of
        None \<Rightarrow> Ret None s
      | Some g \<Rightarrow>
          (case popNamedTaskFromEngine n name (gr_named g) of
             Ret r qs \<Rightarrow> Ret r (update_grape gid (\<lambda>g. g\<lparr>gr_named := qs\<rparr>) s)
           | Raise e qs \<Rightarrow> Raise e (update_grape gid (\<lambda>g. g\<lparr>gr_named := qs\<rparr>) s)))"

section \<open>Containers of a grape\<close>

definition getOwnedContainerNativeHandle :: "string \<Rightarrow> grape \<Rightarrow> nat option" where
  "getOwnedContainerNativeHandle cid g = (case map_of (gr_owned g) cid of None \<Rightarrow> None | Some h \<Rightarrow> h)"

definition GetOwnedContainerNativeHandle :: "string \<Rightarrow> string \<Rightarrow> node \<Rightarrow> nat option" where
  "GetOwnedContainerNativeHandle gid cid s =
     (case map_of (grapes s) gid of None \<Rightarrow> None | Some g \<Rightarrow> getOwnedContainerNativeHandle cid g)"

definition SetOwnedContainerNativeHandle :: "string \<Rightarrow> string \<Rightarrow> nat \<Rightarrow> node \<Rightarrow> node" where
  "SetOwnedContainerNativeHandle gid cid h =
     update_grape gid (\<lambda>g. g\<lparr>gr_owned := omap_put cid (Some h) (gr_owned g)\<rparr>)"

text \<open>\<open>Grape::__subscribeToContainer\<close> of the grape stored under \<open>gid\<close>.\<close>

definition grape_subscribeToContainer :: "world \<Rightarrow> string \<Rightarrow> string \<Rightarrow> callback \<Rightarrow> bool \<Rightarrow> string option op" where
  "grape_subscribeToContainer w gid cid onReady isLocallyOwned s =
     obind (Subscribe w (GrapeSubs gid) cid onReady isLocallyOwned s)
       (\<lambda>r s1. case r of
          None \<Rightarrow> Ret None s1
        | Some newId \<Rightarrow>
            Ret (Some newId)
              (if isLocallyOwned
               then update_grape gid (\<lambda>g. g\<lparr>gr_owned := omap_put newId None (gr_owned g)\<rparr>) s1
               else LoadExistingEntities (GetGrapeId gid s1) cid s1))"

definition grape_unsubscribeFromContainer :: "string \<Rightarrow> string \<Rightarrow> node \<Rightarrow> node" where
  "grape_unsubscribeFromContainer gid cid s =
     (if ContainerIsLocallyOwned cid s then s else Unsubscribe (GrapeSubs gid) cid s)"

definition ContainerCreateAndAttach :: "world \<Rightarrow> string \<Rightarrow> nat \<Rightarrow> string \<Rightarrow> string op" where
  "ContainerCreateAndAttach w gid onReady cid s =
     (case map_of (grapes s) gid of
        None \<Rightarrow> Ret ''error-bad-grape'' s
      | Some g \<Rightarrow>
          obind (grape_subscribeToContainer w gid cid (PushTop onReady) (gr_local g) s)
            (\<lambda>r. Ret (case r of None \<Rightarrow> cid | Some newId \<Rightarrow> newId)))"

definition SubscribeGrapeToContainer :: "world \<Rightarrow> string \<Rightarrow> string \<Rightarrow> callback \<Rightarrow> bool op" where
  "SubscribeGrapeToContainer w gid cid onReady s =
     (if map_of (grapes s) gid = None then Ret False s
      else obind (grape_subscribeToContainer w gid cid onReady False s) (\<lambda>_. Ret True))"

definition UnsubscribeGrapeFromContainer :: "string \<Rightarrow> string \<Rightarrow> node \<Rightarrow> node" where
  "UnsubscribeGrapeFromContainer gid cid s =
     (if map_of (grapes s) gid = None then s else grape_unsubscribeFromContainer gid cid s)"

section \<open>Calls\<close>

text \<open>A call with the options the code uses for all its calls to one peer, and its result.\<close>

definition call_log_error ::
  "world \<Rightarrow> environment \<Rightarrow> (json \<Rightarrow> exn + 'r) \<Rightarrow> string \<Rightarrow> string \<Rightarrow> int \<Rightarrow> int \<Rightarrow> string list \<Rightarrow> 'r call_result op" where
  "call_log_error w env de peer name timeout n args s =
     builder_call w env de name
       (retry n (with_timeout timeout (on_fail FailLogError (builder_for (on_peer (topic_scope s) peer)))))
       (map JStr args) s"

text \<open>Conversions of a response: \<open>bool\<close>, a vector of strings, a map from strings to strings.\<close>

fun de_bool :: "json \<Rightarrow> exn + bool" where
  "de_bool (JBool b) = Inr b"
| "de_bool _ = Inl (JsonError ''type_error'')"

fun de_strings :: "json list \<Rightarrow> exn + string list" where
  "de_strings [] = Inr []"
| "de_strings (j # js) =
     (case json_string j of Inl e \<Rightarrow> Inl e
      | Inr x \<Rightarrow> (case de_strings js of Inl e \<Rightarrow> Inl e | Inr xs \<Rightarrow> Inr (x # xs)))"

fun de_vector :: "json \<Rightarrow> exn + string list" where
  "de_vector (JArr js) = de_strings js"
| "de_vector _ = Inl (JsonError ''type_error'')"

fun de_map :: "json \<Rightarrow> exn + (string, string) hmap" where
  "de_map (JObj m) =
     (case de_strings (map snd m) of Inl e \<Rightarrow> Inl e | Inr vs \<Rightarrow> Inr (zip (map fst m) vs))"
| "de_map _ = Inl (JsonError ''type_error'')"

text \<open>
  \<open>SetRemoteGrapeSubscription\<close>: the proxy set of the remote grape is changed before the call,
  whatever its result.
\<close>

definition SetRemoteGrapeSubscription ::
  "world \<Rightarrow> environment \<Rightarrow> string \<Rightarrow> string \<Rightarrow> string \<Rightarrow> bool \<Rightarrow> unit op" where
  "SetRemoteGrapeSubscription w env owner gid cid subscribe s =
     (if gid = assigned_grape s then Ret () s
      else (case map_of (grapes s) gid of
              None \<Rightarrow> Ret () s
            | Some g \<Rightarrow>
                if subscribe \<and> cid \<notin> set (gr_proxy g) then
                  obind (call_log_error w env de_bool gid (rpc_name ''Grape'' ''SubscribeToContainer'') 1000 3 [owner, cid]
                      (update_grape gid (\<lambda>g. g\<lparr>gr_proxy := oset_insert cid (gr_proxy g)\<rparr>) s))
                    (\<lambda>_. Ret ())
                else if \<not> subscribe \<and> cid \<in> set (gr_proxy g) then
                  obind (call_log_error w env de_bool gid (rpc_name ''Grape'' ''UnsubscribeFromContainer'') 1000 3 [owner, cid]
                      (update_grape gid (\<lambda>g. g\<lparr>gr_proxy := oset_erase cid (gr_proxy g)\<rparr>) s))
                    (\<lambda>_. Ret ())
                else Ret () s))"

definition fetchExistingContainers :: "world \<Rightarrow> environment \<Rightarrow> string \<Rightarrow> unit op" where
  "fetchExistingContainers w env gid s =
     (let name = GetGrapeId gid s
      in if server_mode s \<and> name = assigned_grape s then Ret () s
         else
           ocatch
             (obind (call_log_error w env de_vector name (rpc_name ''Grape'' ''GetExistingOwnedContainers'') 1000 3 [name] s)
                (\<lambda>r. ofold (\<lambda>cid s. obind (grape_subscribeToContainer w gid cid NoCallback False s) (\<lambda>_. Ret ()))
                      (case r of Got cs \<Rightarrow> cs | _ \<Rightarrow> [])))
             (\<lambda>e. Ret ()))"

text \<open>The task of \<open>RegisterGrape\<close>; the task pushed to the grape is the user's callback.\<close>

definition grape_ready :: "world \<Rightarrow> environment \<Rightarrow> string \<Rightarrow> bool \<Rightarrow> nat \<Rightarrow> unit op" where
  "grape_ready w env gid isLocallyOwned onReady s =
     (case map_of (grapes s) gid of
        None \<Rightarrow> Ret () s
      | Some g \<Rightarrow>
          obind (if server_mode s \<and> \<not> isLocallyOwned
                 then fetchExistingContainers w env gid (grape_initRPCService g s)
                 else Ret () (grape_initRPCService g s))
            (\<lambda>_ s1. Ret () (grape_PushTaskToEngine gid (RunUser onReady) s1)))"

section \<open>The remote methods\<close>

definition Grape_SubscribeToContainer :: "string \<Rightarrow> string \<Rightarrow> node \<Rightarrow> bool \<times> node" where
  "Grape_SubscribeToContainer owner cid s = (True, ScheduleAsyncIOTask (SubscribeGrapeIO owner cid) s)"

definition Grape_UnsubscribeFromContainer :: "string \<Rightarrow> string \<Rightarrow> node \<Rightarrow> bool \<times> node" where
  "Grape_UnsubscribeFromContainer owner cid s = (True, ScheduleAsyncIOTask (UnsubscribeGrapeIO owner cid) s)"

definition subscribe_grape_io :: "world \<Rightarrow> string \<Rightarrow> string \<Rightarrow> unit op" where
  "subscribe_grape_io w gid cid s =
     (if map_of (grapes s) gid = None then Ret () s
      else obind (grape_subscribeToContainer w gid cid NoCallback False s) (\<lambda>_. Ret ()))"

definition unsubscribe_grape_io :: "string \<Rightarrow> string \<Rightarrow> node \<Rightarrow> node" where
  "unsubscribe_grape_io gid cid s =
     (if map_of (grapes s) gid = None then s else grape_unsubscribeFromContainer gid cid s)"

definition GetExistingOwnedContainers :: "string \<Rightarrow> node \<Rightarrow> string list" where
  "GetExistingOwnedContainers gid s =
     (case map_of (grapes s) gid of None \<Rightarrow> [] | Some g \<Rightarrow> hkeys (gr_owned g))"

definition ForgetClient :: "string \<Rightarrow> node \<Rightarrow> node" where
  "ForgetClient cid s = s\<lparr>clients := herase cid (clients s)\<rparr>"

definition ExecClientDisconnect :: "string \<Rightarrow> string \<Rightarrow> bool op" where
  "ExecClientDisconnect cid payload s =
     obind (call_hook OnClientDisconnect [cid, payload] s)
       (\<lambda>_ s1. Ret True (if server_mode s1 then ForgetClient cid s1 else s1))"

definition RequestClientDisconnect :: "string \<Rightarrow> bool op" where
  "RequestClientDisconnect cid s = obind (call_hook OnClientRequestDisconnect [cid] s) (\<lambda>_. Ret True)"

definition CMIInstantiate :: "string \<Rightarrow> string \<Rightarrow> string \<Rightarrow> string \<Rightarrow> string \<Rightarrow> node \<Rightarrow> node" where
  "CMIInstantiate gid cmiId prefabId payload clientId =
     PushNamedTaskToEngine gid ''CMIInstantiate'' [cmiId, prefabId, payload, clientId]"

end
