(* ===== verification/Authority.thy ===== *)
theory Authority
  imports Grapes
begin

text \<open>
  The transfer of the authority over an entity from one container to another
  (\<open>AuthorityTransfer\<close>), with the remote methods of \<open>Container\<close> that receive the orders. The
  source puts the entity in quarantine and sends a take order on the topic of the target
  and a drop order on the topic of the source; every peer of the target sets the new owner,
  and every peer that does not know the target deletes the entity.
\<close>

section \<open>Times\<close>

text \<open>\<open>Clock::ToISOString\<close> and \<open>FromISOString\<close>: whole seconds, in nanoseconds.\<close>

definition ToISOString :: "world \<Rightarrow> int \<Rightarrow> string" where
  "ToISOString w tp = iso_text w (sgn tp * (\<bar>tp\<bar> div 1000000000))"

definition FromISOString :: "world \<Rightarrow> string \<Rightarrow> int" where
  "FromISOString w str = iso_time w str * 1000000000"

definition ms_later :: "world \<Rightarrow> int \<Rightarrow> node \<Rightarrow> int \<times> node" where
  "ms_later w ms s = (let (now, s1) = GetUnifiedTime w s in (now + ms * 1000000, s1))"

text \<open>\<open>ScheduleAt\<close>: how long its task sleeps, in milliseconds, before it runs.\<close>

definition schedule_delay :: "world \<Rightarrow> int \<Rightarrow> node \<Rightarrow> int \<times> node" where
  "schedule_delay w tp s =
     (let (now, s1) = GetUnifiedTime w s in (if now \<ge> tp then 0 else (tp - now) div 1000000, s1))"

section \<open>The orders\<close>

text \<open>The arguments of an order, as the sender builds them.\<close>

definition order_args :: "string \<Rightarrow> string \<Rightarrow> string \<Rightarrow> string \<Rightarrow> string \<Rightarrow> string \<Rightarrow> json \<Rightarrow> json" where
  "order_args entityId toContainerId fromContainerId procedureId when payload ghost =
     JObj (fold (\<lambda>kv. omap_put (fst kv) (snd kv))
       [(''e'', JStr entityId), (''t'', JStr toContainerId), (''f'', JStr fromContainerId),
        (''p'', JStr procedureId), (''w'', JStr when), (''payload'', JStr payload), (''g'', ghost)] [])"

text \<open>The failure handler of the take order only prints.\<close>

definition notifyTakeAuthority :: "world \<Rightarrow> json \<Rightarrow> unit op" where
  "notifyTakeAuthority w args s =
     (case json_get_string args ''t'' of
        Inl e \<Rightarrow> Raise e s
      | Inr to \<Rightarrow>
          builder_fire w (on_fail FailIgnore (builder_for (on_scope (topic_scope s) to)))
            (rpc_name ''Container'' ''TakeAuthority'') [JStr (jdump w args)] s)"

definition notifyDrop :: "world \<Rightarrow> json \<Rightarrow> unit op" where
  "notifyDrop w args s =
     (case json_get_string args ''f'' of
        Inl e \<Rightarrow> Raise e s
      | Inr from \<Rightarrow>
          fire_log_error w (on_scope (topic_scope s) from) (rpc_name ''Container'' ''DropAuthority'')
            [jdump w args] s)"

text \<open>Whether a transfer of the entity goes ahead.\<close>

definition transferable :: "string \<Rightarrow> bool \<Rightarrow> entity \<Rightarrow> bool" where
  "transferable toContainerId ignoreNoMove e \<longleftrightarrow>
     \<not> (et_quarantine e \<or> \<not> et_valid e \<or> (et_owner e = toContainerId \<and> \<not> ignoreNoMove))"

text \<open>
  \<open>TransferAuthority\<close>. Without properties the ghost is the JSON string \<open>{}\<close>, not an object:
  that is what \<open>value_or("{}")\<close> makes of it.
\<close>

definition TransferAuthority :: "world \<Rightarrow> string \<Rightarrow> string \<Rightarrow> string \<Rightarrow> bool \<Rightarrow> unit op" where
  "TransferAuthority w entityId toContainerId payload ignoreNoMove s =
     (case map_of (entities s) entityId of
        None \<Rightarrow> Ret () s
      | Some e \<Rightarrow>
          if \<not> transferable toContainerId ignoreNoMove e then Ret () s
          else
            (let s1 = update_entity entityId (\<lambda>e. e\<lparr>et_quarantine := True\<rparr>) s
             in if \<not> server_mode s then Ret () s1
                else
                  (let (procedureId, s2) = GenUUID w s1;
                       (when, s3) = ms_later w 2000 s2;
                       (props, g) = PeekProperties entityId (ghosts s3);
                       ghost = (case props of None \<Rightarrow> JStr ''{}'' | Some j \<Rightarrow> j);
                       args = order_args entityId toContainerId (et_owner e) procedureId
                         (ToISOString w when) payload ghost
                   in obind (notifyTakeAuthority w args (s3\<lparr>ghosts := g\<rparr>)) (\<lambda>_. notifyDrop w args))))"

text \<open>\<open>ExecTakeOrder\<close>.\<close>

definition ExecTakeOrder :: "world \<Rightarrow> json \<Rightarrow> unit op" where
  "ExecTakeOrder w args s =
     (case map (json_get_string args) [''e'', ''t'', ''f'', ''p'', ''w'', ''payload''] of
        [Inr entityId, Inr toContainerId, Inr _, Inr _, Inr _, Inr payload] \<Rightarrow>
          (case json_at args ''g'' of
             Inl e \<Rightarrow> Raise e s
           | Inr ghostData \<Rightarrow>
               (let s1 = update_entity entityId (\<lambda>e. e\<lparr>et_owner := toContainerId, et_quarantine := False\<rparr>) s;
                    s2 = (if IsEntityRegistered entityId s1 then s1
                          else push_top (InstantiateEntity entityId payload toContainerId ghostData) s1)
                in Ret () (if server_mode s then RegisterNewOwnedEntityToContainer toContainerId entityId s2 else s2)))
      | _ \<Rightarrow> Raise (JsonError ''type_error'') s)"

text \<open>The engine's task for a new entity; the exceptions of the ghost update are caught.\<close>

definition instantiate_entity :: "world \<Rightarrow> string \<Rightarrow> string \<Rightarrow> string \<Rightarrow> json \<Rightarrow> unit op" where
  "instantiate_entity w entityId payload toContainerId ghost s =
     obind (EngineCallInstantiate entityId payload toContainerId s)
       (\<lambda>_ s1. Ret () (ostate (lift_ghost (apply_entity_update w entityId ghost (ghosts s1)) s1)))"

text \<open>\<open>ExecDropOrder\<close>: the arguments may come wrapped in an array.\<close>

definition drop_args :: "world \<Rightarrow> json \<Rightarrow> exn + json" where
  "drop_args w args =
     (case args of
        JArr (x # xs) \<Rightarrow>
          (case json_string x of
             Inl e \<Rightarrow> Inl e
           | Inr text \<Rightarrow> (case jparse w text of None \<Rightarrow> Inl (JsonError (parse_error w text)) | Some j \<Rightarrow> Inr j))
      | _ \<Rightarrow> Inr args)"

definition ExecDropOrder :: "world \<Rightarrow> json \<Rightarrow> unit op" where
  "ExecDropOrder w args0 s =
     (case drop_args w args0 of
        Inl e \<Rightarrow> Raise e s
      | Inr args \<Rightarrow>
          (case map (json_get_string args) [''e'', ''t'', ''f'', ''p'', ''w''] of
             [Inr entityId, Inr toContainerId, Inr fromContainerId, Inr procedureId, Inr when] \<Rightarrow>
               if fromContainerId = toContainerId then Ret () s
               else Ret () (ScheduleAsyncTask
                 (DropEntityAt (FromISOString w when) entityId toContainerId fromContainerId procedureId) s)
           | _ \<Rightarrow> Raise (JsonError ''type_error'') s))"

text \<open>\<open>__execDropOrderImpl\<close>, under the lock of the entity.\<close>

definition execDropOrderImpl :: "string \<Rightarrow> string \<Rightarrow> string \<Rightarrow> node \<Rightarrow> node" where
  "execDropOrderImpl entityId toContainerId fromContainerId s =
     (case map_of (entities s) entityId of
        None \<Rightarrow> s
      | Some e \<Rightarrow>
          (let known = ContainerExists toContainerId s;
               s1 = (if known then s
                     else update_entity entityId (\<lambda>e. e\<lparr>et_valid := False, et_quarantine := True\<rparr>) s);
               s2 = (if server_mode s \<and> fromContainerId \<noteq> toContainerId
                     then RemoveOwnedEntityFromContainer fromContainerId (et_id e) s1 else s1)
           in if known then s2 else push_top (DeleteAndUnregister (et_id e) (et_payload e)) s2))"

definition drop_entity_at ::
  "world \<Rightarrow> environment \<Rightarrow> int \<Rightarrow> string \<Rightarrow> string \<Rightarrow> string \<Rightarrow> node \<Rightarrow> node" where
  "drop_entity_at w env when entityId toContainerId fromContainerId s =
     (let (delay, s1) = schedule_delay w when s
      in execDropOrderImpl entityId toContainerId fromContainerId (if delay = 0 then s1 else env 0 s1))"

section \<open>The remote methods of a container\<close>

definition order_handler :: "world \<Rightarrow> nat \<Rightarrow> (json \<Rightarrow> unit op) \<Rightarrow> string \<Rightarrow> unit op" where
  "order_handler w line exec args s =
     ocatch
       (case jparse w args of
          None \<Rightarrow> Raise (JsonError (parse_error w args)) s
        | Some j \<Rightarrow> exec j s)
       (\<lambda>e s. let msg = celte_error ''Container.cpp'' line (exn_what e)
              in Raise (AuthorityTransferExn msg) (log_error msg s))"

definition TakeAuthority :: "world \<Rightarrow> string \<Rightarrow> unit op" where
  "TakeAuthority w = order_handler w 95 (ExecTakeOrder w)"

definition DropAuthority :: "world \<Rightarrow> string \<Rightarrow> unit op" where
  "DropAuthority w = order_handler w 104 (ExecDropOrder w)"

definition DeleteEntity :: "string \<Rightarrow> string \<Rightarrow> node \<Rightarrow> node" where
  "DeleteEntity entityId payload = push_top (DeleteHook entityId payload)"

definition delete_hook :: "string \<Rightarrow> string \<Rightarrow> unit op" where
  "delete_hook entityId payload s = call_hook OnDeleteEntity [entityId, payload] (SetEntityValid entityId False s)"

section \<open>Authority through a proxy\<close>

definition AT_ProxyTakeAuthority :: "world \<Rightarrow> string \<Rightarrow> string \<Rightarrow> string \<Rightarrow> string \<Rightarrow> unit op" where
  "AT_ProxyTakeAuthority w gid entityId fromContainerId payload s =
     fire_log_error w (on_peer (topic_scope s) gid) (rpc_name ''Grape'' ''ProxyTakeAuthority'')
       [entityId, fromContainerId, payload] s"

definition rp_proxyTakeAuthority :: "string \<Rightarrow> string \<Rightarrow> string \<Rightarrow> string \<Rightarrow> node \<Rightarrow> node" where
  "rp_proxyTakeAuthority newOwnerGrapeId entityId fromContainerId payload =
     PushNamedTaskToEngine newOwnerGrapeId ''proxyTakeAuthority'' [entityId, fromContainerId, payload]"

definition GRAPES_ProxyTakeAuthority :: "world \<Rightarrow> string \<Rightarrow> string \<Rightarrow> unit op" where
  "GRAPES_ProxyTakeAuthority w gid entityId s =
     (let from = GetEntityOwnerContainer entityId s
      in if \<not> ContainerIsLocallyOwned from s then Ret () s
         else
           (case map_of (grapes s) gid of
              None \<Rightarrow> Ret () s
            | Some g \<Rightarrow>
                if gr_local g then Ret () s
                else AT_ProxyTakeAuthority w gid entityId from
                  (case GetEntityPayload entityId s of None \<Rightarrow> ''{}'' | Some p \<Rightarrow> p) s))"

end
