(* ===== verification/Peer.thy ===== *)
theory Peer
  imports Authority
begin

text \<open>
  The peer service of servers and clients (\<open>PeerService\<close>), the client registry
  (\<open>ClientRegistry\<close>), the parts of \<open>Runtime\<close> that call other peers, and the remote procedures
  that the engine defines itself (\<open>exports.cpp\<close>, \<open>CustomRPC.hpp\<close>).
\<close>

section \<open>Registration of the remote methods\<close>

definition subscribe_peer_method :: "string \<Rightarrow> string \<Rightarrow> node \<Rightarrow> node" where
  "subscribe_peer_method topic m = register_method topic (rpc_name ''PeerService'' m) (PeerMethod m)"

definition registerServerRPCs :: "node \<Rightarrow> node" where
  "registerServerRPCs s =
     fold (subscribe_peer_method (tp_rpc (topic_scope s) (peer_uuid s)))
       [''AssignGrape'', ''RequestSpawnPosition'', ''AcceptNewClient'', ''RPCHandler''] s"

definition registerClientRPCs :: "node \<Rightarrow> node" where
  "registerClientRPCs s =
     fold (subscribe_peer_method (tp_peer (topic_scope s) (peer_uuid s)))
       [''ForceConnectToNode'', ''SubscribeClientToContainer'', ''UnsubscribeClientFromContainer'',
        ''Ping'', ''RPCHandler''] s"

definition initPeerRPCs :: "node \<Rightarrow> node" where
  "initPeerRPCs s = (if server_mode s then registerServerRPCs s else registerClientRPCs s)"

definition InitGlobalRPC :: "node \<Rightarrow> node" where
  "InitGlobalRPC s =
     register_method (global_rpc (topic_scope s)) (rpc_name ''Global'' ''RPCHandler'') GlobalMethod s"

section \<open>The client registry\<close>

text \<open>\<open>RegisterClient\<close>: the time is read even when the client is known, and then nothing changes.\<close>

definition RegisterClient :: "world \<Rightarrow> string \<Rightarrow> string \<Rightarrow> bool \<Rightarrow> node \<Rightarrow> node" where
  "RegisterClient w cid gid isLocallyOwned s =
     (let (now, s1) = GetUnifiedTime w s
      in if map_of (clients s1) cid = None
         then s1\<lparr>clients := hput cid \<lparr>cd_id = cid, cd_last_seen = now, cd_local = isLocallyOwned,
                cd_grape = gid, cd_subs = []\<rparr> (clients s1)\<rparr>
         else s1)"

definition isSubscribedToContainer :: "string \<Rightarrow> client_data \<Rightarrow> bool" where
  "isSubscribedToContainer cid c \<longleftrightarrow> cid \<in> set (cd_subs c)"

text \<open>
  \<open>RegisterClient(clientId, "", "")\<close>, as the code calls it: the third argument is a pointer to
  a literal, which converts to true.
\<close>

definition register_client_literal :: "world \<Rightarrow> string \<Rightarrow> node \<Rightarrow> node" where
  "register_client_literal w cid = RegisterClient w cid [] True"

section \<open>Server side\<close>

definition AssignGrape :: "string \<Rightarrow> node \<Rightarrow> bool \<times> node" where
  "AssignGrape gid s = (True, push_top (LoadGrapeHook gid True) (SetAssignedGrape gid s))"

definition RequestSpawnPosition :: "world \<Rightarrow> string \<Rightarrow> string op" where
  "RequestSpawnPosition w clientId s =
     obind (call_hook OnGetClientInitialGrape [clientId] s)
       (\<lambda>_. Ret (jdump w (JObj (omap_put ''clientId'' (JStr clientId)
                  (omap_put ''grapeId'' (JStr (initial_grape w clientId)) [])))))"

definition AcceptNewClient :: "world \<Rightarrow> string \<Rightarrow> string \<Rightarrow> node \<Rightarrow> bool \<times> node" where
  "AcceptNewClient w clientId spawnerId s =
     (let s1 = register_client_literal w clientId s
      in (True, grape_PushTaskToEngine (assigned_grape s1) (AcceptClientHook clientId spawnerId) s1))"

definition ConnectClientToThisNode :: "world \<Rightarrow> environment \<Rightarrow> string \<Rightarrow> nat \<Rightarrow> unit op" where
  "ConnectClientToThisNode w env clientId f s =
     obind (call_log_error w env de_bool clientId (rpc_name ''PeerService'' ''ForceConnectToNode'') 1000 3
         [assigned_grape s] s)
       (\<lambda>r s1. Ret ()
          (if r = Got True then push_top (RunUser f) s1
           else log_error (''Error connecting client '' @ clientId @ '' to grape '' @ assigned_grape s1) s1))"

text \<open>\<open>SubscribeClientToContainer\<close> on the server: the subscription is recorded before the client is asked.\<close>

definition server_SubscribeClientToContainer :: "string \<Rightarrow> string \<Rightarrow> nat \<Rightarrow> node \<Rightarrow> node" where
  "server_SubscribeClientToContainer clientId cid f s =
     (if map_of (grapes s) (assigned_grape s) = None then s
      else if \<not> ContainerIsLocallyOwned cid s then
        log_error (''Error: container '' @ cid @ '' is not locally owned, could not subscribe client to it.'') s
      else
        (case map_of (clients s) clientId of
           None \<Rightarrow> s
         | Some c \<Rightarrow>
             if isSubscribedToContainer cid c then run_callback (UserFn f) s
             else ScheduleAsyncIOTask (SubscribeClientIO clientId cid f)
                    (update_client clientId (\<lambda>c. c\<lparr>cd_subs := oset_insert cid (cd_subs c)\<rparr>) s)))"

definition subscribe_client_io :: "string \<Rightarrow> string \<Rightarrow> nat \<Rightarrow> node \<Rightarrow> node" where
  "subscribe_client_io clientId cid f = ScheduleAsyncTask (SubscribeClientCall clientId cid f)"

definition subscribe_client_call :: "world \<Rightarrow> environment \<Rightarrow> string \<Rightarrow> string \<Rightarrow> nat \<Rightarrow> unit op" where
  "subscribe_client_call w env clientId cid f s =
     run_async_call w env de_bool (rpc_name ''PeerService'' ''SubscribeClientToContainer'')
       (retry 3 (with_timeout 1000 (on_fail FailLogError (builder_for (on_peer (topic_scope s) clientId)))))
       (\<lambda>ok s. Ret () (if ok then run_callback (UserFn f) s else log_error ''Error subscribing client to container'' s))
       [JStr cid, JStr (assigned_grape s)] s"

definition server_UnsubscribeClientFromContainer :: "string \<Rightarrow> string \<Rightarrow> node \<Rightarrow> node" where
  "server_UnsubscribeClientFromContainer clientId cid s =
     (if map_of (grapes s) (assigned_grape s) = None then s
      else if \<not> ContainerIsLocallyOwned cid s then
        log_error (''Error: container '' @ cid @ '' is not locally owned, could not unsubscribe client from it.'') s
      else
        (case map_of (clients s) clientId of
           None \<Rightarrow> s
         | Some c \<Rightarrow>
             if \<not> isSubscribedToContainer cid c then s
             else ScheduleAsyncIOTask (UnsubscribeClientIO clientId cid)
                    (update_client clientId (\<lambda>c. c\<lparr>cd_subs := oset_erase cid (cd_subs c)\<rparr>) s)))"

definition unsubscribe_client_io :: "world \<Rightarrow> environment \<Rightarrow> string \<Rightarrow> string \<Rightarrow> unit op" where
  "unsubscribe_client_io w env clientId cid s =
     obind (call_log_error w env de_bool clientId (rpc_name ''PeerService'' ''UnsubscribeClientFromContainer'') 1000 3 [cid] s)
       (\<lambda>r s1. Ret () (if r = Got True then s1 else log_error ''Error unsubscribing client from container'' s1))"

section \<open>Client side\<close>

text \<open>
  The loop of \<open>ForceConnectToNode\<close> that waits for the grape: \<open>env k\<close> is what the other threads
  do during round \<open>k\<close>.
\<close>

partial_function (option) wait_grape :: "environment \<Rightarrow> nat \<Rightarrow> string \<Rightarrow> node \<Rightarrow> node option" where
  "wait_grape env k gid s = (if GrapeExists gid s then Some s else wait_grape env (Suc k) gid (env k s))"

declare wait_grape.simps [code]

definition ForceConnectToNode :: "environment \<Rightarrow> string \<Rightarrow> node \<Rightarrow> (bool \<times> node) option" where
  "ForceConnectToNode env gid s =
     map_option (Pair True) (wait_grape env 0 gid (ScheduleAsyncTask (LoadGrapeHook gid False) s))"

definition client_SubscribeClientToContainer :: "world \<Rightarrow> string \<Rightarrow> string \<Rightarrow> bool op" where
  "client_SubscribeClientToContainer w cid ownerGrapeId s =
     obind (Subscribe w PeerSubs cid NoCallback False s)
       (\<lambda>_ s1. Ret True (LoadExistingEntities ownerGrapeId cid s1))"

definition client_UnsubscribeClientFromContainer :: "string \<Rightarrow> node \<Rightarrow> bool \<times> node" where
  "client_UnsubscribeClientFromContainer cid s = (True, Unsubscribe PeerSubs cid s)"

section \<open>Latency\<close>

text \<open>
  \<open>GetLatency\<close> over the known grapes: \<open>steady k\<close> is the \<open>k\<close>-th read of the steady clock, in
  nanoseconds. The failure handler stores -1, and the elapsed time is stored in any case.
\<close>

fun latency_loop ::
  "world \<Rightarrow> environment \<Rightarrow> (nat \<Rightarrow> int) \<Rightarrow> nat \<Rightarrow> string list \<Rightarrow> (string, int) hmap \<Rightarrow> (string, int) hmap op" where
  "latency_loop w env steady k [] lat s = Ret lat s"
| "latency_loop w env steady k (g # gs) lat s =
     obind (builder_call w env de_bool (rpc_name ''Grape'' ''Ping'')
         (retry 3 (with_timeout 10000 (on_fail (FailDo 0) (builder_for (on_peer (topic_scope s) g))))) [] s)
       (\<lambda>r. (let lat1 = (if r = NoValue then omap_put g (- 1) lat else lat);
                 lat2 = omap_put g ((steady (Suc k) - steady k) div 1000000) lat1
             in latency_loop w env steady (Suc (Suc k)) gs lat2))"

definition GetLatency :: "world \<Rightarrow> environment \<Rightarrow> (nat \<Rightarrow> int) \<Rightarrow> (string, int) hmap op" where
  "GetLatency w env steady s = latency_loop w env steady 0 (GetKnownGrapes s) [] s"

section \<open>Runtime\<close>

definition ForceDisconnectClient :: "world \<Rightarrow> string \<Rightarrow> string \<Rightarrow> unit op" where
  "ForceDisconnectClient w clientId payload s =
     fire_log_error w (on_scope (topic_scope s) (assigned_grape s))
       (rpc_name ''Grape'' ''ExecClientDisconnect'') [clientId, payload] s"

definition Disconnect :: "world \<Rightarrow> unit op" where
  "Disconnect w s =
     ofold (\<lambda>g s. fire_log_error w (on_peer (topic_scope s) (gr_id g))
              (rpc_name ''Grape'' ''RequestClientDisconnect'') [peer_uuid s] s)
       (map snd (grapes s)) s"

text \<open>
  \<open>__connectToMaster\<close>, with the body of the master's answer: whether the node was accepted.
  An index into the answer that is not an object throws.
\<close>

definition connectToMaster :: "world \<Rightarrow> string \<Rightarrow> bool op" where
  "connectToMaster w strResponse s =
     (case jparse w strResponse of
        None \<Rightarrow> Ret False s
      | Some response \<Rightarrow>
          (case json_at response ''message'' of
             Inl e \<Rightarrow> Raise e s
           | Inr msg \<Rightarrow>
               if msg \<noteq> JStr ''Node accepted'' then Ret False s
               else
                 (case json_at response ''node'' of
                    Inl e \<Rightarrow> Raise e s
                  | Inr node \<Rightarrow>
                      (case json_at node ''payload'' of
                         Inl e \<Rightarrow> Raise e s
                       | Inr payload \<Rightarrow>
                           if is_null payload then Ret False s
                           else
                             (case json_string payload of
                                Inl e \<Rightarrow> Raise e s
                              | Inr p \<Rightarrow>
                                  obind (call_hook OnServerReceivedInitializationPayload [p] s) (\<lambda>_. Ret True))))))"

text \<open>
  The callback of \<open>Runtime::Connect\<close> on a server, after the peer service is connected: a failure
  calls \<open>onConnectionFailed\<close>, and then \<open>onConnectionSuccess\<close> is called as well.
\<close>

definition master_phase :: "world \<Rightarrow> string \<Rightarrow> unit op" where
  "master_phase w strResponse s =
     ocatch
       (obind (connectToMaster w strResponse (InitGlobalRPC s))
          (\<lambda>ok s1. if ok then Ret () s1 else call_hook OnConnectionFailed [] s1))
       (\<lambda>_ s1. call_hook OnConnectionFailed [] s1)"

definition server_connected :: "world \<Rightarrow> string \<Rightarrow> unit op" where
  "server_connected w strResponse s =
     obind (master_phase w strResponse s) (\<lambda>_. call_hook OnConnectionSuccess [])"

definition client_connected :: "bool \<Rightarrow> unit op" where
  "client_connected connected s =
     (let s1 = InitGlobalRPC s
      in if \<not> connected then call_hook OnConnectionFailed [] s1 else call_hook OnConnectionSuccess [] s1)"

section \<open>Remote procedures of the engine\<close>

text \<open>
  The filter of a registration: 0 for every peer, 1 for servers, 2 and more for clients. The
  first use of the global procedures creates them; a method that is registered stays as it is.
\<close>

definition rpc_filter :: "bool \<Rightarrow> int \<Rightarrow> bool" where
  "rpc_filter server f \<longleftrightarrow> f = 0 \<or> (if server then f = 1 else f \<ge> 2)"

definition RegisterGlobalRPC :: "string \<Rightarrow> int \<Rightarrow> nat \<Rightarrow> node \<Rightarrow> node" where
  "RegisterGlobalRPC name fl f s =
     (if rpc_filter (server_mode s) fl
      then (let s1 = InitGlobalRPC s in s1\<lparr>global_rpcs := RegisterRPC name f (global_rpcs s1)\<rparr>) else s)"

definition RegisterGrapeRPC :: "string \<Rightarrow> int \<Rightarrow> string \<Rightarrow> nat \<Rightarrow> node \<Rightarrow> node" where
  "RegisterGrapeRPC gid fl name f s =
     (if rpc_filter (server_mode s) fl
      then update_grape gid (\<lambda>g. g\<lparr>gr_rpcs := RegisterRPC name f (gr_rpcs g)\<rparr>) s else s)"

definition RegisterEntityRPC :: "string \<Rightarrow> int \<Rightarrow> string \<Rightarrow> nat \<Rightarrow> node \<Rightarrow> node" where
  "RegisterEntityRPC eid fl name f s =
     (if rpc_filter (server_mode s) fl
      then update_entity eid (\<lambda>e. e\<lparr>et_rpcs := RegisterRPC name f (et_rpcs e)\<rparr>) s else s)"

definition RegisterClientRPC :: "string \<Rightarrow> string \<Rightarrow> nat \<Rightarrow> node \<Rightarrow> node" where
  "RegisterClientRPC clientId name f s =
     (if \<not> server_mode s \<and> peer_uuid s = clientId
      then s\<lparr>peer_rpcs := RegisterRPC name f (peer_rpcs s)\<rparr> else s)"

definition CallGlobalRPC :: "world \<Rightarrow> string \<Rightarrow> string \<Rightarrow> unit op" where
  "CallGlobalRPC w name args s =
     fire_log_error w (on_scope (topic_scope s) (global_rpc (topic_scope s)))
       (rpc_name ''Global'' ''RPCHandler'') [name, args] s"

definition CallGrapeRPC :: "world \<Rightarrow> bool \<Rightarrow> string \<Rightarrow> string \<Rightarrow> string \<Rightarrow> unit op" where
  "CallGrapeRPC w isPrivate gid name args s =
     (if GrapeExists gid s then
        fire_log_error w (if isPrivate then on_peer (topic_scope s) gid else on_scope (topic_scope s) gid)
          (rpc_name ''Grape'' ''RPCHandler'') [name, args] s
      else Ret () s)"

definition CallEntityRPC :: "world \<Rightarrow> bool \<Rightarrow> string \<Rightarrow> string \<Rightarrow> string \<Rightarrow> unit op" where
  "CallEntityRPC w isPrivate eid name args s =
     (if IsEntityRegistered eid s \<and> IsEntityLocallyOwned eid s then
        fire_log_error w (if isPrivate then on_peer (topic_scope s) eid else on_scope (topic_scope s) eid)
          (rpc_name ''Entity'' ''RPCHandler'') [name, args] s
      else Ret () s)"

definition CallClientRPC :: "world \<Rightarrow> string \<Rightarrow> string \<Rightarrow> string \<Rightarrow> unit op" where
  "CallClientRPC w clientId name args s =
     (if server_mode s
      then fire_log_error w (on_peer (topic_scope s) clientId) (rpc_name ''PeerService'' ''RPCHandler'') [name, args] s
      else Ret () s)"

definition CallCMIInstantiate :: "world \<Rightarrow> string \<Rightarrow> string \<Rightarrow> string \<Rightarrow> string \<Rightarrow> string \<Rightarrow> unit op" where
  "CallCMIInstantiate w gid cmiId prefabId payload clientId s =
     fire_log_error w (on_peer (topic_scope s) gid) (rpc_name ''Grape'' ''CMIInstantiate'')
       [cmiId, prefabId, payload, clientId] s"

section \<open>Latency and connection\<close>

lemma latency_loop_step:
  assumes "latency_loop w env steady k (g # gs) lat s = Ret lat' s'"
  shows "\<exists>(r :: bool call_result) s1. latency_loop w env steady (Suc (Suc k)) gs
      (omap_put g ((steady (Suc k) - steady k) div 1000000) (if r = NoValue then omap_put g (- 1) lat else lat)) s1 =
    Ret lat' s'"
proof (cases "builder_call w env de_bool (rpc_name ''Grape'' ''Ping'')
         (retry 3 (with_timeout 10000 (on_fail (FailDo 0) (builder_for (on_peer (topic_scope s) g))))) [] s")
  case (Ret r s1)
  with assms have "latency_loop w env steady (Suc (Suc k)) gs
      (omap_put g ((steady (Suc k) - steady k) div 1000000) (if r = NoValue then omap_put g (- 1) lat else lat)) s1 =
    Ret lat' s'" by (simp add: Let_def)
  then show ?thesis by blast
next
  case (Raise e s1)
  with assms show ?thesis by simp
qed

lemma latency_loop_values:
  assumes "latency_loop w env steady k gs lat s = Ret lat' s'" "\<And>k. steady k \<le> steady (Suc k)"
  shows "fst ` set lat' = fst ` set lat \<union> set gs \<and>
    (\<forall>g. g \<in> set gs \<longrightarrow> (\<exists>v \<ge> 0. map_of lat' g = Some v)) \<and> (\<forall>g. g \<notin> set gs \<longrightarrow> map_of lat' g = map_of lat g)"
  using assms(1)
proof (induction gs arbitrary: k lat s)
  case (Cons g gs)
  let ?v = "(steady (Suc k) - steady k) div 1000000"
  from latency_loop_step [OF Cons.prems] obtain r :: "bool call_result" and s1 where "latency_loop w env steady (Suc (Suc k)) gs
      (omap_put g ?v (if r = NoValue then omap_put g (- 1) lat else lat)) s1 = Ret lat' s'"
    by blast
  note IH = Cons.IH [OF this]
  have v: "0 \<le> ?v" using assms(2) [of k] by (simp add: pos_imp_zdiv_nonneg_iff)
  show ?case
  proof (cases "g \<in> set gs")
    case True
    then show ?thesis using IH by (auto simp: hmap_simps split: if_splits)
  next
    case False
    then have "map_of lat' g = Some ?v" using IH by (simp add: hmap_simps)
    then show ?thesis using IH v by (auto simp: hmap_simps split: if_splits)
  qed
qed simp

text \<open>When the latencies of the known grapes are measured, every known grape gets a value and no value
  is negative: the -1 that stands for an unreachable grape is always overwritten by the elapsed
  time of the failed call.\<close>
lemma latency_hides_failures:
  assumes "GetLatency w env steady s = Ret lat s'" "\<And>k. steady k \<le> steady (Suc k)"
  shows "fst ` set lat = set (GetKnownGrapes s) \<and> (\<forall>g v. map_of lat g = Some v \<longrightarrow> v \<ge> 0)"
proof -
  note * = latency_loop_values [OF assms(1) [unfolded GetLatency_def] assms(2)]
  then have "fst ` set lat = set (GetKnownGrapes s)" by simp
  moreover have "v \<ge> 0" if "map_of lat g = Some v" for g v
    using * that map_of_in_hkeys [OF that] by fastforce
  ultimately show ?thesis by blast
qed

text \<open>A server whose connection to the master fails tells the engine of the failure, and then also of
  success.\<close>
lemma failed_connection_succeeds:
  assumes "OnConnectionFailed \<in> set (hooks_set s)" "OnConnectionSuccess \<in> set (hooks_set s)"
    and "jparse w answer = None \<or> (\<exists>j. jparse w answer = Some j \<and> json_at j ''message'' \<noteq> Inr (JStr ''Node accepted''))"
  shows "\<exists>s'. server_connected w answer s = Ret () s' \<and>
    hook_calls s' = hook_calls s @ [(OnConnectionFailed, []), (OnConnectionSuccess, [])]"
proof -
  let ?s = "InitGlobalRPC s"
  have frame: "hooks_set ?s = hooks_set s" "hook_calls ?s = hook_calls s"
    by (simp_all add: InitGlobalRPC_def)
  have "connectToMaster w answer ?s = Ret False ?s \<or> (\<exists>e. connectToMaster w answer ?s = Raise e ?s)"
    using assms(3) by (auto simp: connectToMaster_def split: sum.splits)
  then show ?thesis
    using assms(1,2) frame by (auto simp: server_connected_def master_phase_def call_hook_def)
qed

section \<open>Client subscriptions\<close>

text \<open>The server records a client's subscription before it asks the client: the first request only
  schedules the call, and a second request for the same container runs its callback at once,
  with no message sent and whatever becomes of the call.\<close>
lemma client_subscription_assumed:
  assumes "map_of (grapes s) (assigned_grape s) \<noteq> None" "ContainerIsLocallyOwned cid s"
    and "map_of (clients s) clientId = Some c" "\<not> isSubscribedToContainer cid c"
  shows "\<exists>s1. server_SubscribeClientToContainer clientId cid f s = s1 \<and>
    io_tasks s1 = io_tasks s @ [SubscribeClientIO clientId cid f] \<and> user_calls s1 = user_calls s \<and>
    server_SubscribeClientToContainer clientId cid f' s1 = s1\<lparr>user_calls := user_calls s @ [f']\<rparr>"
  using assms
  by (simp add: server_SubscribeClientToContainer_def ScheduleAsyncIOTask_def update_client_def hmap_simps
      isSubscribedToContainer_def ContainerIsLocallyOwned_def run_callback_def split: option.splits)

section \<open>Waiting for a grape\<close>

fun state_at :: "environment \<Rightarrow> nat \<Rightarrow> node \<Rightarrow> node" where
  "state_at env 0 s = s"
| "state_at env (Suc k) s = env k (state_at env k s)"

lemma wait_grape_step:
  "GrapeExists gid s \<Longrightarrow> wait_grape env k gid s = Some s"
  "\<not> GrapeExists gid s \<Longrightarrow> wait_grape env k gid s = wait_grape env (Suc k) gid (env k s)"
  by (subst wait_grape.simps, simp)+

lemma wait_grape_later:
  assumes "\<And>j. j < k \<Longrightarrow> \<not> GrapeExists gid (state_at env j s)"
  shows "wait_grape env 0 gid s = wait_grape env k gid (state_at env k s)"
  using assms by (induction k) (simp_all add: wait_grape_step(2))

lemma wait_grape_found:
  assumes "wait_grape env k gid s = Some s'"
  shows "\<forall>r. s = state_at env k r \<longrightarrow> (\<exists>j. s' = state_at env j r \<and> GrapeExists gid s')"
proof (rule wait_grape.raw_induct [where P = "\<lambda>env k gid s s'. \<forall>r. s = state_at env k r \<longrightarrow>
      (\<exists>j. s' = state_at env j r \<and> GrapeExists gid s')", OF _ assms])
  fix F :: "environment \<Rightarrow> nat \<Rightarrow> string \<Rightarrow> node \<Rightarrow> node option" and env k gid s s'
  assume IH: "\<And>env k gid s s'. F env k gid s = Some s' \<Longrightarrow>
      \<forall>r. s = state_at env k r \<longrightarrow> (\<exists>j. s' = state_at env j r \<and> GrapeExists gid s')"
    and eq: "(if GrapeExists gid s then Some s else F env (Suc k) gid (env k s)) = Some s'"
  show "\<forall>r. s = state_at env k r \<longrightarrow> (\<exists>j. s' = state_at env j r \<and> GrapeExists gid s')"
  proof (cases "GrapeExists gid s")
    case True
    with eq show ?thesis by auto
  next
    case False
    with eq IH [of env "Suc k" gid "env k s" s'] show ?thesis by auto
  qed
qed

text \<open>The answer of a client to \<open>ForceConnectToNode\<close> comes exactly if its engine loads the grape at
  some time: without it the remote method waits for ever.\<close>
lemma force_connect_iff:
  "(\<exists>s'. ForceConnectToNode env gid s = Some (True, s') \<and> GrapeExists gid s') \<longleftrightarrow>
   (\<exists>k. GrapeExists gid (state_at env k (ScheduleAsyncTask (LoadGrapeHook gid False) s)))"
proof
  let ?s = "ScheduleAsyncTask (LoadGrapeHook gid False) s"
  assume ex: "\<exists>k. GrapeExists gid (state_at env k ?s)"
  define k where "k = (LEAST k. GrapeExists gid (state_at env k ?s))"
  have k: "GrapeExists gid (state_at env k ?s)" "\<And>j. j < k \<Longrightarrow> \<not> GrapeExists gid (state_at env j ?s)"
    unfolding k_def by (rule LeastI_ex [OF ex], rule not_less_Least)
  then have "wait_grape env 0 gid ?s = Some (state_at env k ?s)"
    using wait_grape_later [OF k(2)] wait_grape_step(1) by simp
  then show "\<exists>s'. ForceConnectToNode env gid s = Some (True, s') \<and> GrapeExists gid s'"
    using k(1) by (simp add: ForceConnectToNode_def)
next
  let ?s = "ScheduleAsyncTask (LoadGrapeHook gid False) s"
  assume "\<exists>s'. ForceConnectToNode env gid s = Some (True, s') \<and> GrapeExists gid s'"
  then obtain s' where "wait_grape env 0 gid ?s = Some s'" by (auto simp: ForceConnectToNode_def)
  from spec [OF wait_grape_found [OF this], of ?s] obtain j where "s' = state_at env j ?s" "GrapeExists gid s'"
    by auto
  then show "\<exists>k. GrapeExists gid (state_at env k ?s)" by blast
qed

text \<open>A call with a timeout that nobody answers ends without a value.\<close>

lemma unanswered_call:
  fixes s :: node
  assumes "\<not> co_multi co" "0 < co_timeout co" "co_fail co = FailDo h"
  shows "\<exists>s'. call_impl w (\<lambda>_ s. s) de name i co uuid args s = Ret NoValue s'"
  using assms
proof (induction "nat (co_retry co)" arbitrary: co i s)
  case 0
  have pending: "awaited_cell w (\<lambda>_ s. s) name i co uuid args s = Pending"
    by (simp add: rpc_call_promises break_replaced_def nth_append split: option.splits)
  have "await w de name (co_timeout co) Pending = Failed (CRPCTimeout (name @ '' timed out''))"
    using 0 by (simp add: await_def)
  with 0 show ?case by (subst call_impl_attempt(4)) (simp_all only: pending, simp_all)
next
  case (Suc n)
  have pending: "awaited_cell w (\<lambda>_ s. s) name i co uuid args s = Pending"
    by (simp add: rpc_call_promises break_replaced_def nth_append split: option.splits)
  have fail: "await w de name (co_timeout co) Pending = Failed (CRPCTimeout (name @ '' timed out''))"
    using Suc.prems by (simp add: await_def)
  have "n = nat (co_retry (co\<lparr>co_retry := co_retry co - 1\<rparr>))" using Suc.hyps(2) by simp
  from Suc.hyps(1) [OF this, of "Suc i" "snd (rpc_call w (co_scope co) name uuid args s)"] Suc.prems
  obtain s' where "call_impl w (\<lambda>_ s. s) de name (Suc i) (co\<lparr>co_retry := co_retry co - 1\<rparr>) uuid args
      (snd (rpc_call w (co_scope co) name uuid args s)) = Ret NoValue s'"
    by auto
  with Suc fail show ?case by (subst call_impl_attempt(4)) (simp_all only: pending, simp_all)
qed

lemma latency_hides_failures_witness:
  "\<exists>lat s'. GetLatency demo_world (\<lambda>_ s. s) (\<lambda>k. int k * 10000000000)
       ((new_node False ''s/'' ''u'' [])\<lparr>grapes := [(''g'', empty_grape)]\<rparr>) = Ret lat s' \<and>
     fst ` set lat = {''g''} \<and> (\<forall>g v. map_of lat g = Some v \<longrightarrow> v \<ge> 0)"
proof -
  let ?s = "(new_node False ''s/'' ''u'' [])\<lparr>grapes := [(''g'', empty_grape)]\<rparr>"
  let ?co = "retry 3 (with_timeout 10000 (on_fail (FailDo 0) (builder_for (on_peer (topic_scope ?s) ''g''))))"
  have co: "\<not> co_multi ?co" "0 < co_timeout ?co" "co_fail ?co = FailDo 0"
    by (simp_all add: builder_defs on_peer_def)
  obtain s' where "builder_call demo_world (\<lambda>_ s. s) de_bool (rpc_name ''Grape'' ''Ping'') ?co [] ?s = Ret NoValue s'"
    using unanswered_call [OF co, of demo_world de_bool "rpc_name ''Grape'' ''Ping''" 0] by (force simp: builder_call_def GenUUID_def)
  then have "\<exists>lat s'. GetLatency demo_world (\<lambda>_ s. s) (\<lambda>k. int k * 10000000000) ?s = Ret lat s'"
    by (simp add: GetLatency_def GetKnownGrapes_def)
  then obtain lat s' where lat: "GetLatency demo_world (\<lambda>_ s. s) (\<lambda>k. int k * 10000000000) ?s = Ret lat s'" by blast
  from latency_hides_failures [OF this] have "fst ` set lat = set (GetKnownGrapes ?s) \<and> (\<forall>g v. map_of lat g = Some v \<longrightarrow> v \<ge> 0)"
    by simp
  with lat show ?thesis by (simp add: GetKnownGrapes_def)
qed

lemma failed_connection_succeeds_witness:
  "\<exists>s'. server_connected demo_world ''?'' (new_node True ''s/'' ''u'' [OnConnectionFailed, OnConnectionSuccess]) = Ret () s' \<and>
     hook_calls s' = [(OnConnectionFailed, []), (OnConnectionSuccess, [])]"
proof -
  let ?s = "new_node True ''s/'' ''u'' [OnConnectionFailed, OnConnectionSuccess]"
  have "OnConnectionFailed \<in> set (hooks_set ?s)" "OnConnectionSuccess \<in> set (hooks_set ?s)" "hook_calls ?s = []"
    "jparse demo_world ''?'' = None"
    by (simp_all add: new_node_def rpc.extend_def) (simp add: demo_world_def)
  then show ?thesis using failed_connection_succeeds [of ?s demo_world "''?''"] by simp
qed

definition demo_owner :: node where
  "demo_owner = (new_node True ''s/'' ''u'' [])
     \<lparr>assigned_grape := ''g'', grapes := [(''g'', empty_grape)],
      containers := [(''c'', (new_container demo_world ''c'')\<lparr>ct_local := True\<rparr>)],
      clients := [(''x'', \<lparr>cd_id = ''x'', cd_last_seen = 0, cd_local = True, cd_grape = [], cd_subs = []\<rparr>)]\<rparr>"

lemma client_subscription_assumed_witness:
  "user_calls (server_SubscribeClientToContainer ''x'' ''c'' 2
     (server_SubscribeClientToContainer ''x'' ''c'' 1 demo_owner)) = [2]"
proof -
  let ?c = "\<lparr>cd_id = ''x'', cd_last_seen = 0, cd_local = True, cd_grape = [], cd_subs = []\<rparr>"
  have "map_of (grapes demo_owner) (assigned_grape demo_owner) \<noteq> None" "ContainerIsLocallyOwned ''c'' demo_owner"
    "map_of (clients demo_owner) ''x'' = Some ?c" "\<not> isSubscribedToContainer ''c'' ?c" "user_calls demo_owner = []"
    by (simp_all add: demo_owner_def ContainerIsLocallyOwned_def isSubscribedToContainer_def)
      (simp add: new_node_def rpc.extend_def)
  then show ?thesis using client_subscription_assumed [of demo_owner "''c''" "''x''" ?c 1 2] by simp
qed

section \<open>The grape of a server\<close>

text \<open>A server that was assigned a grape by the master cannot register that grape as its own: the
  registration throws, because the assignment has already filled the name it checks, and
  leaves an entry without identity behind that makes every later registration throw too.\<close>
lemma assigned_grape_unregistrable:
  assumes "server_mode s" "gid \<noteq> []" "map_of (grapes s) gid = None"
  shows "\<exists>s2. RegisterGrape gid True f (snd (AssignGrape gid s)) =
      Raise (RuntimeError ''Server already has a node assigned as locally owned.'') s2 \<and>
    GrapeExists gid s2 \<and> GetGrapeId gid s2 = [] \<and> \<not> IsGrapeLocallyOwned gid s2 \<and>
    (\<forall>b f'. RegisterGrape gid b f' s2 = Raise (RuntimeError (''Grape with id '' @ gid @ '' already exists.'')) s2)"
  using assms
  by (simp add: AssignGrape_def push_top_def SetAssignedGrape_def RegisterGrape_def GrapeExists_def hcontains_def
      GetGrapeId_def IsGrapeLocallyOwned_def empty_grape_def hmap_simps)

lemma assigned_grape_unregistrable_witness:
  "\<exists>s2. RegisterGrape ''g'' True None (snd (AssignGrape ''g'' (new_node True ''s/'' ''u'' []))) =
      Raise (RuntimeError ''Server already has a node assigned as locally owned.'') s2 \<and> GrapeExists ''g'' s2"
proof -
  have "server_mode (new_node True ''s/'' ''u'' [])" "map_of (grapes (new_node True ''s/'' ''u'' [])) ''g'' = None"
    by (simp_all add: new_node_def rpc.extend_def)
  from assigned_grape_unregistrable [OF this(1) _ this(2), of None] show ?thesis by auto
qed

text \<open>The operations on the grapes of a server as steps, with any other operation that leaves the grapes alone.\<close>

inductive grape_step :: "node \<Rightarrow> node \<Rightarrow> bool" where
  register: "gid \<noteq> [] \<Longrightarrow> grape_step s (ostate (RegisterGrape gid b f s))"
| unregister: "grape_step s (UnregisterGrape gid s)"
| assign: "gid \<noteq> [] \<Longrightarrow> grape_step s (snd (AssignGrape gid s))"
| attach: "grape_step s (ostate (ContainerCreateAndAttach w gid n cid s))"
| subscribe: "grape_step s (ostate (SubscribeGrapeToContainer w gid cid f s))"
| unsubscribe: "grape_step s (UnsubscribeGrapeFromContainer gid cid s)"
| push: "grape_step s (grape_PushTaskToEngine gid t s)"
| poll: "grape_step s (snd (grape_PollEngineTask gid s))"
| push_named: "grape_step s (PushNamedTaskToEngine gid name args s)"
| pop_named: "grape_step s (ostate (PopNamedTaskFromEngine n gid name s))"
| handle: "grape_step s (SetOwnedContainerNativeHandle gid cid h s)"
| other: "grapes s' = grapes s \<Longrightarrow> assigned_grape s' = assigned_grape s \<Longrightarrow> server_mode s' = server_mode s \<Longrightarrow>
    grape_step s s'"

text \<open>A server owns at most one grape, and then a grape is assigned.\<close>

definition one_local_grape :: "node \<Rightarrow> bool" where
  "one_local_grape s \<longleftrightarrow> server_mode s \<and>
     (\<forall>g h. IsGrapeLocallyOwned g s \<longrightarrow> assigned_grape s \<noteq> [] \<and> (IsGrapeLocallyOwned h s \<longrightarrow> g = h))"

lemma one_local_cong:
  assumes "one_local_grape s" "server_mode s' = server_mode s" "assigned_grape s' = assigned_grape s"
    and "\<And>g. IsGrapeLocallyOwned g s' \<longrightarrow> IsGrapeLocallyOwned g s"
  shows "one_local_grape s'"
  using assms by (metis one_local_grape_def)

lemma local_update_grape:
  assumes "\<And>g. gr_local (f g) = gr_local g"
  shows "IsGrapeLocallyOwned g (update_grape gid f s) = IsGrapeLocallyOwned g s"
  by (simp add: IsGrapeLocallyOwned_def assms split: option.split)

lemma update_grape_frame [simp]:
  "server_mode (update_grape gid f s) = server_mode s" "assigned_grape (update_grape gid f s) = assigned_grape s"
  by (simp_all add: update_grape_def)

text \<open>A subscription component changes no ownership.\<close>

definition same_grapes :: "node \<Rightarrow> node \<Rightarrow> bool" where
  "same_grapes s s' \<longleftrightarrow> server_mode s' = server_mode s \<and> assigned_grape s' = assigned_grape s \<and>
     (\<forall>g. IsGrapeLocallyOwned g s' = IsGrapeLocallyOwned g s)"

lemma same_grapes_refl [simp]: "same_grapes s s"
  by (simp add: same_grapes_def)

lemma same_grapes_trans: "same_grapes s s' \<Longrightarrow> same_grapes s' s'' \<Longrightarrow> same_grapes s s''"
  by (simp add: same_grapes_def)

lemma same_grapes_frame:
  "server_mode s' = server_mode s \<Longrightarrow> assigned_grape s' = assigned_grape s \<Longrightarrow> grapes s' = grapes s \<Longrightarrow> same_grapes s s'"
  by (simp add: same_grapes_def IsGrapeLocallyOwned_def)

lemma same_grapes_update: "(\<And>g. gr_local (f g) = gr_local g) \<Longrightarrow> same_grapes s (update_grape gid f s)"
  by (simp add: same_grapes_def local_update_grape)

lemma same_grapes_mod_subs: "same_grapes s (mod_subs h f s)"
  by (auto simp: mod_subs_def same_grapes_frame same_grapes_update split: holder.split)

lemma same_grapes_start: "same_grapes s (start_container cid f own s)"
proof -
  have "assigned_grape (container_initStreams cid s) = assigned_grape s"
    "server_mode (container_initStreams cid s) = server_mode s" for s
    by (simp_all add: container_initStreams_def createReaderStream_def ScheduleAsyncIOTask_def update_container_def Let_def
        split: option.split)
  then show ?thesis
    by (intro same_grapes_frame)
      (simp_all add: start_container_def Let_def WaitForNetworkReady_def ScheduleAsyncTask_def
        container_initRPCs_def container_methods_def update_container_def)
qed

lemma same_grapes_callback: "same_grapes s (run_callback f s)"
  by (intro same_grapes_frame) (simp_all add: run_callback_def push_top_def split: callback.split)

lemma same_grapes_create: "same_grapes s (ostate (CreateContainerIfNotExists w cid s))"
proof -
  have "assigned_grape (snd (GenUUID w s)) = assigned_grape s" for s :: node by (simp add: GenUUID_def)
  then show ?thesis
    by (intro same_grapes_frame)
      (simp_all add: CreateContainerIfNotExists_def case_prod_unfold Let_def log_error_def destroy_container_def
        container_methods_def unregister_method_def split: option.split)
qed

lemma same_grapes_Subscribe: "same_grapes s (ostate (Subscribe w h cid f own s))"
proof (cases "IsSubscribed h cid s")
  case True
  then show ?thesis by (simp add: Subscribe_def same_grapes_callback)
next
  case False
  note create = same_grapes_create [of s w cid]
  show ?thesis
  proof (cases "CreateContainerIfNotExists w cid s")
    case (Ret x s1)
    obtain i b where x: "x = (i, b)" by (cases x)
    have "same_grapes s (mod_subs h (oset_insert i) s1)"
      using same_grapes_trans [OF _ same_grapes_mod_subs] create Ret by simp
    moreover have "same_grapes s (start_container i f own (mod_subs h (oset_insert i) s1))"
      using same_grapes_trans [OF _ same_grapes_start] calculation by blast
    ultimately show ?thesis using False Ret x by (simp add: Subscribe_def Let_def)
  next
    case (Raise e s1)
    then show ?thesis using create False by (simp add: Subscribe_def)
  qed
qed

lemma same_grapes_grape_subscribe: "same_grapes s (ostate (grape_subscribeToContainer w gid cid f own s))"
proof (cases "Subscribe w (GrapeSubs gid) cid f own s")
  case (Ret r s1)
  have 1: "same_grapes s s1" using same_grapes_Subscribe [of s w "GrapeSubs gid" cid f own] Ret by simp
  have 2: "same_grapes s1 (update_grape gid (\<lambda>g. g\<lparr>gr_owned := m g\<rparr>) s1)" for m by (rule same_grapes_update) simp
  have 3: "same_grapes s1 (LoadExistingEntities a b s1)" for a b
    by (rule same_grapes_frame) (simp_all add: LoadExistingEntities_def ScheduleAsyncTask_def)
  show ?thesis
    using same_grapes_trans [OF 1 2] same_grapes_trans [OF 1 3] 1
    by (simp add: grape_subscribeToContainer_def Ret split: option.split)
next
  case (Raise e s1)
  then show ?thesis using same_grapes_Subscribe [of s w "GrapeSubs gid" cid f own]
    by (simp add: grape_subscribeToContainer_def)
qed

lemma same_grapes_Unsubscribe: "same_grapes s (Unsubscribe h cid s)"
proof -
  have count: "same_grapes s (UpdateRefCount cid s)" for s
    using delete_loop_frame [of cid "hkeys (entities s)" "[]" s] delete_loop_assigned [of cid "hkeys (entities s)" "[]" s]
    by (intro same_grapes_frame)
      (simp_all add: UpdateRefCount_def DeleteEntitiesInContainer_def TrashContainer_def ScheduleAsyncTask_def Let_def
        split: option.split)
  have upd: "same_grapes s (update_container cid f s)" for f s
    by (intro same_grapes_frame) (simp_all add: update_container_def)
  show ?thesis
    using same_grapes_trans [OF same_grapes_trans [OF same_grapes_mod_subs upd] count]
    by (simp add: Unsubscribe_def)
qed

lemma one_local_same: "one_local_grape s \<Longrightarrow> same_grapes s s' \<Longrightarrow> one_local_grape s'"
  by (rule one_local_cong) (auto simp: same_grapes_def)

lemma one_local_register:
  assumes "one_local_grape s" "gid \<noteq> []"
  shows "one_local_grape (ostate (RegisterGrape gid b f s))"
proof (cases "map_of (grapes s) gid")
  case (Some g)
  then show ?thesis using assms by (simp add: RegisterGrape_def)
next
  case None
  have server: "server_mode s" using assms by (simp add: one_local_grape_def)
  let ?r = "ostate (RegisterGrape gid b f s)"
  have "\<not> IsGrapeLocallyOwned gid s" using None by (simp add: IsGrapeLocallyOwned_def)
  moreover have "IsGrapeLocallyOwned g ?r = (if g = gid then b \<and> assigned_grape s = [] else IsGrapeLocallyOwned g s)" for g
    using None server
    by (auto simp: RegisterGrape_def IsGrapeLocallyOwned_def hmap_simps empty_grape_def SetAssignedGrape_def Let_def
        ScheduleAsyncTask_def update_grape_def split: option.splits)
  moreover have "assigned_grape ?r = (if b \<and> assigned_grape s = [] then gid else assigned_grape s)" "server_mode ?r = server_mode s"
    using None server
    by (auto simp: RegisterGrape_def SetAssignedGrape_def Let_def ScheduleAsyncTask_def update_grape_def split: option.splits)
  ultimately show ?thesis using assms by (auto simp: one_local_grape_def)
qed

lemma one_local_step:
  assumes "grape_step s s'" "one_local_grape s"
  shows "one_local_grape s'"
  using assms
proof cases
  case (register gid b f)
  then show ?thesis using one_local_register assms(2) by simp
next
  case (unregister gid)
  show ?thesis unfolding unregister(1)
    by (rule one_local_cong [OF assms(2)])
      (simp_all add: UnregisterGrape_def IsGrapeLocallyOwned_def hmap_simps)
next
  case (assign gid)
  then show ?thesis using assms(2)
    by (simp add: AssignGrape_def push_top_def SetAssignedGrape_def one_local_grape_def IsGrapeLocallyOwned_def)
next
  case (attach w gid n cid)
  have "same_grapes s s'"
  proof (cases "map_of (grapes s) gid")
    case (Some g)
    then show ?thesis
      using same_grapes_grape_subscribe [of s w gid cid "PushTop n" "gr_local g"]
      by (cases "grape_subscribeToContainer w gid cid (PushTop n) (gr_local g) s")
        (simp_all add: attach ContainerCreateAndAttach_def)
  qed (simp add: attach ContainerCreateAndAttach_def)
  then show ?thesis using one_local_same assms(2) by blast
next
  case (subscribe w gid cid f)
  have "same_grapes s s'"
    using same_grapes_grape_subscribe [of s w gid cid f False]
    by (cases "grape_subscribeToContainer w gid cid f False s")
      (simp_all add: subscribe SubscribeGrapeToContainer_def)
  then show ?thesis using one_local_same assms(2) by blast
next
  case (unsubscribe gid cid)
  have "same_grapes s s'"
    using same_grapes_Unsubscribe [of s "GrapeSubs gid" cid]
    by (simp add: unsubscribe UnsubscribeGrapeFromContainer_def grape_unsubscribeFromContainer_def)
  then show ?thesis using one_local_same assms(2) by blast
next
  case (push gid t)
  then show ?thesis using one_local_same [OF assms(2)]
    by (simp add: grape_PushTaskToEngine_def same_grapes_update)
next
  case (poll gid)
  then show ?thesis using one_local_same [OF assms(2)]
    by (simp add: grape_PollEngineTask_def same_grapes_update case_prod_unfold Let_def split: option.split)
next
  case (push_named gid name args)
  then show ?thesis using one_local_same [OF assms(2)]
    by (simp add: PushNamedTaskToEngine_def same_grapes_update)
next
  case (pop_named n gid name)
  then show ?thesis using one_local_same [OF assms(2)]
    by (auto simp: PopNamedTaskFromEngine_def same_grapes_update split: option.split outcome.split)
next
  case (handle gid cid h)
  then show ?thesis using one_local_same [OF assms(2)]
    by (simp add: SetOwnedContainerNativeHandle_def same_grapes_update)
next
  case other
  then show ?thesis using one_local_same [OF assms(2)] by (simp add: same_grapes_frame)
qed

interpretation grape_ownership: invariant_system grape_step one_local_grape
  by unfold_locales (rule one_local_step)



end
