(* ===== verification/Tasks.thy ===== *)
theory Tasks
  imports Peer
begin

text \<open>
  The closures of the program at work: what each task does when a scheduler or the engine
  runs it, what each bound method does when a request calls it, and the steps of a node that
  take the next task or message. \<open>None\<close> is a task that never returns.
\<close>

section \<open>Running a task\<close>

definition load_entities_call :: "world \<Rightarrow> environment \<Rightarrow> string \<Rightarrow> string \<Rightarrow> unit op" where
  "load_entities_call w env gid cid s =
     run_async_call w env de_map (rpc_name ''Grape'' ''GetExistingEntities'')
       (retry 0 (with_timeout 10000 (on_fail FailLogError (builder_for (on_peer (topic_scope s) gid)))))
       (load_entities w cid) [JStr cid] s"

definition cleanup_trashed :: "string \<Rightarrow> node \<Rightarrow> node option" where
  "cleanup_trashed cid s =
     (case find (\<lambda>c. ct_id c = cid) (trash s) of
        None \<Rightarrow> Some s
      | Some c \<Rightarrow> cleanup_container c s)"

fun run_task :: "world \<Rightarrow> environment \<Rightarrow> (nat \<Rightarrow> attempt) \<Rightarrow> task \<Rightarrow> node \<Rightarrow> (node, unit) outcome option" where
  "run_task w env res (RunUser f) s = Some (Ret () (run_callback (UserFn f) s))"
| "run_task w env res (DeleteAndUnregister eid payload) s = Some (delete_and_unregister eid payload s)"
| "run_task w env res (DeleteHook eid payload) s = Some (delete_hook eid payload s)"
| "run_task w env res (InstantiateEntity eid payload cid ghost) s = Some (instantiate_entity w eid payload cid ghost s)"
| "run_task w env res (LoadGrapeHook gid b) s =
     Some (call_hook OnLoadGrape [gid, if b then ''true'' else ''false''] s)"
| "run_task w env res (AcceptClientHook cl sp) s = Some (call_hook OnAcceptNewClient [cl, sp] s)"
| "run_task w env res (WaitNetworkReady cid f) s = Some (Ret () (wait_round cid f s))"
| "run_task w env res (GrapeReady gid b f) s = Some (grape_ready w env gid b f s)"
| "run_task w env res (CleanupContainer cid) s = map_option (Ret ()) (cleanup_trashed cid s)"
| "run_task w env res (LoadEntitiesCall gid cid) s = Some (load_entities_call w env gid cid s)"
| "run_task w env res (DropEntityAt when eid to from proc) s = Some (Ret () (drop_entity_at w env when eid to from s))"
| "run_task w env res (SubscribeClientCall cl cid f) s = Some (subscribe_client_call w env cl cid f s)"
| "run_task w env res (OpenReader cid topic) s = map_option (Ret ()) (open_reader res cid topic s)"
| "run_task w env res (SubscribeGrapeIO gid cid) s = Some (subscribe_grape_io w gid cid s)"
| "run_task w env res (UnsubscribeGrapeIO gid cid) s = Some (Ret () (unsubscribe_grape_io gid cid s))"
| "run_task w env res (SendDeleteIO eid owner payload) s = Some (send_delete_io w eid owner payload s)"
| "run_task w env res (SubscribeClientIO cl cid f) s = Some (Ret () (subscribe_client_io cl cid f s))"
| "run_task w env res (UnsubscribeClientIO cl cid) s = Some (unsubscribe_client_io w env cl cid s)"

text \<open>The schedulers swallow every exception of a task.\<close>

definition scheduler_run :: "world \<Rightarrow> environment \<Rightarrow> (nat \<Rightarrow> attempt) \<Rightarrow> task \<Rightarrow> node \<Rightarrow> node option" where
  "scheduler_run w env res t s = map_option ostate (run_task w env res t s)"

definition async_step :: "world \<Rightarrow> environment \<Rightarrow> (nat \<Rightarrow> attempt) \<Rightarrow> node \<Rightarrow> node option" where
  "async_step w env res s =
     (case async_tasks s of
        [] \<Rightarrow> Some s
      | t # ts \<Rightarrow> scheduler_run w env res t (s\<lparr>async_tasks := ts\<rparr>))"

definition io_step :: "world \<Rightarrow> environment \<Rightarrow> (nat \<Rightarrow> attempt) \<Rightarrow> node \<Rightarrow> node option" where
  "io_step w env res s =
     (case io_tasks s of
        [] \<Rightarrow> Some s
      | t # ts \<Rightarrow> scheduler_run w env res t (s\<lparr>io_tasks := ts\<rparr>))"

text \<open>
  The engine takes one task of a queue; an exception reaches the engine, after the task has
  left the queue.
\<close>

definition AdvanceTopLevelExecutorTask :: "world \<Rightarrow> environment \<Rightarrow> (nat \<Rightarrow> attempt) \<Rightarrow> node \<Rightarrow> (node, bool) outcome option" where
  "AdvanceTopLevelExecutorTask w env res s =
     (case PollEngineTask (top_tasks s) of
        (None, _) \<Rightarrow> Some (Ret False s)
      | (Some t, q) \<Rightarrow>
          map_option (\<lambda>r. obind r (\<lambda>_. Ret True)) (run_task w env res t (s\<lparr>top_tasks := q\<rparr>)))"

definition AdvanceEntityTask :: "world \<Rightarrow> environment \<Rightarrow> (nat \<Rightarrow> attempt) \<Rightarrow> string \<Rightarrow> node \<Rightarrow> (node, bool) outcome option" where
  "AdvanceEntityTask w env res eid s =
     (case entity_PollEngineTask eid s of
        (None, s1) \<Rightarrow> Some (Ret False s1)
      | (Some t, s1) \<Rightarrow> map_option (\<lambda>r. obind r (\<lambda>_. Ret True)) (run_task w env res t s1))"

definition AdvanceGrapeTask :: "world \<Rightarrow> environment \<Rightarrow> (nat \<Rightarrow> attempt) \<Rightarrow> string \<Rightarrow> node \<Rightarrow> (node, bool) outcome option" where
  "AdvanceGrapeTask w env res gid s =
     (case grape_PollEngineTask gid s of
        (None, s1) \<Rightarrow> Some (Ret False s1)
      | (Some t, s1) \<Rightarrow> map_option (\<lambda>r. obind r (\<lambda>_. Ret True)) (run_task w env res t s1))"

section \<open>The types of the remote methods\<close>

text \<open>
  What \<open>function_traits\<close> reads off the declaration of a method: the number of its arguments,
  which are all strings, and the type of its result. The call stubs take any arguments and any
  result type, so nothing but the declarations says what a caller has to send.
\<close>

datatype result_type = VoidResult | BoolResult | StringResult | ListResult | MapResult

type_synonym method_type = "nat \<times> result_type"

definition container_types :: "(string \<times> method_type) list" where
  "container_types =
     [(rpc_name ''Container'' ''TakeAuthority'', 1, VoidResult), (rpc_name ''Container'' ''DropAuthority'', 1, VoidResult),
      (rpc_name ''Container'' ''DeleteEntity'', 2, VoidResult)]"

definition grape_types :: "(string \<times> method_type) list" where
  "grape_types =
     [(rpc_name ''Grape'' ''RPCHandler'', 2, VoidResult), (rpc_name ''Grape'' ''GetExistingEntities'', 1, MapResult),
      (rpc_name ''Grape'' ''GetExistingOwnedContainers'', 0, ListResult),
      (rpc_name ''Grape'' ''SubscribeToContainer'', 2, BoolResult),
      (rpc_name ''Grape'' ''UnsubscribeFromContainer'', 2, BoolResult),
      (rpc_name ''Grape'' ''ProxyTakeAuthority'', 3, BoolResult),
      (rpc_name ''Grape'' ''RequestClientDisconnect'', 1, BoolResult), (rpc_name ''Grape'' ''Ping'', 0, BoolResult),
      (rpc_name ''Grape'' ''CMIInstantiate'', 4, VoidResult), (rpc_name ''Grape'' ''ExecClientDisconnect'', 2, BoolResult)]"

definition peer_types :: "(string \<times> method_type) list" where
  "peer_types =
     [(rpc_name ''PeerService'' ''ForceConnectToNode'', 1, BoolResult),
      (rpc_name ''PeerService'' ''SubscribeClientToContainer'', 2, BoolResult),
      (rpc_name ''PeerService'' ''UnsubscribeClientFromContainer'', 1, BoolResult),
      (rpc_name ''PeerService'' ''Ping'', 0, BoolResult), (rpc_name ''PeerService'' ''AssignGrape'', 1, BoolResult),
      (rpc_name ''PeerService'' ''RequestSpawnPosition'', 1, StringResult),
      (rpc_name ''PeerService'' ''AcceptNewClient'', 2, BoolResult), (rpc_name ''PeerService'' ''RPCHandler'', 2, VoidResult)]"

definition entity_types :: "(string \<times> method_type) list" where
  "entity_types = [(rpc_name ''Entity'' ''RPCHandler'', 2, VoidResult)]"

definition global_types :: "(string \<times> method_type) list" where
  "global_types = [(rpc_name ''Global'' ''RPCHandler'', 2, VoidResult)]"

definition method_type :: "string \<Rightarrow> method_type option" where
  "method_type = map_of (container_types @ grape_types @ peer_types @ entity_types @ global_types)"

fun delegate_name :: "delegate \<Rightarrow> string" where
  "delegate_name (ContainerMethod cid m) = rpc_name ''Container'' m"
| "delegate_name (GrapeMethod gid m) = rpc_name ''Grape'' m"
| "delegate_name (EntityMethod eid m) = rpc_name ''Entity'' m"
| "delegate_name (PeerMethod m) = rpc_name ''PeerService'' m"
| "delegate_name GlobalMethod = rpc_name ''Global'' ''RPCHandler''"

text \<open>The number of arguments that the build of a delegate takes from the request.\<close>

definition delegate_arity :: "delegate \<Rightarrow> nat" where
  "delegate_arity d = (case method_type (delegate_name d) of None \<Rightarrow> 0 | Some (n, _) \<Rightarrow> n)"

lemma container_method_types [simp]:
  "method_type (rpc_name ''Container'' ''TakeAuthority'') = Some (1, VoidResult)"
  "method_type (rpc_name ''Container'' ''DropAuthority'') = Some (1, VoidResult)"
  "method_type (rpc_name ''Container'' ''DeleteEntity'') = Some (2, VoidResult)"
  by code_simp+

lemma grape_method_types [simp]:
  "method_type (rpc_name ''Grape'' ''RPCHandler'') = Some (2, VoidResult)"
  "method_type (rpc_name ''Grape'' ''GetExistingEntities'') = Some (1, MapResult)"
  "method_type (rpc_name ''Grape'' ''GetExistingOwnedContainers'') = Some (0, ListResult)"
  "method_type (rpc_name ''Grape'' ''SubscribeToContainer'') = Some (2, BoolResult)"
  "method_type (rpc_name ''Grape'' ''UnsubscribeFromContainer'') = Some (2, BoolResult)"
  "method_type (rpc_name ''Grape'' ''ProxyTakeAuthority'') = Some (3, BoolResult)"
  "method_type (rpc_name ''Grape'' ''RequestClientDisconnect'') = Some (1, BoolResult)"
  "method_type (rpc_name ''Grape'' ''Ping'') = Some (0, BoolResult)"
  "method_type (rpc_name ''Grape'' ''CMIInstantiate'') = Some (4, VoidResult)"
  "method_type (rpc_name ''Grape'' ''ExecClientDisconnect'') = Some (2, BoolResult)"
  by code_simp+

lemma peer_method_types [simp]:
  "method_type (rpc_name ''PeerService'' ''ForceConnectToNode'') = Some (1, BoolResult)"
  "method_type (rpc_name ''PeerService'' ''SubscribeClientToContainer'') = Some (2, BoolResult)"
  "method_type (rpc_name ''PeerService'' ''UnsubscribeClientFromContainer'') = Some (1, BoolResult)"
  "method_type (rpc_name ''PeerService'' ''Ping'') = Some (0, BoolResult)"
  "method_type (rpc_name ''PeerService'' ''AssignGrape'') = Some (1, BoolResult)"
  "method_type (rpc_name ''PeerService'' ''RequestSpawnPosition'') = Some (1, StringResult)"
  "method_type (rpc_name ''PeerService'' ''AcceptNewClient'') = Some (2, BoolResult)"
  "method_type (rpc_name ''PeerService'' ''RPCHandler'') = Some (2, VoidResult)"
  "method_type (rpc_name ''Entity'' ''RPCHandler'') = Some (2, VoidResult)"
  "method_type (rpc_name ''Global'' ''RPCHandler'') = Some (2, VoidResult)"
  by code_simp+

section \<open>Running a remote method\<close>

text \<open>
  \<open>jargs.get_to(args)\<close> for a tuple of \<open>n\<close> strings: an array with at least \<open>n\<close> elements, of
  which the first \<open>n\<close> are strings. A method without arguments does not look at them.
\<close>

definition tuple_args :: "nat \<Rightarrow> json \<Rightarrow> exn + string list" where
  "tuple_args n j =
     (case j of
        JArr js \<Rightarrow> if length js < n then Inl (JsonError ''out_of_range'') else de_strings (take n js)
      | _ \<Rightarrow> Inl (JsonError ''type_error''))"

definition decode_args :: "nat \<Rightarrow> json \<Rightarrow> exn + string list" where
  "decode_args n j = (if n = 0 then Inr [] else tuple_args n j)"

definition with_args :: "nat \<Rightarrow> json \<Rightarrow> (string list \<Rightarrow> json op) \<Rightarrow> json op" where
  "with_args n j f s = (case decode_args n j of Inl e \<Rightarrow> Raise e s | Inr xs \<Rightarrow> f xs s)"

definition ret_bool :: "bool \<times> node \<Rightarrow> (node, json) outcome" where
  "ret_bool r = Ret (JBool (fst r)) (snd r)"

definition ret_unit :: "(node, unit) outcome \<Rightarrow> (node, json) outcome" where
  "ret_unit r = obind r (\<lambda>_. Ret JNull)"

definition map_json :: "(string, string) hmap \<Rightarrow> json" where
  "map_json m = JObj (map (\<lambda>(k, v). (k, JStr v)) m)"

definition exec_container :: "world \<Rightarrow> string \<Rightarrow> string list \<Rightarrow> json op" where
  "exec_container w m xs s =
     (if m = ''TakeAuthority'' then ret_unit (TakeAuthority w (xs ! 0) s)
      else if m = ''DropAuthority'' then ret_unit (DropAuthority w (xs ! 0) s)
      else Ret JNull (DeleteEntity (xs ! 0) (xs ! 1) s))"

definition exec_grape :: "world \<Rightarrow> string \<Rightarrow> string \<Rightarrow> string list \<Rightarrow> json op" where
  "exec_grape w gid m xs s =
     (if m = ''GetExistingEntities'' then let (etts, s1) = GetExistingEntities w (xs ! 0) s in Ret (map_json etts) s1
      else if m = ''GetExistingOwnedContainers'' then Ret (JArr (map JStr (GetExistingOwnedContainers gid s))) s
      else if m = ''SubscribeToContainer'' then ret_bool (Grape_SubscribeToContainer (xs ! 0) (xs ! 1) s)
      else if m = ''UnsubscribeFromContainer'' then ret_bool (Grape_UnsubscribeFromContainer (xs ! 0) (xs ! 1) s)
      else if m = ''ProxyTakeAuthority'' then Ret (JBool True) (rp_proxyTakeAuthority gid (xs ! 0) (xs ! 1) (xs ! 2) s)
      else if m = ''RequestClientDisconnect'' then obind (RequestClientDisconnect (xs ! 0) s) (\<lambda>b. Ret (JBool b))
      else if m = ''Ping'' then Ret (JBool True) s
      else if m = ''CMIInstantiate'' then Ret JNull (CMIInstantiate gid (xs ! 0) (xs ! 1) (xs ! 2) (xs ! 3) s)
      else if m = ''ExecClientDisconnect'' then obind (ExecClientDisconnect (xs ! 0) (xs ! 1) s) (\<lambda>b. Ret (JBool b))
      else Ret JNull (case map_of (grapes s) gid of None \<Rightarrow> s | Some g \<Rightarrow> Handler (xs ! 0) (xs ! 1) (gr_rpcs g) s))"

text \<open>\<open>ForceConnectToNode\<close> may not return; then its branch is never the answer, see \<open>receive_request\<close>.\<close>

definition exec_peer :: "world \<Rightarrow> environment \<Rightarrow> string \<Rightarrow> string list \<Rightarrow> json op" where
  "exec_peer w env m xs s =
     (if m = ''ForceConnectToNode'' then
        (case ForceConnectToNode env (xs ! 0) s of Some r \<Rightarrow> ret_bool r | None \<Rightarrow> Ret (JBool False) s)
      else if m = ''AssignGrape'' then ret_bool (AssignGrape (xs ! 0) s)
      else if m = ''RequestSpawnPosition'' then obind (RequestSpawnPosition w (xs ! 0) s) (\<lambda>r. Ret (JStr r))
      else if m = ''AcceptNewClient'' then ret_bool (AcceptNewClient w (xs ! 0) (xs ! 1) s)
      else if m = ''SubscribeClientToContainer'' then
        obind (client_SubscribeClientToContainer w (xs ! 0) (xs ! 1) s) (\<lambda>b. Ret (JBool b))
      else if m = ''UnsubscribeClientFromContainer'' then ret_bool (client_UnsubscribeClientFromContainer (xs ! 0) s)
      else if m = ''Ping'' then Ret (JBool True) s
      else Ret JNull (Handler (xs ! 0) (xs ! 1) (peer_rpcs s) s))"

definition run_method :: "world \<Rightarrow> environment \<Rightarrow> delegate \<Rightarrow> string list \<Rightarrow> json op" where
  "run_method w env d xs s =
     (case d of
        ContainerMethod cid m \<Rightarrow> exec_container w m xs s
      | GrapeMethod gid m \<Rightarrow> exec_grape w gid m xs s
      | EntityMethod eid m \<Rightarrow>
          Ret JNull (case map_of (entities s) eid of None \<Rightarrow> s | Some e \<Rightarrow> Handler (xs ! 0) (xs ! 1) (et_rpcs e) s)
      | PeerMethod m \<Rightarrow> exec_peer w env m xs s
      | GlobalMethod \<Rightarrow> Ret JNull (Handler (xs ! 0) (xs ! 1) (global_rpcs s) s))"

definition exec_delegate :: "world \<Rightarrow> environment \<Rightarrow> delegate \<Rightarrow> json \<Rightarrow> json op" where
  "exec_delegate w env d j = with_args (delegate_arity d) j (run_method w env d)"

lemma exec_decoded: "decode_args (delegate_arity d) j = Inr xs \<Longrightarrow> exec_delegate w env d j s = run_method w env d xs s"
  by (simp add: exec_delegate_def with_args_def)

text \<open>A request that runs \<open>ForceConnectToNode\<close> for a grape that is never loaded.\<close>

definition never_answers :: "world \<Rightarrow> environment \<Rightarrow> string \<Rightarrow> rpc_request \<Rightarrow> node \<Rightarrow> bool" where
  "never_answers w env scope req s \<longleftrightarrow>
     rq_responds_to req = [] \<and>
     lookup_method s scope (rq_name req) = Some (PeerMethod ''ForceConnectToNode'') \<and>
     (case jparse w (rq_args req) of
        None \<Rightarrow> False
      | Some j \<Rightarrow>
          (case tuple_args 1 j of Inl _ \<Rightarrow> False | Inr xs \<Rightarrow> ForceConnectToNode env (xs ! 0) s = None))"

text \<open>A message that arrives at a node on a topic: \<open>None\<close> when its handler never returns.\<close>

definition receive_request :: "world \<Rightarrow> environment \<Rightarrow> string \<Rightarrow> rpc_request \<Rightarrow> node \<Rightarrow> node option" where
  "receive_request w env scope req s =
     (case utm_run (rq_rpc_id req) (handled s) of
        Some (True, l) \<Rightarrow>
          if never_answers w env scope req (s\<lparr>handled := l\<rparr>) then None
          else Some (try_handle_request w (exec_delegate w env) scope req s)
      | _ \<Rightarrow> Some s)"

end
