(* ===== verification/Handover.thy ===== *)
theory Handover
  imports Tasks
begin

text \<open>
  The properties that span components: an authority transfer from the server that orders it
  to the peers that carry it out, and the streams of a subscription from the request to the
  callback. The lemmas of the first section say what one message does at the peer that
  receives it; the theorems follow the messages.
\<close>

section \<open>The orders of a transfer\<close>

lemma order_args_fields [simp]:
  "json_get_string (order_args eid t f p when payload g) ''e'' = Inr eid"
  "json_get_string (order_args eid t f p when payload g) ''t'' = Inr t"
  "json_get_string (order_args eid t f p when payload g) ''f'' = Inr f"
  "json_get_string (order_args eid t f p when payload g) ''p'' = Inr p"
  "json_get_string (order_args eid t f p when payload g) ''w'' = Inr when"
  "json_get_string (order_args eid t f p when payload g) ''payload'' = Inr payload"
  "json_at (order_args eid t f p when payload g) ''g'' = Inr g"
  by (simp_all add: order_args_def hmap_simps)

text \<open>The two messages that carry the same arguments.\<close>

definition take_request :: "world \<Rightarrow> nat \<Rightarrow> json \<Rightarrow> rpc_request" where
  "take_request w n args = fired_request w n (rpc_name ''Container'' ''TakeAuthority'') [JStr (jdump w args)]"

definition drop_request :: "world \<Rightarrow> nat \<Rightarrow> json \<Rightarrow> rpc_request" where
  "drop_request w n args = fired_request w n (rpc_name ''Container'' ''DropAuthority'') [JStr (jdump w args)]"

text \<open>The ghost data of an order.\<close>

definition order_ghost :: "string \<Rightarrow> node \<Rightarrow> json" where
  "order_ghost eid s = (case fst (PeekProperties eid (ghosts s)) of None \<Rightarrow> JStr ''{}'' | Some j \<Rightarrow> j)"

lemma notify_take:
  fixes s :: node
  assumes "producer_ok w (tp_rpc (topic_scope s) t)" "\<And>a. serial_ok w a"
    and "json_get_string args ''t'' = Inr t"
  shows "\<exists>s'. notifyTakeAuthority w args s = Ret () s' \<and>
    wire s' = wire s @ [(tp_rpc (topic_scope s) t, take_request w (uuid_reads s) args)] \<and>
    uuid_reads s' = Suc (uuid_reads s) \<and> topic_scope s' = topic_scope s \<and> handled s' = handled s \<and>
    methods s' = methods s \<and> rpc.more s' = rpc.more s"
proof -
  let ?t = "on_fail FailIgnore (builder_for (on_scope (topic_scope s) t))"
  have scope: "tp_scope ?t = tp_rpc (topic_scope s) t"
    by (simp add: builder_defs on_scope_def topic_defs)
  obtain s' where s': "builder_fire w ?t (rpc_name ''Container'' ''TakeAuthority'') [JStr (jdump w args)] s = Ret () s'"
    "wire s' = wire s @ [(tp_rpc (topic_scope s) t, take_request w (uuid_reads s) args)]"
    "uuid_reads s' = Suc (uuid_reads s)" "topic_scope s' = topic_scope s" "handled s' = handled s"
    "methods s' = methods s" "rpc.more s' = rpc.more s"
    using fire_effect [of w ?t "rpc_name ''Container'' ''TakeAuthority''" "[JStr (jdump w args)]" s] assms(1,2)
    unfolding scope take_request_def by blast
  then show ?thesis by (simp add: notifyTakeAuthority_def assms(3))
qed

lemma notify_drop:
  fixes s :: node
  assumes "producer_ok w (tp_rpc (topic_scope s) f)" "\<And>a. serial_ok w a"
    and "json_get_string args ''f'' = Inr f"
  shows "\<exists>s'. notifyDrop w args s = Ret () s' \<and>
    wire s' = wire s @ [(tp_rpc (topic_scope s) f, drop_request w (uuid_reads s) args)] \<and>
    topic_scope s' = topic_scope s \<and> handled s' = handled s \<and> methods s' = methods s \<and> rpc.more s' = rpc.more s"
proof -
  let ?t = "on_fail FailLogError (builder_for (on_scope (topic_scope s) f))"
  have scope: "tp_scope ?t = tp_rpc (topic_scope s) f"
    by (simp add: builder_defs on_scope_def topic_defs)
  obtain s' where s': "builder_fire w ?t (rpc_name ''Container'' ''DropAuthority'') [JStr (jdump w args)] s = Ret () s'"
    "wire s' = wire s @ [(tp_rpc (topic_scope s) f, drop_request w (uuid_reads s) args)]"
    "topic_scope s' = topic_scope s" "handled s' = handled s" "methods s' = methods s" "rpc.more s' = rpc.more s"
    using fire_effect [of w ?t "rpc_name ''Container'' ''DropAuthority''" "[JStr (jdump w args)]" s] assms(1,2)
    unfolding scope drop_request_def by blast
  then show ?thesis by (simp add: notifyDrop_def fire_log_error_def assms(3))
qed

text \<open>A transfer changes nothing else but the clock and the generator of ids.\<close>

definition transferred :: "string \<Rightarrow> node \<Rightarrow> node" where
  "transferred eid s =
     (update_entity eid (\<lambda>e. e\<lparr>et_quarantine := True\<rparr>) s)\<lparr>ghosts := snd (PeekProperties eid (ghosts s))\<rparr>"

lemma transfer_effect:
  assumes "server_mode s" "map_of (entities s) eid = Some e" "transferable t ign e"
    and "producer_ok w (tp_rpc (topic_scope s) t)" "producer_ok w (tp_rpc (topic_scope s) (et_owner e))"
    and "\<And>a. serial_ok w a"
  shows "\<exists>s' p when. TransferAuthority w eid t payload ign s = Ret () s' \<and>
    wire s' = wire s @
      [(tp_rpc (topic_scope s) t,
          take_request w (Suc (uuid_reads s)) (order_args eid t (et_owner e) p when payload (order_ghost eid s))),
       (tp_rpc (topic_scope s) (et_owner e),
          drop_request w (Suc (Suc (uuid_reads s))) (order_args eid t (et_owner e) p when payload (order_ghost eid s)))] \<and>
    topic_scope s' = topic_scope s \<and> handled s' = handled s \<and> methods s' = methods s \<and>
    rpc.more s' = rpc.more (transferred eid s)"
proof -
  let ?s1 = "update_entity eid (\<lambda>e. e\<lparr>et_quarantine := True\<rparr>) s"
  obtain p s2 where s2: "GenUUID w ?s1 = (p, s2)" by (cases "GenUUID w ?s1")
  obtain tw s3 where s3: "ms_later w 2000 s2 = (tw, s3)" by (cases "ms_later w 2000 s2")
  obtain props g where g: "PeekProperties eid (ghosts s3) = (props, g)" by (cases "PeekProperties eid (ghosts s3)")
  let ?s4 = "s3\<lparr>ghosts := g\<rparr>"
  have s2': "s2 = ?s1\<lparr>uuid_reads := Suc (uuid_reads ?s1)\<rparr>" using s2 by (simp add: GenUUID_def)
  have s3': "s3 = s2\<lparr>sys_reads := Suc (sys_reads s2)\<rparr>" using s3 by (simp add: ms_later_def GetUnifiedTime_def read_sys_def)
  have 4: "topic_scope ?s4 = topic_scope s" "wire ?s4 = wire s" "uuid_reads ?s4 = Suc (uuid_reads s)"
    "handled ?s4 = handled s" "methods ?s4 = methods s"
    by (simp_all add: s3' s2' update_entity_def)
  have more: "rpc.more ?s4 = rpc.more (transferred eid s)"
    using g by (cases s) (simp add: s3' s2' update_entity_def transferred_def)
  have ghost: "(case props of None \<Rightarrow> JStr ''{}'' | Some j \<Rightarrow> j) = order_ghost eid s"
    using g by (simp add: order_ghost_def s3' s2' update_entity_def)
  let ?args = "order_args eid t (et_owner e) p (ToISOString w tw) payload (order_ghost eid s)"
  have p4: "producer_ok w (tp_rpc (topic_scope ?s4) t)" using assms(4) 4 by simp
  obtain s5 where s5: "notifyTakeAuthority w ?args ?s4 = Ret () s5"
    "wire s5 = wire ?s4 @ [(tp_rpc (topic_scope ?s4) t, take_request w (uuid_reads ?s4) ?args)]"
    "uuid_reads s5 = Suc (uuid_reads ?s4)" "topic_scope s5 = topic_scope ?s4" "handled s5 = handled ?s4"
    "methods s5 = methods ?s4" "rpc.more s5 = rpc.more ?s4"
    using notify_take [OF p4 assms(6), of ?args] by auto
  have p5: "producer_ok w (tp_rpc (topic_scope s5) (et_owner e))" using assms(5) 4 s5 by simp
  obtain s6 where s6: "notifyDrop w ?args s5 = Ret () s6"
    "wire s6 = wire s5 @ [(tp_rpc (topic_scope s5) (et_owner e), drop_request w (uuid_reads s5) ?args)]"
    "topic_scope s6 = topic_scope s5" "handled s6 = handled s5" "methods s6 = methods s5" "rpc.more s6 = rpc.more s5"
    using notify_drop [OF p5 assms(6), of ?args] by auto
  have run: "TransferAuthority w eid t payload ign s = Ret () s6"
    using assms(1-3) s2 s3 g ghost s5(1) s6(1)
    by (simp add: TransferAuthority_def update_entity_def Let_def)
  show ?thesis
    by (rule exI [of _ s6], rule exI [of _ p], rule exI [of _ "ToISOString w tw"])
      (simp only: run s6(2-6) s5(2-7) 4 more append_assoc append_Cons append_Nil simp_thms)
qed

text \<open>C12: A server that transfers the authority over a valid entity sends exactly one take order, on the
  topic of the target container, and then one drop order, on the topic of the source, with the
  same arguments; it keeps the owner but quarantines the entity, and until an order comes back
  every further transfer of it does nothing.\<close>
theorem transfer_orders:
  assumes "server_mode s" "map_of (entities s) eid = Some e" "transferable t ign e"
    and "producer_ok w (tp_rpc (topic_scope s) t)" "producer_ok w (tp_rpc (topic_scope s) (et_owner e))"
    and "\<And>a. serial_ok w a"
  shows "\<exists>s' p when. TransferAuthority w eid t payload ign s = Ret () s' \<and>
    wire s' = wire s @
      [(tp_rpc (topic_scope s) t,
          take_request w (Suc (uuid_reads s)) (order_args eid t (et_owner e) p when payload (order_ghost eid s))),
       (tp_rpc (topic_scope s) (et_owner e),
          drop_request w (Suc (Suc (uuid_reads s))) (order_args eid t (et_owner e) p when payload (order_ghost eid s)))] \<and>
    map_of (entities s') eid = Some (e\<lparr>et_quarantine := True\<rparr>) \<and>
    TransferAuthority w eid t' payload' ign' s' = Ret () s'"
proof -
  obtain s' p "when" where run: "TransferAuthority w eid t payload ign s = Ret () s'"
    "wire s' = wire s @
      [(tp_rpc (topic_scope s) t,
          take_request w (Suc (uuid_reads s)) (order_args eid t (et_owner e) p when payload (order_ghost eid s))),
       (tp_rpc (topic_scope s) (et_owner e),
          drop_request w (Suc (Suc (uuid_reads s))) (order_args eid t (et_owner e) p when payload (order_ghost eid s)))]"
    and more: "rpc.more s' = rpc.more (transferred eid s)"
    using transfer_effect [OF assms] by blast
  have e': "map_of (entities s') eid = Some (e\<lparr>et_quarantine := True\<rparr>)"
    using node_more(4) [OF more] assms(2) by (simp add: transferred_def)
  then have "TransferAuthority w eid t' payload' ign' s' = Ret () s'"
    by (simp add: TransferAuthority_def transferable_def)
  with run e' show ?thesis by blast
qed

section \<open>Receiving an order\<close>

text \<open>A request that is new to the peer, for a method that returns: its effect and its answer.\<close>

lemma receive_call:
  fixes q :: node
  assumes "lru_inv (handled q)" "\<not> remembers q (rq_rpc_id req)" "rq_responds_to req = []"
    and "lookup_method q topic (rq_name req) = Some d" "d \<noteq> PeerMethod ''ForceConnectToNode''"
    and "jparse w (rq_args req) = Some j"
    and "\<And>l. exec_delegate w env d j (q\<lparr>handled := l\<rparr>) = Ret v (f l)"
  shows "\<exists>l. receive_request w env topic req q =
      Some (if rq_response_topic req = [] then f l
            else snd (callee_write w (rq_response_topic req) (response_request w req v False) (f l))) \<and>
    lru_inv l \<and> rq_rpc_id req \<in> set (recency l) \<and>
    set (recency l) \<subseteq> insert (rq_rpc_id req) (set (recency (handled q)))"
proof -
  obtain l where l: "utm_run (rq_rpc_id req) (handled q) = Some (True, l)" "lru_inv l"
    "recency l = take (lru_capacity (handled q)) (rq_rpc_id req # recency (handled q))"
    using utm_run_new assms(1,2) by (metis remembers_def)
  have "0 < lru_capacity (handled q)" using assms(1) by (simp add: lru_inv_def)
  then have mem: "rq_rpc_id req \<in> set (recency l)" by (simp add: l(3) take_Cons')
  have look: "lookup_method (q\<lparr>handled := l\<rparr>) topic (rq_name req) = Some d"
    using assms(4) by (simp add: lookup_method_def)
  then have "\<not> never_answers w env topic req (q\<lparr>handled := l\<rparr>)" using assms(5) by (simp add: never_answers_def)
  moreover have "try_handle_request w (exec_delegate w env) topic req q =
      (if rq_response_topic req = [] then f l
       else snd (callee_write w (rq_response_topic req) (response_request w req v False) (f l)))"
    using look assms(3,6,7)
    by (auto simp: try_handle_request_def l(1) handle_call_def run_handler_def lookup_method_def split: option.splits)
  moreover have "set (recency l) \<subseteq> insert (rq_rpc_id req) (set (recency (handled q)))"
    using set_take_subset [of "lru_capacity (handled q)" "rq_rpc_id req # recency (handled q)"] by (simp add: l(3))
  ultimately show ?thesis using l(1,2) mem by (auto simp: receive_request_def)
qed

text \<open>
  A container method that gets the text of one JSON value: what the peer does with the message, which
  was sent in a world \<open>u\<close>.
\<close>

lemma receive_container_call:
  assumes "lru_inv (handled q)" "\<not> remembers q (gen_uuid u n)"
    and "lookup_method q topic (rpc_name ''Container'' m) = Some (ContainerMethod c m)"
    and "\<And>j. jparse w (jdump u j) = Some j"
    and "method_type (rpc_name ''Container'' m) = Some (1, VoidResult)"
    and "\<And>l. exec_container w m [text] (q\<lparr>handled := l\<rparr>) = Ret v (f l)"
  shows "\<exists>l. receive_request w env topic (fired_request u n (rpc_name ''Container'' m) [JStr text]) q = Some (f l) \<and>
    lru_inv l \<and> gen_uuid u n \<in> set (recency l) \<and> set (recency l) \<subseteq> insert (gen_uuid u n) (set (recency (handled q)))"
proof -
  have "exec_delegate w env (ContainerMethod c m) (JArr [JStr text]) (q\<lparr>handled := l\<rparr>) = Ret v (f l)" for l
    by (subst exec_decoded [of _ _ "[text]"])
      (simp_all add: delegate_arity_def decode_args_def tuple_args_def run_method_def assms(5,6))
  from receive_call [where req = "fired_request u n (rpc_name ''Container'' m) [JStr text]", OF assms(1) _ _ _ _ _ this]
  show ?thesis using assms(2-4) by (simp add: fired_request_def new_request_def serialize_args_def)
qed

text \<open>A message that was handled is ignored when it arrives again.\<close>

lemma receive_again:
  assumes "lru_inv (handled q)" "rq_rpc_id req \<in> set (recency (handled q))"
  shows "receive_request w env topic req q = Some q"
  using assms by (simp add: receive_request_def utm_run_known)

text \<open>The effect of a take order on a peer.\<close>

definition take_effect :: "string \<Rightarrow> string \<Rightarrow> string \<Rightarrow> json \<Rightarrow> node \<Rightarrow> node" where
  "take_effect eid t payload g s =
     (let s1 = update_entity eid (\<lambda>e. e\<lparr>et_owner := t, et_quarantine := False\<rparr>) s;
          s2 = (if IsEntityRegistered eid s then s1 else push_top (InstantiateEntity eid payload t g) s1)
      in if server_mode s then RegisterNewOwnedEntityToContainer t eid s2 else s2)"

lemma ExecTakeOrder_effect:
  "ExecTakeOrder w (order_args eid t f p when payload g) s = Ret () (take_effect eid t payload g s)"
  by (simp add: ExecTakeOrder_def take_effect_def Let_def IsEntityRegistered_def hcontains_def)

lemma ExecDropOrder_effect:
  "ExecDropOrder w (order_args eid t f p when payload g) s =
     Ret () (if f = t then s else ScheduleAsyncTask (DropEntityAt (FromISOString w when) eid t f p) s)"
proof -
  have "drop_args w (order_args eid t f p when payload g) = Inr (order_args eid t f p when payload g)"
    by (simp add: drop_args_def order_args_def)
  then show ?thesis by (simp add: ExecDropOrder_def)
qed

lemma receive_take:
  assumes "lru_inv (handled q)" "\<not> remembers q (gen_uuid u n)"
    and "lookup_method q topic (rpc_name ''Container'' ''TakeAuthority'') = Some (ContainerMethod c ''TakeAuthority'')"
    and "\<And>j. jparse w (jdump u j) = Some j"
  shows "\<exists>l. receive_request w env topic (take_request u n (order_args eid t f p when payload g)) q =
      Some (take_effect eid t payload g (q\<lparr>handled := l\<rparr>)) \<and> lru_inv l \<and>
      gen_uuid u n \<in> set (recency l) \<and> set (recency l) \<subseteq> insert (gen_uuid u n) (set (recency (handled q)))"
  unfolding take_request_def
proof (rule receive_container_call [OF assms])
  fix l
  show "exec_container w ''TakeAuthority'' [jdump u (order_args eid t f p when payload g)] (q\<lparr>handled := l\<rparr>) =
      Ret JNull (take_effect eid t payload g (q\<lparr>handled := l\<rparr>))"
    by (simp add: exec_container_def TakeAuthority_def order_handler_def assms(4)
        ExecTakeOrder_effect ret_unit_def)
qed simp

lemma receive_drop:
  assumes "lru_inv (handled q)" "\<not> remembers q (gen_uuid u n)"
    and "lookup_method q topic (rpc_name ''Container'' ''DropAuthority'') = Some (ContainerMethod c ''DropAuthority'')"
    and "\<And>j. jparse w (jdump u j) = Some j" "f \<noteq> t"
  shows "\<exists>l. receive_request w env topic (drop_request u n (order_args eid t f p when payload g)) q =
      Some (ScheduleAsyncTask (DropEntityAt (FromISOString w when) eid t f p) (q\<lparr>handled := l\<rparr>)) \<and>
      lru_inv l \<and> gen_uuid u n \<in> set (recency l) \<and>
      set (recency l) \<subseteq> insert (gen_uuid u n) (set (recency (handled q)))"
  unfolding drop_request_def
proof (rule receive_container_call [OF assms(1-4)])
  fix l
  show "exec_container w ''DropAuthority'' [jdump u (order_args eid t f p when payload g)] (q\<lparr>handled := l\<rparr>) =
      Ret JNull (ScheduleAsyncTask (DropEntityAt (FromISOString w when) eid t f p) (q\<lparr>handled := l\<rparr>))"
    using assms(5)
    by (simp add: exec_container_def DropAuthority_def order_handler_def assms(4)
        ExecDropOrder_effect ret_unit_def)
qed simp

lemma take_effect_fields [simp]:
  "handled (take_effect eid t payload g s) = handled s" "methods (take_effect eid t payload g s) = methods s"
  "ghosts (take_effect eid t payload g s) = ghosts s" "hooks_set (take_effect eid t payload g s) = hooks_set s"
  "async_tasks (take_effect eid t payload g s) = async_tasks s"
  "server_mode (take_effect eid t payload g s) = server_mode s"
  "topic_scope (take_effect eid t payload g s) = topic_scope s"
  by (simp_all add: take_effect_def Let_def update_entity_def push_top_def RegisterNewOwnedEntityToContainer_def
      update_container_def)

lemma take_effect_entities:
  "map_of (entities (take_effect eid t payload g s)) i =
     map_option (\<lambda>e. if i = eid then e\<lparr>et_owner := t, et_quarantine := False\<rparr> else e) (map_of (entities s) i)"
  by (auto simp: take_effect_def Let_def push_top_def RegisterNewOwnedEntityToContainer_def update_container_def
      option.map_ident)

lemma take_effect_tasks:
  "top_tasks (take_effect eid t payload g s) =
     top_tasks s @ (if IsEntityRegistered eid s then [] else [InstantiateEntity eid payload t g])"
  by (simp add: take_effect_def Let_def push_top_def PushTaskToEngine_def RegisterNewOwnedEntityToContainer_def
      update_container_def update_entity_def)

lemma take_effect_containers:
  "map_of (containers (take_effect eid t payload g s)) c =
     map_option (\<lambda>k. if c = t \<and> server_mode s then k\<lparr>ct_owned := oset_insert eid (ct_owned k)\<rparr> else k)
       (map_of (containers s) c)"
  by (auto simp: take_effect_def Let_def push_top_def RegisterNewOwnedEntityToContainer_def update_entity_def
      update_container_def hmap_simps option.map_ident)

lemma run_instantiate:
  assumes "OnInstantiateEntity \<in> set (hooks_set s)" "wf_entity g" "top_tasks s = [InstantiateEntity eid payload t g]"
    and "map_of (entities s) eid = None"
  shows "\<exists>s'. AdvanceTopLevelExecutorTask w env res s = Some (Ret True s') \<and>
    map_option et_owner (map_of (entities s') eid) = Some t \<and>
    (\<forall>k. value_of (ghosts s') eid k =
       (case entity_value g k of Some v \<Rightarrow> Some v | None \<Rightarrow> value_of (ghosts s) eid k))"
proof -
  let ?s = "s\<lparr>top_tasks := []\<rparr>"
  obtain s1 where *: "EngineCallInstantiate eid payload t ?s = Ret () s1" "ghosts s1 = ghosts ?s"
    "\<forall>i. map_option et_owner (map_of (entities s1) i) =
       (if i = eid then Some t else map_option et_owner (map_of (entities ?s) i))"
    using EngineCallInstantiate_ok [of ?s eid payload t] assms(1) by auto
  have s1: "EngineCallInstantiate eid payload t ?s = Ret () s1" "ghosts s1 = ghosts s"
    "map_option et_owner (map_of (entities s1) eid) = Some t"
    using * spec [OF *(3), of eid] by simp_all
  obtain gh where gh: "apply_entity_update w eid g (ghosts s) = Ret () gh"
    "\<And>k. value_of gh eid k = (case entity_value g k of Some v \<Rightarrow> Some v | None \<Rightarrow> value_of (ghosts s) eid k)"
    using apply_entity [OF assms(2), of w eid "ghosts s"] by auto
  have "instantiate_entity w eid payload t g ?s = Ret () (s1\<lparr>ghosts := gh\<rparr>)"
    by (simp add: instantiate_entity_def s1 lift_ghost_def gh(1))
  then show ?thesis
    using s1 gh(2) by (simp add: AdvanceTopLevelExecutorTask_def assms(3) PollEngineTask_def)
qed

text \<open>C10: A peer of the target container that receives a take order, and has not handled it before,
  gives the entity to the target and ends its quarantine, or, when it does not know the entity,
  instantiates it through its engine under that owner with the values of the order; a second
  copy of the order changes nothing.\<close>
theorem authority_taken:
  assumes "lru_inv (handled q)" "\<not> remembers q (gen_uuid w n)"
    and "lookup_method q (tp_rpc (topic_scope q) t) (rpc_name ''Container'' ''TakeAuthority'') =
      Some (ContainerMethod t ''TakeAuthority'')"
    and "\<And>j. jparse w (jdump w j) = Some j"
    and "OnInstantiateEntity \<in> set (hooks_set q)" "wf_entity g" "top_tasks q = []"
    and "req = take_request w n (order_args eid t f p when payload g)"
  shows "\<exists>q1. receive_request w env (tp_rpc (topic_scope q) t) req q = Some q1 \<and>
    receive_request w env (tp_rpc (topic_scope q) t) req q1 = Some q1 \<and>
    (case map_of (entities q) eid of
       Some e \<Rightarrow> map_of (entities q1) eid = Some (e\<lparr>et_owner := t, et_quarantine := False\<rparr>)
     | None \<Rightarrow> (\<exists>q2. AdvanceTopLevelExecutorTask w env' res q1 = Some (Ret True q2) \<and>
         map_option et_owner (map_of (entities q2) eid) = Some t \<and>
         (\<forall>k. value_of (ghosts q2) eid k =
            (case entity_value g k of Some v \<Rightarrow> Some v | None \<Rightarrow> value_of (ghosts q) eid k))))"
proof -
  obtain l where l: "receive_request w env (tp_rpc (topic_scope q) t) req q =
      Some (take_effect eid t payload g (q\<lparr>handled := l\<rparr>))" "lru_inv l" "gen_uuid w n \<in> set (recency l)"
    using receive_take [OF assms(1-4)] unfolding assms(8) by blast
  let ?q1 = "take_effect eid t payload g (q\<lparr>handled := l\<rparr>)"
  have "rq_rpc_id req = gen_uuid w n"
    by (simp add: assms(8) take_request_def fired_request_def new_request_def)
  then have "receive_request w env (tp_rpc (topic_scope q) t) req ?q1 = Some ?q1"
    by (intro receive_again) (simp_all add: l)
  moreover have "\<exists>q2. AdvanceTopLevelExecutorTask w env' res ?q1 = Some (Ret True q2) \<and>
         map_option et_owner (map_of (entities q2) eid) = Some t \<and>
         (\<forall>k. value_of (ghosts q2) eid k =
            (case entity_value g k of Some v \<Rightarrow> Some v | None \<Rightarrow> value_of (ghosts q) eid k))"
    if none: "map_of (entities q) eid = None"
  proof -
    have "top_tasks ?q1 = [InstantiateEntity eid payload t g]"
      using none assms(7) by (simp add: take_effect_tasks IsEntityRegistered_def hcontains_def)
    moreover have "map_of (entities ?q1) eid = None" using none by (simp add: take_effect_entities)
    moreover have "OnInstantiateEntity \<in> set (hooks_set ?q1)" using assms(5) by simp
    ultimately show ?thesis
      using run_instantiate [of ?q1 g eid payload t w env' res] assms(6) by (simp cong: option.case_cong)
  qed
  ultimately show ?thesis using l(1) by (auto simp: take_effect_entities split: option.split)
qed

text \<open>A client that has bound the methods of a container, and a server that owns one of its entities.\<close>

definition demo_client :: "string \<Rightarrow> node" where
  "demo_client cid = container_initRPCs cid (new_node False ''s/'' ''v'' [OnInstantiateEntity, OnDeleteEntity])"

lemma demo_client_simps [simp]:
  "handled (demo_client cid) = new_utm" "lru_inv (new_utm :: string lru)" "recency (new_utm :: string lru) = []"
  "topic_scope (demo_client cid) = ''s/''" "top_tasks (demo_client cid) = []" "async_tasks (demo_client cid) = []"
  "hooks_set (demo_client cid) = [OnInstantiateEntity, OnDeleteEntity]" "entities (demo_client cid) = []"
  "hook_calls (demo_client cid) = []" "containers (demo_client cid) = []" "server_mode (demo_client cid) = False"
  by (simp_all add: demo_client_def new_utm_def default_capacity_def container_initRPCs_def container_methods_def)
     (simp_all add: new_node_def rpc.extend_def new_rpc_def new_utm_def default_capacity_def)

lemma demo_client_bound:
  assumes "m \<in> set container_methods"
  shows "lookup_method (demo_client cid) (tp_rpc ''s/'' cid) (rpc_name ''Container'' m) = Some (ContainerMethod cid m)"
proof -
  let ?s = "new_node False ''s/'' ''v'' [OnInstantiateEntity, OnDeleteEntity]"
  have "topic_scope ?s = ''s/''" "lookup_method ?s a b = None" for a b
    by (simp_all add: new_node_def rpc.extend_def new_rpc_def lookup_method_def)
  then show ?thesis using container_initRPCs_lookup [of ?s cid m] assms by (simp add: demo_client_def)
qed

theorem transfer_orders_witness:
  "\<exists>s'. TransferAuthority demo_world ''a'' ''d'' ''{}'' False demo_server = Ret () s' \<and>
     map fst (wire s') = [tp_rpc ''s/'' ''d'', tp_rpc ''s/'' ''c''] \<and> IsEntityQuarantined ''a'' s'"
proof -
  have s: "server_mode demo_server" "map_of (entities demo_server) ''a'' = Some (new_entity ''a'' ''c'')"
    "transferable ''d'' False (new_entity ''a'' ''c'')" "topic_scope demo_server = ''s/''" "wire demo_server = []"
    "et_owner (new_entity ''a'' ''c'') = ''c''"
    by (simp_all add: demo_server_def transferable_def new_entity_def)
      (simp_all add: new_node_def rpc.extend_def new_rpc_def)
  obtain s' p wh where "TransferAuthority demo_world ''a'' ''d'' ''{}'' False demo_server = Ret () s'"
    "wire s' = wire demo_server @
      [(tp_rpc ''s/'' ''d'', take_request demo_world (Suc (uuid_reads demo_server))
          (order_args ''a'' ''d'' ''c'' p wh ''{}'' (order_ghost ''a'' demo_server))),
       (tp_rpc ''s/'' ''c'', drop_request demo_world (Suc (Suc (uuid_reads demo_server)))
          (order_args ''a'' ''d'' ''c'' p wh ''{}'' (order_ghost ''a'' demo_server)))]"
    "map_of (entities s') ''a'' = Some ((new_entity ''a'' ''c'')\<lparr>et_quarantine := True\<rparr>)"
    using transfer_orders [OF s(1-3), of demo_world "''{}''" "[]" "[]" False] by (auto simp: s)
  then show ?thesis by (auto simp: s IsEntityQuarantined_def)
qed

theorem authority_taken_witness:
  "\<exists>q1 q2. receive_request demo_world (\<lambda>_ s. s) (tp_rpc ''s/'' ''t'')
       (take_request demo_world 5 (order_args ''a'' ''t'' ''c'' ''p'' ''now'' ''{}'' (JObj [(''x'', JStr ''1'')]))) (demo_client ''t'') = Some q1 \<and>
     AdvanceTopLevelExecutorTask demo_world (\<lambda>_ s. s) (\<lambda>_. SubOk) q1 = Some (Ret True q2) \<and>
     map_option et_owner (map_of (entities q2) ''a'') = Some ''t'' \<and> value_of (ghosts q2) ''a'' ''x'' = Some ''1''"
proof -
  let ?q = "demo_client ''t''" and ?g = "JObj [(''x'', JStr ''1'')]"
  have q: "lru_inv (handled ?q)" "\<not> remembers ?q (gen_uuid demo_world 5)" "OnInstantiateEntity \<in> set (hooks_set ?q)"
    "top_tasks ?q = []" "wf_entity ?g"
    "lookup_method ?q (tp_rpc (topic_scope ?q) ''t'') (rpc_name ''Container'' ''TakeAuthority'') =
      Some (ContainerMethod ''t'' ''TakeAuthority'')"
    using demo_client_bound [of "''TakeAuthority''" "''t''"] by (simp_all add: remembers_def container_methods_def)
  from authority_taken [OF q(1,2,6) demo_roundtrip q(3,5,4) refl,
      of "\<lambda>_ s. s" "''a''" "''c''" "''p''" "''now''" "''{}''" "\<lambda>_ s. s" "\<lambda>_. SubOk"]
  show ?thesis by (auto simp: entity_value_def)
qed

section \<open>The end of a transfer\<close>

text \<open>What the other threads leave alone while the drop task sleeps.\<close>

definition quiet :: "environment \<Rightarrow> bool" where
  "quiet env \<longleftrightarrow> (\<forall>s. entities (env 0 s) = entities s \<and> containers (env 0 s) = containers s \<and>
     server_mode (env 0 s) = server_mode s \<and> top_tasks (env 0 s) = top_tasks s \<and>
     hooks_set (env 0 s) = hooks_set s \<and> hook_calls (env 0 s) = hook_calls s)"

lemma drop_task_run:
  assumes "quiet env" "async_tasks q = [DropEntityAt when eid t f p]"
  shows "\<exists>s. async_step w env res q = Some (execDropOrderImpl eid t f s) \<and>
    entities s = entities q \<and> containers s = containers q \<and> server_mode s = server_mode q \<and>
    top_tasks s = top_tasks q \<and> hooks_set s = hooks_set q \<and> hook_calls s = hook_calls q"
proof -
  let ?q = "q\<lparr>async_tasks := []\<rparr>"
  obtain d s1 where d: "schedule_delay w when ?q = (d, s1)" by (cases "schedule_delay w when ?q")
  have s1: "s1 = ?q\<lparr>sys_reads := Suc (sys_reads ?q)\<rparr>"
    using d by (simp add: schedule_delay_def GetUnifiedTime_def read_sys_def Let_def)
  let ?s = "if d = 0 then s1 else env 0 s1"
  have "async_step w env res q = Some (execDropOrderImpl eid t f ?s)"
    by (simp add: async_step_def assms(2) scheduler_run_def drop_entity_at_def d)
  moreover have "entities ?s = entities q \<and> containers ?s = containers q \<and> server_mode ?s = server_mode q \<and>
    top_tasks ?s = top_tasks q \<and> hooks_set ?s = hooks_set q \<and> hook_calls ?s = hook_calls q"
    using assms(1) by (simp add: quiet_def s1)
  ultimately show ?thesis by blast
qed

lemma execDropOrderImpl_unknown:
  assumes "map_of (entities s) eid = Some e" "et_id e = eid" "\<not> ContainerExists t s"
  shows "map_of (entities (execDropOrderImpl eid t f s)) eid = Some (e\<lparr>et_valid := False, et_quarantine := True\<rparr>)"
    and "top_tasks (execDropOrderImpl eid t f s) = top_tasks s @ [DeleteAndUnregister eid (et_payload e)]"
    and "hooks_set (execDropOrderImpl eid t f s) = hooks_set s"
    and "hook_calls (execDropOrderImpl eid t f s) = hook_calls s"
  using assms
  by (simp_all add: execDropOrderImpl_def Let_def push_top_def PushTaskToEngine_def
      RemoveOwnedEntityFromContainer_def update_container_def update_entity_def hmap_simps)

lemma delete_and_unregister_run:
  assumes "OnDeleteEntity \<in> set (hooks_set s)" "map_of (entities s) eid = Some e" "\<not> et_valid e"
  shows "\<exists>s'. delete_and_unregister eid payload s = Ret () s' \<and> \<not> IsEntityRegistered eid s' \<and>
    hook_calls s' = hook_calls s @ [(OnDeleteEntity, [eid, payload])] \<and>
    map_of (ett_props (ghosts s')) eid = None"
  using assms
  by (simp add: delete_and_unregister_def call_hook_def UnregisterEntity_def IsEntityRegistered_def hcontains_def
      TryRemoveEntity_def hmap_simps)

text \<open>C11: A peer of the source container that does not know the target lets the entity go: it receives
  the drop order, invalidates the entity when the time of the order has come, and its engine
  deletes it once and removes it and its properties from the registries.\<close>
theorem authority_left:
  assumes "lru_inv (handled q)" "\<not> remembers q (gen_uuid w n)"
    and "lookup_method q (tp_rpc (topic_scope q) f) (rpc_name ''Container'' ''DropAuthority'') =
      Some (ContainerMethod f ''DropAuthority'')"
    and "\<And>j. jparse w (jdump w j) = Some j" "f \<noteq> t"
    and "map_of (entities q) eid = Some e" "et_id e = eid" "\<not> ContainerExists t q"
    and "async_tasks q = []" "top_tasks q = []" "OnDeleteEntity \<in> set (hooks_set q)" "quiet env"
  shows "\<exists>q1 q2 q3.
    receive_request w env' (tp_rpc (topic_scope q) f) (drop_request w n (order_args eid t f p when payload g)) q = Some q1 \<and>
    async_step w env res q1 = Some q2 \<and> \<not> IsEntityValid eid q2 \<and>
    AdvanceTopLevelExecutorTask w env res q2 = Some (Ret True q3) \<and> \<not> IsEntityRegistered eid q3 \<and>
    hook_calls q3 = hook_calls q @ [(OnDeleteEntity, [eid, et_payload e])] \<and>
    map_of (ett_props (ghosts q3)) eid = None \<and> top_tasks q3 = []"
proof -
  obtain l where l: "receive_request w env' (tp_rpc (topic_scope q) f) (drop_request w n (order_args eid t f p when payload g)) q =
      Some (ScheduleAsyncTask (DropEntityAt (FromISOString w when) eid t f p) (q\<lparr>handled := l\<rparr>))"
    using receive_drop [OF assms(1-5)] by blast
  let ?q1 = "ScheduleAsyncTask (DropEntityAt (FromISOString w when) eid t f p) (q\<lparr>handled := l\<rparr>)"
  have one: "async_tasks ?q1 = [DropEntityAt (FromISOString w when) eid t f p]"
    using assms(9) by (simp add: ScheduleAsyncTask_def)
  obtain s where s: "async_step w env res ?q1 = Some (execDropOrderImpl eid t f s)" "entities s = entities ?q1"
    "containers s = containers ?q1" "top_tasks s = top_tasks ?q1" "hooks_set s = hooks_set ?q1" "hook_calls s = hook_calls ?q1"
    using drop_task_run [OF assms(12) one] by blast
  have ent: "map_of (entities s) eid = Some e" "\<not> ContainerExists t s"
    using s assms(6,8) by (simp_all add: ScheduleAsyncTask_def ContainerExists_def)
  note dropped = execDropOrderImpl_unknown [OF ent(1) assms(7) ent(2), of f]
  let ?q2 = "execDropOrderImpl eid t f s"
  let ?q2' = "?q2\<lparr>top_tasks := []\<rparr>"
  have "OnDeleteEntity \<in> set (hooks_set ?q2')" using assms(11) s(5) by (simp add: dropped ScheduleAsyncTask_def)
  then obtain q3 where q3: "delete_and_unregister eid (et_payload e) ?q2' = Ret () q3" "\<not> IsEntityRegistered eid q3"
    "hook_calls q3 = hook_calls ?q2' @ [(OnDeleteEntity, [eid, et_payload e])]" "map_of (ett_props (ghosts q3)) eid = None"
    using delete_and_unregister_run [of ?q2' eid "e\<lparr>et_valid := False, et_quarantine := True\<rparr>" "et_payload e"]
    by (auto simp: dropped)
  have tasks: "top_tasks ?q2 = [DeleteAndUnregister eid (et_payload e)]"
    using s(4) assms(10) by (simp add: dropped ScheduleAsyncTask_def)
  then have "AdvanceTopLevelExecutorTask w env res ?q2 = Some (Ret True q3)"
    by (simp add: AdvanceTopLevelExecutorTask_def PollEngineTask_def q3(1))
  moreover have "top_tasks q3 = []"
    using q3(1) by (auto simp: delete_and_unregister_def call_hook_def UnregisterEntity_def split: if_splits option.splits)
  moreover have "\<not> IsEntityValid eid ?q2" by (simp add: IsEntityValid_def dropped)
  ultimately show ?thesis
    using l s(1,6) q3 by (auto simp: dropped ScheduleAsyncTask_def)
qed

theorem authority_left_witness:
  "\<exists>q1 q2 q3.
    receive_request demo_world (\<lambda>_ s. s) (tp_rpc ''s/'' ''c'')
      (drop_request demo_world 6 (order_args ''a'' ''t'' ''c'' ''p'' ''now'' ''{}'' JNull))
      ((demo_client ''c'')\<lparr>entities := [(''a'', new_entity ''a'' ''c'')]\<rparr>) = Some q1 \<and>
    async_step demo_world (\<lambda>_ s. s) (\<lambda>_. SubOk) q1 = Some q2 \<and>
    AdvanceTopLevelExecutorTask demo_world (\<lambda>_ s. s) (\<lambda>_. SubOk) q2 = Some (Ret True q3) \<and>
    \<not> IsEntityRegistered ''a'' q3"
proof -
  let ?q = "(demo_client ''c'')\<lparr>entities := [(''a'', new_entity ''a'' ''c'')]\<rparr>"
  have look: "lookup_method ?q (tp_rpc (topic_scope ?q) ''c'') (rpc_name ''Container'' ''DropAuthority'') =
      Some (ContainerMethod ''c'' ''DropAuthority'')"
    using demo_client_bound [of "''DropAuthority''" "''c''"] by (simp add: container_methods_def lookup_method_def)
  have q: "lru_inv (handled ?q)" "\<not> remembers ?q (gen_uuid demo_world 6)" "''c'' \<noteq> ''t''"
    "map_of (entities ?q) ''a'' = Some (new_entity ''a'' ''c'')" "et_id (new_entity ''a'' ''c'') = ''a''"
    "\<not> ContainerExists ''t'' ?q" "async_tasks ?q = []" "top_tasks ?q = []" "OnDeleteEntity \<in> set (hooks_set ?q)"
    "quiet (\<lambda>_ s. s)"
    by (simp_all add: remembers_def ContainerExists_def hcontains_def quiet_def new_entity_def)
  from authority_left [OF q(1,2) look demo_roundtrip q(3-10), of "\<lambda>_ s. s" "''p''" "''now''" "''{}''" JNull "\<lambda>_. SubOk"]
  show ?thesis by auto
qed

lemma execDropOrderImpl_known:
  assumes "map_of (entities s) eid = Some e" "et_id e = eid" "ContainerExists t s" "f \<noteq> t"
  shows "entities (execDropOrderImpl eid t f s) = entities s" "top_tasks (execDropOrderImpl eid t f s) = top_tasks s"
    and "map_of (containers (execDropOrderImpl eid t f s)) c =
      map_option (\<lambda>k. if c = f \<and> server_mode s then k\<lparr>ct_owned := oset_erase eid (ct_owned k)\<rparr> else k)
        (map_of (containers s) c)"
  using assms
  by (auto simp: execDropOrderImpl_def Let_def RemoveOwnedEntityFromContainer_def update_container_def hmap_simps
      option.map_ident)

text \<open>C9: A peer that takes part in both containers and receives the take order and then the drop order
  keeps the entity: after the time of the drop order it is owned by the target, out of
  quarantine, as valid as before, nothing is deleted, and on a server the set of owned
  entities of the target has it and that of the source does not.\<close>
theorem authority_moved:
  assumes "lru_inv (handled q)" "\<not> remembers q (gen_uuid w n)" "\<not> remembers q (gen_uuid w (Suc n))"
    and "gen_uuid w n \<noteq> gen_uuid w (Suc n)"
    and "lookup_method q (tp_rpc (topic_scope q) t) (rpc_name ''Container'' ''TakeAuthority'') =
      Some (ContainerMethod t ''TakeAuthority'')"
    and "lookup_method q (tp_rpc (topic_scope q) f) (rpc_name ''Container'' ''DropAuthority'') =
      Some (ContainerMethod f ''DropAuthority'')"
    and "\<And>j. jparse w (jdump w j) = Some j" "f \<noteq> t"
    and "map_of (entities q) eid = Some e" "et_id e = eid"
    and "map_of (containers q) t = Some ct" "map_of (containers q) f = Some cf"
    and "async_tasks q = []" "quiet env" "args = order_args eid t f p when payload g"
  shows "\<exists>q1 q2 q3 ct' cf'.
    receive_request w env' (tp_rpc (topic_scope q) t) (take_request w n args) q = Some q1 \<and>
    receive_request w env' (tp_rpc (topic_scope q) f) (drop_request w (Suc n) args) q1 = Some q2 \<and>
    async_step w env res q2 = Some q3 \<and>
    map_of (entities q3) eid = Some (e\<lparr>et_owner := t, et_quarantine := False\<rparr>) \<and> top_tasks q3 = top_tasks q \<and>
    map_of (containers q3) t = Some ct' \<and> map_of (containers q3) f = Some cf' \<and>
    (server_mode q \<longrightarrow> eid \<in> set (ct_owned ct') \<and> eid \<notin> set (ct_owned cf'))"
proof -
  obtain l where l: "receive_request w env' (tp_rpc (topic_scope q) t) (take_request w n args) q =
      Some (take_effect eid t payload g (q\<lparr>handled := l\<rparr>))" "lru_inv l"
    "set (recency l) \<subseteq> insert (gen_uuid w n) (set (recency (handled q)))"
    using receive_take [OF assms(1,2,5,7)] unfolding assms(15) by blast
  let ?q1 = "take_effect eid t payload g (q\<lparr>handled := l\<rparr>)"
  have q1: "lru_inv (handled ?q1)" "\<not> remembers ?q1 (gen_uuid w (Suc n))"
    "lookup_method ?q1 (tp_rpc (topic_scope q) f) (rpc_name ''Container'' ''DropAuthority'') =
      Some (ContainerMethod f ''DropAuthority'')"
    using l(2,3) assms(3,4,6) by (auto simp: remembers_def lookup_method_def)
  obtain l2 where l2: "receive_request w env' (tp_rpc (topic_scope q) f) (drop_request w (Suc n) args) ?q1 =
      Some (ScheduleAsyncTask (DropEntityAt (FromISOString w when) eid t f p) (?q1\<lparr>handled := l2\<rparr>))"
    using receive_drop [OF q1 assms(7,8)] unfolding assms(15) by blast
  let ?q2 = "ScheduleAsyncTask (DropEntityAt (FromISOString w when) eid t f p) (?q1\<lparr>handled := l2\<rparr>)"
  have "async_tasks ?q2 = [DropEntityAt (FromISOString w when) eid t f p]"
    using assms(13) by (simp add: ScheduleAsyncTask_def)
  then obtain s where s: "async_step w env res ?q2 = Some (execDropOrderImpl eid t f s)"
    "entities s = entities ?q2" "containers s = containers ?q2" "server_mode s = server_mode ?q2" "top_tasks s = top_tasks ?q2"
    using drop_task_run [OF assms(14)] by blast
  let ?e = "e\<lparr>et_owner := t, et_quarantine := False\<rparr>"
  have ent: "map_of (entities s) eid = Some ?e" using s(2) assms(9) by (simp add: ScheduleAsyncTask_def take_effect_entities)
  have cont: "map_of (containers s) c =
     map_option (\<lambda>k. if c = t \<and> server_mode q then k\<lparr>ct_owned := oset_insert eid (ct_owned k)\<rparr> else k)
       (map_of (containers q) c)" for c
    using s(3) by (simp add: ScheduleAsyncTask_def take_effect_containers)
  have known: "ContainerExists t s" using cont [of t] assms(11) by (simp add: ContainerExists_def hcontains_def)
  have id: "et_id ?e = eid" using assms(10) by simp
  note kept = execDropOrderImpl_known [OF ent id known assms(8)]
  have "top_tasks s = top_tasks q"
    using s(5) assms(9) by (simp add: ScheduleAsyncTask_def take_effect_tasks IsEntityRegistered_def hcontains_def)
  then show ?thesis
    using l(1) l2 s(1,4) ent assms(8,11,12) by (auto simp: kept cont ScheduleAsyncTask_def)
qed

theorem authority_moved_witness:
  "\<exists>q1 q2 q3.
    receive_request demo_world (\<lambda>_ s. s) (tp_rpc ''s/'' ''t'')
      (take_request demo_world 0 (order_args ''a'' ''t'' ''c'' ''p'' ''now'' ''{}'' JNull))
      (container_initRPCs ''t'' ((demo_client ''c'')\<lparr>entities := [(''a'', new_entity ''a'' ''c'')],
         containers := [(''c'', new_container demo_world ''c''), (''t'', new_container demo_world ''t'')]\<rparr>)) = Some q1 \<and>
    receive_request demo_world (\<lambda>_ s. s) (tp_rpc ''s/'' ''c'')
      (drop_request demo_world 1 (order_args ''a'' ''t'' ''c'' ''p'' ''now'' ''{}'' JNull)) q1 = Some q2 \<and>
    async_step demo_world (\<lambda>_ s. s) (\<lambda>_. SubOk) q2 = Some q3 \<and>
    map_option et_owner (map_of (entities q3) ''a'') = Some ''t''"
proof -
  let ?p = "(demo_client ''c'')\<lparr>entities := [(''a'', new_entity ''a'' ''c'')],
         containers := [(''c'', new_container demo_world ''c''), (''t'', new_container demo_world ''t'')]\<rparr>"
  let ?q = "container_initRPCs ''t'' ?p"
  have none: "lookup_method ?p (tp_rpc ''s/'' ''t'') n = None" for n
    by (simp add: demo_client_def container_initRPCs_def container_methods_def lookup_register lookup_method_def
        new_node_def rpc.extend_def new_rpc_def register_method_def topic_defs)
  have t: "lookup_method ?q (tp_rpc (topic_scope ?q) ''t'') (rpc_name ''Container'' ''TakeAuthority'') =
      Some (ContainerMethod ''t'' ''TakeAuthority'')"
    using container_initRPCs_lookup [of ?p "''t''" "''TakeAuthority''"] none by (simp add: container_methods_def)
  have "lookup_method ?p (tp_rpc ''s/'' ''c'') (rpc_name ''Container'' ''DropAuthority'') =
      Some (ContainerMethod ''c'' ''DropAuthority'')"
    using demo_client_bound [of "''DropAuthority''" "''c''"] by (simp add: container_methods_def lookup_method_def)
  then have c: "lookup_method ?q (tp_rpc (topic_scope ?q) ''c'') (rpc_name ''Container'' ''DropAuthority'') =
      Some (ContainerMethod ''c'' ''DropAuthority'')"
    by (simp add: container_initRPCs_def container_methods_def lookup_register topic_defs)
  have q: "lru_inv (handled ?q)" "\<not> remembers ?q (gen_uuid demo_world 0)" "\<not> remembers ?q (gen_uuid demo_world (Suc 0))"
    "gen_uuid demo_world 0 \<noteq> gen_uuid demo_world (Suc 0)" "''c'' \<noteq> ''t''"
    "map_of (entities ?q) ''a'' = Some (new_entity ''a'' ''c'')" "et_id (new_entity ''a'' ''c'') = ''a''"
    "map_of (containers ?q) ''t'' = Some (new_container demo_world ''t'')"
    "map_of (containers ?q) ''c'' = Some (new_container demo_world ''c'')" "async_tasks ?q = []" "quiet (\<lambda>_ s. s)"
    by (simp_all add: remembers_def quiet_def new_entity_def) (simp_all add: demo_world_def)
  from authority_moved [OF q(1-4) t c demo_roundtrip q(5-11) refl, of "\<lambda>_ s. s" "''p''" "''now''" "''{}''" JNull "\<lambda>_. SubOk"]
  show ?thesis by (auto simp: new_entity_def)
qed

section \<open>The streams of a subscription\<close>

fun io_run :: "world \<Rightarrow> environment \<Rightarrow> (nat \<Rightarrow> attempt) \<Rightarrow> nat \<Rightarrow> node \<Rightarrow> node option" where
  "io_run w env res 0 s = Some s"
| "io_run w env res (Suc n) s = (case io_step w env res s of None \<Rightarrow> None | Some s1 \<Rightarrow> io_run w env res n s1)"

text \<open>The streams of a container after those of the topics \<open>ts\<close> were opened.\<close>

definition opened :: "string list \<Rightarrow> (string \<times> bool) list \<Rightarrow> (string \<times> bool) list" where
  "opened ts rs = map (\<lambda>r. (fst r, snd r \<or> fst r \<in> set ts)) rs"

lemma io_run_opens:
  assumes "reader_subscribe res = Some (True, m)" "io_tasks s = map (OpenReader cid) ts"
    and "map_of (containers s) cid = Some c"
  shows "\<exists>s'. io_run w env res (length ts) s = Some s' \<and> io_tasks s' = [] \<and> async_tasks s' = async_tasks s \<and>
    user_calls s' = user_calls s \<and>
    map_of (containers s') cid = Some (c\<lparr>ct_readers := opened ts (ct_readers c)\<rparr>)"
  using assms(2,3)
proof (induction ts arbitrary: s c)
  case Nil
  have "opened [] rs = rs" for rs by (induction rs) (auto simp: opened_def)
  with Nil show ?case by simp
next
  case (Cons t ts)
  let ?f = "\<lambda>c. c\<lparr>ct_readers := map (\<lambda>r. if fst r = t then (t, True) else r) (ct_readers c)\<rparr>"
  let ?s1 = "update_container cid ?f (s\<lparr>io_tasks := map (OpenReader cid) ts\<rparr>)"
  have step: "io_step w env res s = Some ?s1"
    using Cons.prems assms(1)
    by (simp add: io_step_def scheduler_run_def open_reader_def modify_object_def ContainerExists_def hcontains_def)
  have c1: "map_of (containers ?s1) cid = Some (?f c)" using Cons.prems(2) by simp
  have "io_tasks ?s1 = map (OpenReader cid) ts" by simp
  from Cons.IH [OF this c1] obtain s' where s': "io_run w env res (length ts) ?s1 = Some s'" "io_tasks s' = []"
    "async_tasks s' = async_tasks ?s1" "user_calls s' = user_calls ?s1"
    "map_of (containers s') cid = Some ((?f c)\<lparr>ct_readers := opened ts (ct_readers (?f c))\<rparr>)" by blast
  have "opened ts (ct_readers (?f c)) = opened (t # ts) (ct_readers c)" by (auto simp: opened_def)
  with s' step show ?case by simp
qed



section \<open>Deleting an entity of another peer\<close>

text \<open>A delete order for an entity that the server does not own is not sent, but it leaves the
  server's copy invalid and in quarantine: a second order and every later transfer of the
  authority over the entity do nothing.\<close>
lemma delete_order_poisons:
  assumes "map_of (entities s) eid = Some e" "et_valid e" "\<not> ContainerIsLocallyOwned (et_owner e) s"
  shows "\<exists>s'. SendEntityDeleteOrder eid s = s' \<and> io_tasks s' = io_tasks s \<and> wire s' = wire s \<and>
    \<not> IsEntityValid eid s' \<and> IsEntityQuarantined eid s' \<and> IsEntityRegistered eid s' \<and>
    SendEntityDeleteOrder eid s' = s' \<and> TransferAuthority w eid t payload ign s' = Ret () s'"
proof -
  define s' where "s' = update_entity eid (\<lambda>e. e\<lparr>et_quarantine := True, et_valid := False\<rparr>) s"
  have order: "SendEntityDeleteOrder eid s = s'"
    using assms
    by (simp add: SendEntityDeleteOrder_def ContainerIsLocallyOwned_def Let_def update_entity_def s'_def split: option.splits)
  have e: "map_of (entities s') eid = Some (e\<lparr>et_quarantine := True, et_valid := False\<rparr>)"
    using assms(1) by (simp add: s'_def)
  then have "SendEntityDeleteOrder eid s' = s'" "TransferAuthority w eid t payload ign s' = Ret () s'"
    by (simp_all add: SendEntityDeleteOrder_def TransferAuthority_def transferable_def)
  moreover have "io_tasks s' = io_tasks s" "wire s' = wire s" by (simp_all add: s'_def update_entity_def)
  ultimately show ?thesis
    using order e by (simp add: IsEntityValid_def IsEntityQuarantined_def IsEntityRegistered_def hcontains_def)
qed

lemma delete_order_poisons_witness:
  "\<not> IsEntityValid ''a'' (SendEntityDeleteOrder ''a'' demo_server) \<and>
   io_tasks (SendEntityDeleteOrder ''a'' demo_server) = io_tasks demo_server"
proof -
  have "map_of (entities demo_server) ''a'' = Some (new_entity ''a'' ''c'')" "et_valid (new_entity ''a'' ''c'')"
    "\<not> ContainerIsLocallyOwned (et_owner (new_entity ''a'' ''c'')) demo_server"
    by (simp_all add: demo_server_def new_entity_def ContainerIsLocallyOwned_def)
      (simp add: new_node_def rpc.extend_def)
  from delete_order_poisons [OF this, of demo_world "''d''" "''{}''" False] show ?thesis by blast
qed

end
