(* ===== verification/Invariant.thy ===== *)
theory Invariant
  imports Tasks
begin

text \<open>
  The well-formedness of the state of a node, and its preservation by every operation of the
  program, on every branch and also when the operation throws: the keys of the registries are
  distinct and are the ids of their objects, the ordered sets are sorted, the bookkeeping of
  the remote calls is consistent, the properties were read from the clock, histories and
  queues have the sizes and shapes that their readers expect, and what a peer owns it owns as
  a server. A call that waits needs that the other threads keep the invariant.
\<close>

section \<open>Well-formed parts\<close>

definition entity_ok :: "string \<Rightarrow> entity \<Rightarrow> bool" where
  "entity_ok eid e \<longleftrightarrow> et_id e = eid \<and>
     (\<forall>name b. map_of (et_inputs e) name = Some b \<longrightarrow> b \<noteq> [] \<and> length b \<le> input_capacity)"

text \<open>
  The reference count of a registered container is two, whoever holds it. What a peer owns it
  has created, under an id of its own generator, and it writes on the container's own topic.
\<close>

definition container_ok :: "world \<Rightarrow> bool \<Rightarrow> string \<Rightarrow> container \<Rightarrow> bool" where
  "container_ok w server cid c \<longleftrightarrow> ct_id c = cid \<and> ct_refs c = 2 \<and> sorted_wrt (<) (ct_owned c) \<and>
     (ct_replws c \<noteq> None \<longleftrightarrow> ct_local c) \<and> (ct_local c \<longrightarrow> server \<and> cid \<in> range (gen_uuid w)) \<and>
     (\<forall>t. ct_replws c = Some t \<longrightarrow> (\<exists>ds. t = tp_repl ds cid))"

text \<open>The tuples of each named queue have the type at which the engine pops them.\<close>

definition named_ok :: "named_queues \<Rightarrow> bool" where
  "named_ok qs \<longleftrightarrow>
     (\<forall>args \<in> set (waiting ''CMIInstantiate'' qs). length args = 4) \<and>
     (\<forall>args \<in> set (waiting ''proxyTakeAuthority'' qs). length args = 3)"

definition grape_ok :: "string \<Rightarrow> grape \<Rightarrow> bool" where
  "grape_ok gid g \<longleftrightarrow> gr_id g \<in> {[], gid} \<and> sorted_wrt (<) (gr_subs g) \<and> sorted_wrt (<) (gr_proxy g) \<and>
     sorted_wrt (<) (hkeys (gr_owned g)) \<and> named_ok (gr_named g)"

definition client_ok :: "string \<Rightarrow> client_data \<Rightarrow> bool" where
  "client_ok cl c \<longleftrightarrow> cd_id c = cl \<and> sorted_wrt (<) (cd_subs c)"

definition ghost_ok :: "world \<Rightarrow> ghost \<Rightarrow> bool" where
  "ghost_ok w g \<longleftrightarrow> objects_ok (\<lambda>_ ps. distinct (hkeys ps)) (ett_props g) \<and>
     objects_ok (\<lambda>_ j. wf_update j) (next_update g) \<and> (strict_mono (hr_clock w) \<longrightarrow> ghost_times w g)"

text \<open>
  The messages that a peer sends. A call has the arguments that the declaration of its method
  asks for, or more; an answer without error has a value of the result type. A delegate is
  registered under the name of its method.
\<close>

definition is_text :: "json \<Rightarrow> bool" where
  "is_text j = (case j of JStr _ \<Rightarrow> True | _ \<Rightarrow> False)"

lemma is_text_simps [simp]: "is_text (JStr x)" "list_all is_text (map JStr xs)"
  by (simp_all add: is_text_def list_all_iff)

definition typed_call :: "string \<Rightarrow> json list \<Rightarrow> bool" where
  "typed_call name args = (case method_type name of None \<Rightarrow> False | Some (n, _) \<Rightarrow> n \<le> length args \<and> list_all is_text args)"

definition fits :: "result_type \<Rightarrow> json \<Rightarrow> bool" where
  "fits t j =
     (case t of
        VoidResult \<Rightarrow> is_null j
      | BoolResult \<Rightarrow> \<not> isl (de_bool j)
      | StringResult \<Rightarrow> \<not> isl (json_string j)
      | ListResult \<Rightarrow> \<not> isl (de_vector j)
      | MapResult \<Rightarrow> \<not> isl (de_map j))"

definition call_ok :: "world \<Rightarrow> rpc_request \<Rightarrow> bool" where
  "call_ok w req \<longleftrightarrow> rq_responds_to req = [] \<and>
     (\<exists>args. typed_call (rq_name req) args \<and> rq_args req = jdump w (serialize_args args))"

definition response_ok :: "world \<Rightarrow> rpc_request \<Rightarrow> bool" where
  "response_ok w req \<longleftrightarrow> rq_responds_to req = rq_rpc_id req \<and>
     (rq_error req \<or> (\<exists>n t v. method_type (rq_name req) = Some (n, t) \<and> fits t v \<and> rq_args req = jdump w v))"

definition wire_ok :: "world \<Rightarrow> (string \<times> rpc_request) list \<Rightarrow> bool" where
  "wire_ok w wr \<longleftrightarrow> (\<forall>m \<in> set wr. call_ok w (snd m) \<or> response_ok w (snd m))"

definition methods_ok :: "(string, (string, delegate) hmap) hmap \<Rightarrow> bool" where
  "methods_ok m \<longleftrightarrow> (\<forall>scope ms name d. map_of m scope = Some ms \<longrightarrow> map_of ms name = Some d \<longrightarrow>
     delegate_name d = name \<and> method_type name \<noteq> None)"

definition stub_ok :: "world \<Rightarrow> (delegate, 'm) rpc_scheme \<Rightarrow> bool" where
  "stub_ok w s \<longleftrightarrow> lru_inv (handled s) \<and> promises_inv s \<and> wire_ok w (wire s) \<and> methods_ok (methods s)"

text \<open>A packet goes out on the topic of a container that the peer has created.\<close>

definition packets_ok :: "world \<Rightarrow> (string \<times> string) list \<Rightarrow> bool" where
  "packets_ok w ps \<longleftrightarrow> (\<forall>m \<in> set ps. \<exists>ds cid. cid \<in> range (gen_uuid w) \<and> fst m = tp_repl ds cid)"

definition node_inv :: "world \<Rightarrow> node \<Rightarrow> bool" where
  "node_inv w s \<longleftrightarrow> stub_ok w s \<and> objects_ok entity_ok (entities s) \<and>
     objects_ok (container_ok w (server_mode s)) (containers s) \<and> objects_ok grape_ok (grapes s) \<and>
     objects_ok client_ok (clients s) \<and> ghost_ok w (ghosts s) \<and> sorted_wrt (<) (client_subs s) \<and>
     (\<not> server_mode s \<longrightarrow> packets s = []) \<and> packets_ok w (packets s)"

text \<open>The invariant after an operation, which may have thrown.\<close>

definition oinv :: "world \<Rightarrow> (node, 'a) outcome \<Rightarrow> bool" where
  "oinv w r \<longleftrightarrow> node_inv w (ostate r)"

definition env_ok :: "world \<Rightarrow> environment \<Rightarrow> bool" where
  "env_ok w env \<longleftrightarrow> (\<forall>k s. node_inv w s \<longrightarrow> node_inv w (env k s))"

lemma env_okD: "env_ok w env \<Longrightarrow> node_inv w s \<Longrightarrow> node_inv w (env k s)"
  by (simp add: env_ok_def)

lemma oinv_simps [simp]: "oinv w (Ret a s) = node_inv w s" "oinv w (Raise e s) = node_inv w s"
  by (simp_all add: oinv_def)

lemma oinv_bind: "oinv w m \<Longrightarrow> (\<And>a s. node_inv w s \<Longrightarrow> oinv w (f a s)) \<Longrightarrow> oinv w (obind m f)"
  by (cases m) simp_all

lemma oinv_catch: "oinv w m \<Longrightarrow> (\<And>e s. node_inv w s \<Longrightarrow> oinv w (h e s)) \<Longrightarrow> oinv w (ocatch m h)"
  by (cases m) simp_all

lemma oinv_fold:
  "node_inv w s \<Longrightarrow> (\<And>x s. node_inv w s \<Longrightarrow> oinv w (f x s)) \<Longrightarrow> oinv w (ofold f xs s)"
  unfolding oinv_def by (rule ofold_invariant [where P = "node_inv w"]) auto

section \<open>Updates of one field\<close>

text \<open>Fields on which the invariant does not depend.\<close>

lemma node_inv_frame [simp]:
  "node_inv w (s\<lparr>topic_scope := x1\<rparr>) = node_inv w s" "node_inv w (s\<lparr>peer_uuid := x2\<rparr>) = node_inv w s"
  "node_inv w (s\<lparr>consumers := x4\<rparr>) = node_inv w s"
  "node_inv w (s\<lparr>callee_pool := x5\<rparr>) = node_inv w s" "node_inv w (s\<lparr>caller_pool := x6\<rparr>) = node_inv w s"
  "node_inv w (s\<lparr>sys_reads := x8\<rparr>) = node_inv w s"
  "node_inv w (s\<lparr>uuid_reads := x9\<rparr>) = node_inv w s" "node_inv w (s\<lparr>errors := x10\<rparr>) = node_inv w s"
  "node_inv w (s\<lparr>fail_calls := x11\<rparr>) = node_inv w s" "node_inv w (s\<lparr>assigned_grape := x12\<rparr>) = node_inv w s"
  "node_inv w (s\<lparr>peer_rpcs := x13\<rparr>) = node_inv w s" "node_inv w (s\<lparr>global_rpcs := x14\<rparr>) = node_inv w s"
  "node_inv w (s\<lparr>top_tasks := x15\<rparr>) = node_inv w s" "node_inv w (s\<lparr>async_tasks := x16\<rparr>) = node_inv w s"
  "node_inv w (s\<lparr>io_tasks := x17\<rparr>) = node_inv w s" "node_inv w (s\<lparr>trash := x18\<rparr>) = node_inv w s"
  "node_inv w (s\<lparr>hooks_set := x19\<rparr>) = node_inv w s" "node_inv w (s\<lparr>hook_calls := x20\<rparr>) = node_inv w s"
  "node_inv w (s\<lparr>user_calls := x21\<rparr>) = node_inv w s" "node_inv w (s\<lparr>rpc_calls := x22\<rparr>) = node_inv w s"
  "node_inv w (s\<lparr>inputs_sent := x23\<rparr>) = node_inv w s" "node_inv w (s\<lparr>tick_value := x24\<rparr>) = node_inv w s"
  "node_inv w (s\<lparr>tick_local := x25\<rparr>) = node_inv w s"
  by (simp_all add: node_inv_def stub_ok_def promises_inv_def)

lemma node_inv_update:
  assumes "node_inv w s"
  shows "objects_ok entity_ok es \<Longrightarrow> node_inv w (s\<lparr>entities := es\<rparr>)"
    and "objects_ok (container_ok w (server_mode s)) cs \<Longrightarrow> node_inv w (s\<lparr>containers := cs\<rparr>)"
    and "objects_ok grape_ok gs \<Longrightarrow> node_inv w (s\<lparr>grapes := gs\<rparr>)"
    and "objects_ok client_ok cls \<Longrightarrow> node_inv w (s\<lparr>clients := cls\<rparr>)"
    and "ghost_ok w g \<Longrightarrow> node_inv w (s\<lparr>ghosts := g\<rparr>)"
    and "sorted_wrt (<) subs \<Longrightarrow> node_inv w (s\<lparr>client_subs := subs\<rparr>)"
    and "(server_mode s \<or> ps = []) \<Longrightarrow> packets_ok w ps \<Longrightarrow> node_inv w (s\<lparr>packets := ps\<rparr>)"
    and "lru_inv l \<Longrightarrow> node_inv w (s\<lparr>handled := l\<rparr>)"
    and "wire_ok w wr \<Longrightarrow> node_inv w (s\<lparr>wire := wr\<rparr>)"
    and "methods_ok ms \<Longrightarrow> node_inv w (s\<lparr>methods := ms\<rparr>)"
  using assms by (auto simp: node_inv_def stub_ok_def promises_inv_def)

lemma node_invD:
  assumes "node_inv w s"
  shows "objects_ok entity_ok (entities s)" "objects_ok (container_ok w (server_mode s)) (containers s)"
    "objects_ok grape_ok (grapes s)" "objects_ok client_ok (clients s)" "ghost_ok w (ghosts s)"
    "sorted_wrt (<) (client_subs s)" "stub_ok w s"
  using assms by (simp_all add: node_inv_def)

text \<open>\<open>RunWithLock\<close> with a function that keeps the object well-formed.\<close>

lemma update_entity_inv:
  "node_inv w s \<Longrightarrow> (\<And>e. map_of (entities s) eid = Some e \<Longrightarrow> entity_ok eid e \<Longrightarrow> entity_ok eid (f e)) \<Longrightarrow>
    node_inv w (update_entity eid f s)"
  by (simp add: update_entity_def node_inv_update(1) objects_ok_hmodify node_invD)

lemma update_container_inv:
  "node_inv w s \<Longrightarrow>
    (\<And>c. map_of (containers s) cid = Some c \<Longrightarrow> container_ok w (server_mode s) cid c \<Longrightarrow> container_ok w (server_mode s) cid (f c)) \<Longrightarrow>
    node_inv w (update_container cid f s)"
  by (simp add: update_container_def node_inv_update(2) objects_ok_hmodify node_invD)

lemma update_grape_inv:
  "node_inv w s \<Longrightarrow> (\<And>g. map_of (grapes s) gid = Some g \<Longrightarrow> grape_ok gid g \<Longrightarrow> grape_ok gid (f g)) \<Longrightarrow>
    node_inv w (update_grape gid f s)"
  by (simp add: update_grape_def node_inv_update(3) objects_ok_hmodify node_invD)

lemma update_client_inv:
  "node_inv w s \<Longrightarrow> (\<And>c. map_of (clients s) cl = Some c \<Longrightarrow> client_ok cl c \<Longrightarrow> client_ok cl (f c)) \<Longrightarrow>
    node_inv w (update_client cl f s)"
  by (simp add: update_client_def node_inv_update(4) objects_ok_hmodify node_invD)

section \<open>Remote calls\<close>

named_theorems keeps \<open>operations that keep the invariant\<close>

text \<open>An operation of the stubs that keeps their own invariant and nothing else.\<close>

lemma node_inv_stub:
  fixes s s' :: node
  assumes "node_inv w s" "rpc.more s' = rpc.more s" "stub_ok w s'"
  shows "node_inv w s'"
  using assms(1,3) node_more [OF assms(2)] by (simp add: node_inv_def)

lemma methods_ok_lookup:
  "methods_ok (methods s) \<longleftrightarrow>
     (\<forall>scope name d. lookup_method s scope name = Some d \<longrightarrow> delegate_name d = name \<and> method_type name \<noteq> None)"
proof -
  have "lookup_method s scope name = Some d \<longleftrightarrow> (\<exists>ms. map_of (methods s) scope = Some ms \<and> map_of ms name = Some d)"
    for scope name d by (simp add: lookup_method_def split: option.split)
  then show ?thesis unfolding methods_ok_def by blast
qed

lemma methods_ok_change:
  assumes "methods_ok (methods s)"
  shows "delegate_name d = name \<Longrightarrow> method_type name \<noteq> None \<Longrightarrow> methods_ok (methods (register_method topic name d s))"
    and "methods_ok (methods (unregister_method topic name s))"
  using assms unfolding methods_ok_lookup lookup_register lookup_unregister by (metis option.inject, metis option.distinct(1))

lemma small_steps_inv [keeps]:
  "node_inv w s \<Longrightarrow> node_inv w (log_error msg s)"
  "node_inv w s \<Longrightarrow> node_inv w (snd (read_sys w s))"
  "node_inv w s \<Longrightarrow> node_inv w (snd (GenUUID w s))"
  "node_inv w s \<Longrightarrow> node_inv w (push_top t s)"
  "node_inv w s \<Longrightarrow> node_inv w (ScheduleAsyncTask t s)"
  "node_inv w s \<Longrightarrow> node_inv w (ScheduleAsyncIOTask t s)"
  "node_inv w s \<Longrightarrow> node_inv w (run_callback f s)"
  "node_inv w s \<Longrightarrow> node_inv w (Handler name args m s)"
  "node_inv w s \<Longrightarrow> node_inv w (snd (GetUnifiedTime w s))"
  "node_inv w s \<Longrightarrow> node_inv w (updateCurrentTime w t' s)"
  by (simp_all add: log_error_def read_sys_def GenUUID_def push_top_def ScheduleAsyncTask_def ScheduleAsyncIOTask_def
      run_callback_def Handler_def GetUnifiedTime_def updateCurrentTime_def
      split: callback.split option.split)

lemma methods_inv [keeps]:
  assumes "node_inv w s"
  shows "delegate_name d = name \<Longrightarrow> method_type name \<noteq> None \<Longrightarrow> node_inv w (register_method topic name d s)"
    and "node_inv w (unregister_method topic name s)"
proof -
  have ok: "lru_inv (handled s)" "promises_inv s" "wire_ok w (wire s)" "methods_ok (methods s)"
    using node_invD(7) [OF assms] by (simp_all add: stub_ok_def)
  show "node_inv w (unregister_method topic name s)"
    by (rule node_inv_stub [OF assms], simp add: unregister_method_def)
      (use ok methods_ok_change(2) [OF ok(4), of topic name] in \<open>simp add: stub_ok_def promises_inv_def unregister_method_def\<close>)
  assume d: "delegate_name d = name" "method_type name \<noteq> None"
  have "rpc.more (register_method topic name d s) = rpc.more s \<and> handled (register_method topic name d s) = handled s \<and>
      promises (register_method topic name d s) = promises s \<and> cells (register_method topic name d s) = cells s \<and>
      wire (register_method topic name d s) = wire s"
    by (simp add: register_method_def split: option.split)
  then show "node_inv w (register_method topic name d s)"
    by (intro node_inv_stub [OF assms])
      (use ok methods_ok_change(1) [OF ok(4) d, of topic] in \<open>simp_all add: stub_ok_def promises_inv_def\<close>)
qed

lemma wire_ok_write:
  assumes "wire_ok w wr" "call_ok w req \<or> response_ok w req" "pool_write w t topic req pool wr = (ok, t', pool', wr')"
  shows "wire_ok w wr'"
  using assms pool_write_wire [OF assms(3)] by (auto simp: wire_ok_def)

lemma write_inv [keeps]:
  assumes "node_inv w s" "call_ok w req \<or> response_ok w req"
  shows "node_inv w (snd (caller_write w topic req s))" "node_inv w (snd (callee_write w topic req s))"
proof -
  have "wire_ok w (wire s)" using node_invD(7) [OF assms(1)] by (simp add: stub_ok_def)
  then have "wire_ok w wr'" if "pool_write w t topic req pool (wire s) = (ok, t', pool', wr')" for t pool ok t' pool' wr'
    using wire_ok_write [OF _ assms(2) that] by simp
  then show "node_inv w (snd (caller_write w topic req s))" "node_inv w (snd (callee_write w topic req s))"
    using assms(1) by (auto simp: caller_write_def callee_write_def node_inv_update(9) split: prod.split)
qed

lemma call_request_ok:
  "typed_call name args \<Longrightarrow> call_ok w (new_request\<lparr>rq_name := name, rq_args := jdump w (serialize_args args),
     rq_response_topic := topic, rq_rpc_id := i\<rparr>)"
  by (auto simp: call_ok_def new_request_def)

lemma stub_inv [keeps]:
  assumes "node_inv w s"
  shows "typed_call name args \<Longrightarrow> node_inv w (snd (rpc_call w scope name i args s))"
    and "node_inv w (solve_promise i j s)" and "node_inv w (forget_promise i s)"
proof -
  have ok: "lru_inv (handled s)" "promises_inv s" "wire_ok w (wire s)" "methods_ok (methods s)"
    using node_invD(7) [OF assms] by (simp_all add: stub_ok_def)
  show "node_inv w (snd (rpc_call w scope name i args s))" if "typed_call name args"
  proof (rule node_inv_stub [OF assms])
    have "wire_ok w (wire (snd (rpc_call w scope name i args s)))"
      unfolding rpc_call_def Let_def caller_write_def
      using wire_ok_write [OF ok(3) disjI1 [OF call_request_ok [OF that]]] by (auto split: prod.split)
    then show "stub_ok w (snd (rpc_call w scope name i args s))"
      using ok by (simp add: stub_ok_def promises_inv_call)
  qed (simp add: rpc_call_def Let_def)
  show "node_inv w (solve_promise i j s)"
    by (rule node_inv_stub [OF assms])
      (simp_all add: stub_ok_def ok promises_inv_solve, simp_all add: solve_promise_def ok split: option.split)
  show "node_inv w (forget_promise i s)"
    by (rule node_inv_stub [OF assms])
      (simp_all add: stub_ok_def ok promises_inv_forget, simp_all add: forget_promise_def ok split: option.split)
qed

lemma policy_inv [keeps]: "node_inv w s \<Longrightarrow> oinv w (run_fail_policy p e s)"
  by (cases "(p, e, s)" rule: run_fail_policy.cases) (simp_all add: keeps)

lemma fire_inv [keeps]:
  assumes "node_inv w s" "typed_call name args"
  shows "oinv w (builder_fire w t name args s)"
proof -
  have "node_inv w (snd (fire_and_forget w (tp_scope t) name args s))"
    using assms call_request_ok [OF assms(2)] by (simp add: fire_and_forget_def case_prod_unfold Let_def keeps)
  then show ?thesis by (simp add: builder_fire_def case_prod_unfold Let_def keeps split: option.split)
qed

lemma call_impl_inv:
  assumes "env_ok w env" "node_inv w s" "typed_call name args"
  shows "oinv w (call_impl w env de name i co uuid args s)"
  using assms(2)
proof (induction "nat (co_retry co)" arbitrary: i co s rule: less_induct)
  case less
  let ?c = "rpc_call w (co_scope co) name uuid args s"
  have s2: "node_inv w (env i (snd ?c))" using less.prems by (simp add: assms(3) env_okD [OF assms(1)] keeps)
  have again: "co_retry co > 0 \<Longrightarrow> oinv w (call_impl w env de name (Suc i) (co\<lparr>co_retry := co_retry co - 1\<rparr>) uuid args (env i (snd ?c)))"
    by (rule less.hyps [OF _ s2]) simp
  show ?case
    by (subst call_impl_unfold)
      (auto simp: Let_def case_prod_unfold less.prems s2 again intro!: oinv_bind keeps split: awaited.split)
qed

lemma builder_call_inv [keeps]:
  "env_ok w env \<Longrightarrow> node_inv w s \<Longrightarrow> typed_call name args \<Longrightarrow> oinv w (builder_call w env de name co args s)"
  by (simp add: builder_call_def case_prod_unfold Let_def call_impl_inv keeps)

lemma run_async_call_inv [keeps]:
  assumes "env_ok w env" "node_inv w s" "typed_call name args" "\<And>r s. node_inv w s \<Longrightarrow> oinv w (f r s)"
  shows "oinv w (run_async_call w env de name co f args s)"
  unfolding run_async_call_def
  by (rule oinv_bind) (auto intro: builder_call_inv assms split: call_result.split)

lemma call_hook_inv [keeps]: "node_inv w s \<Longrightarrow> oinv w (call_hook h args s)"
  by (simp add: call_hook_def)

lemma fold_inv: "node_inv w s \<Longrightarrow> (\<And>x s. x \<in> set xs \<Longrightarrow> node_inv w s \<Longrightarrow> node_inv w (f x s)) \<Longrightarrow> node_inv w (fold f xs s)"
  by (induction xs arbitrary: s) simp_all

text \<open>A request, when every handler keeps the invariant.\<close>

lemma handle_response_inv [keeps]: "node_inv w s \<Longrightarrow> node_inv w (handle_response w req s)"
  by (simp add: handle_response_def keeps split: option.split)

text \<open>What a handler has to keep: the invariant, and the result type of its method.\<close>

definition handler_ok :: "world \<Rightarrow> (delegate \<Rightarrow> json \<Rightarrow> json op) \<Rightarrow> bool" where
  "handler_ok w exec \<longleftrightarrow> (\<forall>d args s. node_inv w s \<longrightarrow> oinv w (exec d args s) \<and>
     (\<forall>n t v s'. method_type (delegate_name d) = Some (n, t) \<longrightarrow> exec d args s = Ret v s' \<longrightarrow> fits t v))"

lemma run_handler_inv:
  assumes "node_inv w s" "handler_ok w exec" "map_of (methods s) scope = Some ms"
    and "run_handler w exec ms req s = (response, err, s1)"
  shows "node_inv w s1" "response_ok w (response_request w req response err)"
proof -
  have "node_inv w s1 \<and> (\<not> err \<longrightarrow> (\<exists>n t. method_type (rq_name req) = Some (n, t) \<and> fits t response))"
  proof (cases "map_of ms (rq_name req)")
    case None
    then show ?thesis using assms(1,4) by (auto simp: run_handler_def)
  next
    case (Some d)
    have "methods_ok (methods s)" using node_invD(7) [OF assms(1)] by (simp add: stub_ok_def)
    then have d: "delegate_name d = rq_name req" "method_type (rq_name req) \<noteq> None"
      using assms(3) Some by (auto simp: methods_ok_def)
    show ?thesis
    proof (cases "jparse w (rq_args req)")
      case None
      then show ?thesis using Some assms(1,4) by (auto simp: run_handler_def)
    next
      case (Some args)
      have "handler_response (exec d args s) = (response, err, s1)"
        using Some \<open>map_of ms (rq_name req) = Some d\<close> assms(4) by (simp add: run_handler_def)
      moreover have "oinv w (exec d args s)" using assms(1,2) by (simp add: handler_ok_def)
      moreover have "exec d args s = Ret v s' \<Longrightarrow> \<exists>n t. method_type (rq_name req) = Some (n, t) \<and> fits t v" for v s'
        using assms(1,2) d unfolding handler_ok_def by (metis not_None_eq surj_pair)
      ultimately show ?thesis
        by (cases "exec d args s" rule: handler_response.cases) auto
    qed
  qed
  then show "node_inv w s1" "response_ok w (response_request w req response err)"
    by (auto simp: response_ok_def response_request_def new_request_def)
qed

lemma handle_call_inv:
  assumes "node_inv w s" "handler_ok w exec"
  shows "node_inv w (handle_call w exec scope req s)"
  using assms(1) run_handler_inv [OF assms]
  by (auto simp: handle_call_def keeps split: option.split prod.split)

lemma try_handle_inv:
  assumes "node_inv w s" "handler_ok w exec"
  shows "node_inv w (try_handle_request w exec scope req s)"
proof (cases "remembers s (rq_rpc_id req)")
  case True
  then show ?thesis using assms(1) node_invD(7) [OF assms(1)] by (simp add: try_handle_seen stub_ok_def)
next
  case False
  have "lru_inv (handled s)" using node_invD(7) [OF assms(1)] by (simp add: stub_ok_def)
  then obtain l where l: "lru_inv l" "try_handle_request w exec scope req s =
      (if rq_responds_to req \<noteq> [] then handle_response w req (s\<lparr>handled := l\<rparr>)
       else handle_call w exec scope req (s\<lparr>handled := l\<rparr>))"
    using try_handle_new [OF _ False] by metis
  have "node_inv w (s\<lparr>handled := l\<rparr>)" by (rule node_inv_update(8) [OF assms(1) l(1)])
  then show ?thesis by (simp add: l(2) handle_call_inv assms(2) keeps)
qed

section \<open>Properties of entities\<close>

lemma ghost_ok_with_props:
  assumes "ghost_ok w g"
    and "\<And>ps t. distinct (hkeys ps) \<Longrightarrow> distinct (hkeys (fst (snd (f (ps, t)))))"
    and "\<And>ps t. strict_mono (hr_clock w) \<Longrightarrow> props_times (hr_clock w t) ps \<Longrightarrow>
      t \<le> snd (snd (f (ps, t))) \<and> props_times (hr_clock w (snd (snd (f (ps, t))))) (fst (snd (f (ps, t))))"
  shows "ghost_ok w (snd (with_props eid f g))"
proof -
  have "distinct (hkeys (props_of eid g))"
    using assms(1) by (auto simp: ghost_ok_def props_of_def dest: objects_okD split: option.split)
  then have "distinct (hkeys (fst (snd (f (props_of eid g, hr_reads g)))))" by (rule assms(2))
  then have "objects_ok (\<lambda>_ ps. distinct (hkeys ps)) (ett_props (snd (with_props eid f g)))"
    using assms(1) by (simp add: ghost_ok_def with_props_def case_prod_unfold Let_def objects_ok_hput)
  moreover have "strict_mono (hr_clock w) \<Longrightarrow> ghost_times w (snd (with_props eid f g))"
    using assms(1,3) by (intro with_props_times) (auto simp: ghost_ok_def)
  ultimately show ?thesis using assms(1) by (simp add: ghost_ok_def)
qed

lemma prop_set_distinct: "distinct (hkeys ps) \<Longrightarrow> distinct (hkeys (fst (snd (prop_set w key v (ps, t)))))"
  by (simp add: prop_set_def split: option.split)

lemma set_items_distinct: "distinct (hkeys ps) \<Longrightarrow> distinct (hkeys (fst (snd (set_items w items (ps, t)))))"
proof (induction items arbitrary: ps t)
  case (Cons kv items)
  obtain k v where kv: "kv = (k, v)" by (cases kv)
  show ?case
  proof (cases "json_string v")
    case (Inr x)
    obtain b ps' t' where set: "prop_set w k x (ps, t) = (b, ps', t')" by (cases "prop_set w k x (ps, t)")
    have "distinct (hkeys ps')" using prop_set_distinct [OF Cons.prems, of w k x t] set by simp
    then show ?thesis using Cons.IH [of ps' t'] Inr set kv by simp
  qed (use Cons.prems kv in simp)
qed simp

lemma ghost_ok_apply: "ghost_ok w g \<Longrightarrow> ghost_ok w (ostate (apply_entity_update w eid j g))"
proof -
  assume ok: "ghost_ok w g"
  have "ghost_ok w (snd (with_props eid (set_items w (json_items j)) g))"
    by (rule ghost_ok_with_props [OF ok]) (auto simp: set_items_distinct set_items_times)
  then show ?thesis
    by (simp add: apply_entity_update_def case_prod_unfold Let_def del: fst_with_props split: option.split)
qed

lemma ghost_ok_ApplyUpdate: "ghost_ok w g \<Longrightarrow> ghost_ok w (ApplyUpdate w str g)"
proof (cases "jparse w str")
  case (Some j)
  assume ok: "ghost_ok w g"
  have "ghost_ok w (ostate (ofold (\<lambda>(eid, ps). apply_entity_update w eid ps) (json_items j) g))"
  proof (rule ofold_invariant)
    show "ghost_ok w (ostate ((case x of (eid, ps) \<Rightarrow> apply_entity_update w eid ps) g'))"
      if "ghost_ok w g'" for x g'
      using ghost_ok_apply [OF that] by (cases x) simp
  qed (rule ok)
  with Some show ?thesis by (simp add: ApplyUpdate_def apply_items_def)
qed (simp add: ApplyUpdate_def)

lemma PollPropertyUpdate_inv:
  assumes "ghost_ok w g"
  shows "ghost_ok w (snd (PollPropertyUpdate w eid key g))"
proof -
  let ?f = "\<lambda>(ps, t). case prop_get key ps of None \<Rightarrow> (None, ps, t) | Some v \<Rightarrow> (Some v, AcknowledgeSync w key (ps, t))"
  have "distinct (hkeys (props_of eid g))"
    using assms by (auto simp: ghost_ok_def props_of_def dest: objects_okD split: option.split)
  then have "distinct (hkeys (fst (snd (?f (props_of eid g, hr_reads g)))))"
    by (simp add: AcknowledgeSync_def split: option.split)
  then have "objects_ok (\<lambda>_ ps. distinct (hkeys ps)) (ett_props (snd (with_props eid ?f g)))"
    using assms by (simp add: ghost_ok_def with_props_def case_prod_unfold Let_def objects_ok_hput)
  then show ?thesis
    using assms ghost_times_poll [of w g eid key] by (simp add: ghost_ok_def PollPropertyUpdate_def)
qed

lemma PeekProperties_inv: "ghost_ok w g \<Longrightarrow> ghost_ok w (snd (PeekProperties eid g))"
  unfolding PeekProperties_def
  by (rule ghost_ok_with_props)
    (auto simp: Let_def props_times_def map_of_filter_keys [where P = "\<lambda>k. k \<noteq> []"] distinct_map_filter split: if_splits)

lemma TryRemoveEntity_inv: "ghost_ok w g \<Longrightarrow> ghost_ok w (TryRemoveEntity eid g)"
  by (auto simp: ghost_ok_def TryRemoveEntity_def objects_ok_herase ghost_times_def props_of_def hmap_simps
      split: if_splits)

lemma FetchNextUpdate_inv: "ghost_ok w g \<Longrightarrow> ghost_ok w (snd (FetchNextUpdate g))"
  by (auto simp: ghost_ok_def FetchNextUpdate_def objects_ok_def map_of_const comp_def ghost_times_def props_of_def)

lemma set_owned_inv:
  assumes "ghost_ok w g"
  shows "ghost_ok w (ostate (set_owned w cid eid key v g))"
proof -
  let ?g1 = "snd (with_props eid (prop_set w key v) g)"
  have g1: "ghost_ok w ?g1"
    by (rule ghost_ok_with_props [OF assms]) (simp_all add: prop_set_distinct prop_set_times)
  have pend: "wf_update (pending_update cid ?g1)"
    using g1 by (auto simp: ghost_ok_def pending_update_def dest: objects_okD split: option.split)
  have stored: "ghost_ok w (?g1\<lparr>next_update := hput cid j (next_update ?g1)\<rparr>)" if "wf_update j" for j
    using g1 that by (simp add: ghost_ok_def objects_ok_hput ghost_times_def props_of_def del: next_update_with)
  obtain j where "note_change eid key v (pending_update cid ?g1) = Inr j" "wf_update j"
    using note_change_wf [OF pend] by blast
  then show ?thesis using g1 stored [of j]
    by (simp add: set_owned_def case_prod_unfold Let_def del: next_update_with fst_with_props)
qed

lemma lift_ghost_inv: "node_inv w s \<Longrightarrow> ghost_ok w (ostate r) \<Longrightarrow> oinv w (lift_ghost r s)"
  by (cases r) (simp_all add: lift_ghost_def node_inv_update(5))

section \<open>Entities\<close>

text \<open>A change of an entity that leaves its id and its inputs.\<close>

lemma update_entity_same [keeps]:
  "node_inv w s \<Longrightarrow> (\<And>e. et_id (f e) = et_id e \<and> et_inputs (f e) = et_inputs e) \<Longrightarrow> node_inv w (update_entity eid f s)"
  by (rule update_entity_inv) (simp_all add: entity_ok_def)

lemma oset_container [keeps]:
  assumes "node_inv w s"
  shows "node_inv w (RegisterNewOwnedEntityToContainer cid eid s)" "node_inv w (RemoveOwnedEntityFromContainer cid eid s)"
  using assms
  by (auto simp: RegisterNewOwnedEntityToContainer_def RemoveOwnedEntityFromContainer_def container_ok_def
      intro!: update_container_inv)

lemma RegisterEntity_inv [keeps]:
  assumes "node_inv w s" "et_inputs e = []"
  shows "oinv w (RegisterEntity e s)"
proof -
  have "node_inv w (s\<lparr>entities := hput (et_id e) e (entities s)\<rparr>)"
    using assms by (intro node_inv_update(1) objects_ok_hput) (auto simp: node_invD entity_ok_def)
  then show ?thesis using assms(1) by (simp add: RegisterEntity_def entity_initRPCService_def Let_def keeps)
qed

lemma UnregisterEntity_inv [keeps]:
  assumes "node_inv w s"
  shows "oinv w (UnregisterEntity eid s)"
proof -
  have "node_inv w (s\<lparr>entities := herase eid (entities s)\<rparr>)"
    using assms by (intro node_inv_update(1)) (auto simp: node_invD objects_ok_herase)
  from node_inv_update(5) [OF this, of "TryRemoveEntity eid (ghosts s)"]
  have "node_inv w (s\<lparr>entities := herase eid (entities s), ghosts := TryRemoveEntity eid (ghosts s)\<rparr>)"
    using assms by (simp add: TryRemoveEntity_inv node_invD)
  then show ?thesis using assms by (simp add: UnregisterEntity_def split: option.split)
qed

lemma entity_ops_inv [keeps]:
  assumes "node_inv w s"
  shows "node_inv w (entity_PushTaskToEngine eid t s)" "node_inv w (snd (entity_PollEngineTask eid s))"
    "node_inv w (SetEntityOwnerContainer eid cid s)" "node_inv w (SetEntityQuarantined eid b s)"
    "node_inv w (SetEntityValid eid b s)" "node_inv w (SetEntityNativeHandle eid h s)"
    "node_inv w (ForgetEntityNativeHandle eid s)" "node_inv w (snd (SaveEntityPayload eid payload s))"
    "node_inv w (SendEntityDeleteOrder eid s)" "node_inv w (UploadInputData uuid name pressed x y s)"
    "node_inv w (LoadExistingEntities gid cid s)" "node_inv w (entities_Clear s)"
  using assms
  by (simp_all add: entity_PushTaskToEngine_def entity_PollEngineTask_def SetEntityOwnerContainer_def
      SetEntityQuarantined_def SetEntityValid_def SetEntityNativeHandle_def ForgetEntityNativeHandle_def
      SaveEntityPayload_def SendEntityDeleteOrder_def UploadInputData_def LoadExistingEntities_def entities_Clear_def
      case_prod_unfold Let_def node_inv_update(1) keeps split: option.split)

lemma EngineCallInstantiate_inv [keeps]:
  assumes "node_inv w s"
  shows "oinv w (EngineCallInstantiate eid payload owner s)"
proof -
  have "oinv w (RegisterEntity (new_entity eid owner) s)"
    by (rule RegisterEntity_inv [OF assms]) (simp add: new_entity_def)
  then show ?thesis
    by (cases "RegisterEntity (new_entity eid owner) s") (simp_all add: EngineCallInstantiate_def keeps)
qed

lemma apply_inv [keeps]: "node_inv w s \<Longrightarrow> oinv w (lift_ghost (apply_entity_update w eid j (ghosts s)) s)"
  by (rule lift_ghost_inv) (simp_all add: ghost_ok_apply node_invD)

lemma load_entities_inv [keeps]:
  assumes "node_inv w s"
  shows "oinv w (load_entities w cid etts s)"
proof -
  have one: "oinv w (load_entity w cid eid data s)" if "node_inv w s" for eid data s
    using that by (auto simp: load_entity_def keeps intro!: oinv_bind split: option.split sum.split)
  show ?thesis unfolding load_entities_def
  proof (rule oinv_fold [OF assms])
    show "oinv w ((case x of (eid, data) \<Rightarrow> \<lambda>s. ocatch (load_entity w cid eid data s)
        (\<lambda>e s. Ret () (log_error (''Error while loading entity '' @ eid @ '': '' @ exn_what e) s))) s)"
      if "node_inv w s" for x s
      by (cases x) (auto intro!: oinv_catch one that simp: keeps)
  qed
qed

lemma GetExistingEntities_inv [keeps]:
  assumes "node_inv w s"
  shows "node_inv w (snd (GetExistingEntities w cid s))"
proof -
  have one: "node_inv w (snd (entity_snapshot w eid s))" if "node_inv w s" for eid s
    using that by (simp add: entity_snapshot_def case_prod_unfold Let_def node_inv_update(5) PeekProperties_inv node_invD)
  have "node_inv w (snd (fold (\<lambda>(eid, e) (etts, s).
      if et_owner e = cid then let (data, s1) = entity_snapshot w eid s in (omap_insert eid data etts, s1) else (etts, s))
      es (etts, s)))" if "node_inv w s" for es etts s
    using that
    by (induction es arbitrary: etts s) (simp_all add: case_prod_unfold Let_def one)
  then show ?thesis using assms by (simp add: GetExistingEntities_def)
qed

lemma DeleteEntities_inv [keeps]:
  assumes "node_inv w s"
  shows "node_inv w (DeleteEntitiesInContainer cid s)"
proof -
  have "node_inv w (delete_loop cid eids td s)" if "node_inv w s" for eids td s
    using that
  proof (induction eids arbitrary: td s)
    case (Cons eid eids)
    have "node_inv w (update_entity eid mark_deleted s)"
      using Cons.prems by (rule update_entity_same) (simp add: mark_deleted_def)
    then show ?case using Cons.prems by (simp add: delete_loop_Cons Let_def Cons.IH)
  qed simp
  with assms show ?thesis by (simp add: DeleteEntitiesInContainer_def)
qed

lemma delete_and_unregister_inv [keeps]: "node_inv w s \<Longrightarrow> oinv w (delete_and_unregister eid payload s)"
  unfolding delete_and_unregister_def by (rule oinv_bind) (simp_all add: keeps)

text \<open>The history of an input never exceeds its capacity and is never empty.\<close>

lemma ring_push_length: "ring_push x xs \<noteq> []" "length (ring_push x xs) \<le> input_capacity"
  by (simp_all add: ring_push_def Let_def input_capacity_def)

lemma HandleInput_inv [keeps]:
  assumes "node_inv w s"
  shows "node_inv w (HandleInput w uuid name status x y s)"
  using assms
  by (auto simp: HandleInput_def case_prod_unfold Let_def entity_ok_def hmap_simps ring_push_length keeps
      intro!: update_entity_inv split: option.split)

lemma UpdatePropertyState_inv [keeps]: "node_inv w s \<Longrightarrow> oinv w (UpdatePropertyState w eid key v s)"
  by (simp add: UpdatePropertyState_def Let_def lift_ghost_inv set_owned_inv node_invD)

lemma poll_inv [keeps]: "node_inv w s \<Longrightarrow> node_inv w (s\<lparr>ghosts := snd (PollPropertyUpdate w eid key (ghosts s))\<rparr>)"
  by (simp add: node_inv_update(5) PollPropertyUpdate_inv node_invD)

lemma HandleReplicationPacket_inv [keeps]: "node_inv w s \<Longrightarrow> node_inv w (HandleReplicationPacket w data s)"
  by (simp add: HandleReplicationPacket_def node_inv_update(5) ghost_ok_ApplyUpdate node_invD)

text \<open>Only a container that is owned has a replication writer, and only a server owns containers.\<close>

lemma ReplicateData_inv:
  assumes "node_inv w s"
  shows "node_inv w (ReplicateData cid data s)"
proof -
  have "server_mode s \<and> packets_ok w (packets s @ [(t, data)])"
    if "map_of (containers s) cid = Some c" "ct_replws c = Some t" for c t
  proof -
    have "server_mode s" "\<exists>ds cid. cid \<in> range (gen_uuid w) \<and> t = tp_repl ds cid"
      using objects_okD [OF node_invD(2) [OF assms] that(1)] that(2) unfolding container_ok_def by blast+
    moreover have "packets_ok w (packets s)" using assms by (simp add: node_inv_def)
    ultimately show ?thesis unfolding packets_ok_def by simp
  qed
  then show ?thesis using assms
    by (auto simp: ReplicateData_def node_inv_update(7) split: option.split)
qed

lemma upload_round_inv [keeps]: "node_inv w s \<Longrightarrow> node_inv w (upload_round w s)"
  unfolding upload_round_def case_prod_unfold Let_def
  by (rule fold_inv) (auto simp: ReplicateData_inv node_inv_update(5) FetchNextUpdate_inv node_invD)

section \<open>Containers\<close>

lemma update_container_same [keeps]:
  "node_inv w s \<Longrightarrow>
    (\<And>c. ct_id (f c) = ct_id c \<and> ct_refs (f c) = ct_refs c \<and> ct_owned (f c) = ct_owned c \<and>
      ct_replws (f c) = ct_replws c \<and> ct_local (f c) = ct_local c) \<Longrightarrow>
    node_inv w (update_container cid f s)"
  by (rule update_container_inv) (simp_all add: container_ok_def)

lemma mod_subs_inv [keeps]:
  assumes "node_inv w s"
  shows "node_inv w (mod_subs h (oset_insert cid) s)" "node_inv w (mod_subs h (oset_erase cid) s)"
  using assms
  by (auto simp: mod_subs_def grape_ok_def node_inv_update(6) node_invD intro!: update_grape_inv split: holder.split)

lemma container_initRPCs_inv [keeps]: "node_inv w s \<Longrightarrow> node_inv w (container_initRPCs cid s)"
  unfolding container_initRPCs_def by (rule fold_inv) (auto simp: container_methods_def keeps)

lemma destroy_container_inv [keeps]: "node_inv w s \<Longrightarrow> node_inv w (destroy_container cid s)"
  unfolding destroy_container_def by (rule fold_inv) (simp_all add: keeps)

text \<open>The registry of containers commutes with what does not look at it.\<close>

lemma containers_commute:
  "register_method t n d (s\<lparr>containers := m\<rparr>) = (register_method t n d s)\<lparr>containers := m\<rparr>"
  "mod_subs h g (s\<lparr>containers := m\<rparr>) = (mod_subs h g s)\<lparr>containers := m\<rparr>"
  by (simp_all add: register_method_def mod_subs_def update_grape_def split: option.split holder.split)

lemma container_initRPCs_commute:
  "container_initRPCs cid (s\<lparr>containers := m\<rparr>) = (container_initRPCs cid s)\<lparr>containers := m\<rparr>"
  by (simp add: container_initRPCs_def container_methods_def containers_commute)

lemma hmodify_hput: "hmodify k f (hput k v m) = hput k (f v) m"
  by (induction m) auto

lemma fresh_container_steps:
  "update_container cid f (s\<lparr>containers := hput cid c m\<rparr>) = s\<lparr>containers := hput cid (f c) m\<rparr>"
  "ScheduleAsyncTask t (s\<lparr>containers := m\<rparr>) = (ScheduleAsyncTask t s)\<lparr>containers := m\<rparr>"
  "createReaderStream cid topic (s\<lparr>containers := hput cid c m\<rparr>) =
     (ScheduleAsyncIOTask (OpenReader cid topic) s)
       \<lparr>containers := hput cid (c\<lparr>ct_readers := ct_readers c @ [(topic, False)]\<rparr>) m\<rparr>"
  by (simp_all add: update_container_def hmodify_hput ScheduleAsyncTask_def ScheduleAsyncIOTask_def createReaderStream_def)

lemma fresh_container_streams:
  assumes "ct_id c = cid"
  shows "\<exists>s1 readers. container_initStreams cid (s\<lparr>containers := hput cid c m\<rparr>) =
      s1\<lparr>containers := hput cid (c\<lparr>ct_replws := (if server_mode s \<and> ct_local c then Some (tp_repl (topic_scope s) cid)
        else ct_replws c), ct_readers := readers\<rparr>) m\<rparr> \<and>
    (\<forall>w. node_inv w s \<longrightarrow> node_inv w s1) \<and> server_mode s1 = server_mode s"
proof -
  let ?repl = "tp_repl (topic_scope s) cid" and ?input = "tp_input (topic_scope s) cid"
  have look: "map_of (containers (s\<lparr>containers := hput cid c m\<rparr>)) cid = Some c" by (simp add: hmap_simps)
  show ?thesis
  proof (cases "server_mode s \<and> ct_local c")
    case True
    then have "container_initStreams cid (s\<lparr>containers := hput cid c m\<rparr>) =
        (ScheduleAsyncIOTask (OpenReader cid ?input) s)\<lparr>containers := hput cid
          (c\<lparr>ct_replws := Some ?repl, ct_readers := ct_readers c @ [(?input, False)]\<rparr>) m\<rparr>"
      unfolding container_initStreams_def look by (simp add: assms fresh_container_steps)
    with True show ?thesis
      by (intro exI [of _ "ScheduleAsyncIOTask (OpenReader cid ?input) s"] exI [of _ "ct_readers c @ [(?input, False)]"])
        (simp add: keeps, simp add: ScheduleAsyncIOTask_def)
  next
    case False
    let ?s1 = "ScheduleAsyncIOTask (OpenReader cid ?input) (ScheduleAsyncIOTask (OpenReader cid ?repl) s)"
    let ?readers = "ct_readers c @ [(?repl, False), (?input, False)]"
    have "container_initStreams cid (s\<lparr>containers := hput cid c m\<rparr>) =
        ?s1\<lparr>containers := hput cid (c\<lparr>ct_readers := ?readers\<rparr>) m\<rparr>"
      using False unfolding container_initStreams_def look by (auto simp: assms fresh_container_steps Let_def)
    also have "c\<lparr>ct_readers := ?readers\<rparr> =
        c\<lparr>ct_replws := (if server_mode s \<and> ct_local c then Some ?repl else ct_replws c), ct_readers := ?readers\<rparr>"
      unfolding if_not_P [OF False] by simp
    finally show ?thesis
      by (rule exI [of _ ?s1, OF exI [of _ ?readers, OF conjI]])
        (simp add: keeps, simp add: ScheduleAsyncIOTask_def)
  qed
qed

text \<open>A container that a subscription creates is well-formed once it has started.\<close>

lemma start_container_inv:
  assumes "node_inv w s" "own \<longrightarrow> cid \<in> range (gen_uuid w)"
  shows "node_inv w (start_container cid f own (mod_subs h (oset_insert cid)
    (s\<lparr>containers := hput cid (new_container w cid) (containers s)\<rparr>)))"
proof -
  define s1 where "s1 = container_initRPCs cid (mod_subs h (oset_insert cid) s)"
  define c where "c = (new_container w cid)\<lparr>ct_refs := 2, ct_local := server_mode s \<and> own\<rparr>"
  have s1: "node_inv w s1" "server_mode s1 = server_mode s" by (simp_all add: s1_def assms(1) keeps)
  have "ct_id c = cid" by (simp add: c_def new_container_def)
  then obtain s2 readers where s2:
    "container_initStreams cid (s1\<lparr>containers := hput cid c (containers s)\<rparr>) =
      s2\<lparr>containers := hput cid (c\<lparr>ct_replws := (if server_mode s1 \<and> ct_local c then Some (tp_repl (topic_scope s1) cid)
        else ct_replws c), ct_readers := readers\<rparr>) (containers s)\<rparr>"
    "\<forall>w. node_inv w s1 \<longrightarrow> node_inv w s2" "server_mode s2 = server_mode s1"
    using fresh_container_streams [of c cid "containers s" s1] by blast
  have start: "start_container cid f own (mod_subs h (oset_insert cid)
      (s\<lparr>containers := hput cid (new_container w cid) (containers s)\<rparr>)) =
    ScheduleAsyncTask (WaitNetworkReady cid f) (container_initStreams cid (s1\<lparr>containers := hput cid c (containers s)\<rparr>))"
    by (simp add: start_container_def Let_def containers_commute(2) container_initRPCs_commute fresh_container_steps(1)
        s1_def c_def new_container_def WaitForNetworkReady_def)
  show ?thesis unfolding start s2(1) fresh_container_steps(2)
  proof (rule node_inv_update(2))
    show "node_inv w (ScheduleAsyncTask (WaitNetworkReady cid f) s2)" using s1 s2(2) by (simp add: keeps)
    show "objects_ok (container_ok w (server_mode (ScheduleAsyncTask (WaitNetworkReady cid f) s2)))
      (hput cid (c\<lparr>ct_replws := (if server_mode s1 \<and> ct_local c then Some (tp_repl (topic_scope s1) cid)
        else ct_replws c), ct_readers := readers\<rparr>) (containers s))"
      using node_invD(2) [OF assms(1)] s1(2) s2(3) assms(2)
      by (intro objects_ok_hput) (auto simp add: c_def container_ok_def new_container_def ScheduleAsyncTask_def)
  qed
qed

text \<open>Every call that subscribes as the owner leaves the id to the generator.\<close>

lemma Subscribe_inv [keeps]:
  assumes "node_inv w s" "own \<longrightarrow> cid = []"
  shows "oinv w (Subscribe w h cid f own s)"
proof (cases "IsSubscribed h cid s")
  case False
  show ?thesis
  proof (cases "map_of (containers s) cid")
    case None
    define r where "r = (if cid = [] then GenUUID w s else (cid, s))"
    define s2 where "s2 = snd (GenUUID w (snd r))"
    have s2: "node_inv w s2" using assms(1) by (simp add: s2_def r_def keeps)
    have own: "own \<longrightarrow> fst r \<in> range (gen_uuid w)" using assms(2) by (simp add: r_def GenUUID_def)
    have "CreateContainerIfNotExists w cid s =
        (if map_of (containers s2) (fst r) = None
         then Ret (fst r, True) (s2\<lparr>containers := hput (fst r) (new_container w (fst r)) (containers s2)\<rparr>)
         else (let msg = celte_error ''Container.cpp'' 149 (''Failed to create container '' @ fst r)
               in Raise (ContainerCreationExn msg) (log_error msg (destroy_container (fst r) s2))))"
      using None by (simp add: CreateContainerIfNotExists_def r_def s2_def case_prod_unfold Let_def)
    then show ?thesis using False start_container_inv [OF s2 own] s2
      by (simp add: Subscribe_def Let_def keeps)
  next
    case (Some c)
    then show ?thesis using False assms by (simp add: Subscribe_def CreateContainerIfNotExists_def Let_def keeps)
  qed
qed (simp add: Subscribe_def assms keeps)

text \<open>An unsubscription removes the container, so the count that it decrements is never seen.\<close>

lemma hput_herase_hmodify: "herase k (hmodify k f m) = herase k m"
  by (induction m) auto

lemma Unsubscribe_inv [keeps]:
  assumes "node_inv w s"
  shows "node_inv w (Unsubscribe h cid s)"
proof (cases "IsSubscribed h cid s")
  case True
  let ?s1 = "mod_subs h (oset_erase cid) s"
  have s1: "node_inv w ?s1" by (simp add: assms keeps)
  show ?thesis
  proof (cases "map_of (containers s) cid")
    case None
    then have "update_container cid (\<lambda>c. c\<lparr>ct_refs := ct_refs c - 1\<rparr>) ?s1 = ?s1" by (simp add: update_container_def)
    then show ?thesis using True s1 None by (simp add: Unsubscribe_def UpdateRefCount_def)
  next
    case (Some c)
    let ?del = "DeleteEntitiesInContainer cid (update_container cid (\<lambda>c. c\<lparr>ct_refs := ct_refs c - 1\<rparr>) ?s1)"
    have commute: "DeleteEntitiesInContainer cid (u\<lparr>containers := m\<rparr>) = (DeleteEntitiesInContainer cid u)\<lparr>containers := m\<rparr>"
      for u :: node and m
    proof -
      have order: "v\<lparr>containers := m, entities := x\<rparr> = v\<lparr>entities := x, containers := m\<rparr>"
        "v\<lparr>containers := m, top_tasks := y\<rparr> = v\<lparr>top_tasks := y, containers := m\<rparr>" for v :: node and x y by simp_all
      have "delete_loop cid eids td (u\<lparr>containers := m\<rparr>) = (delete_loop cid eids td u)\<lparr>containers := m\<rparr>" for eids td
        by (induction eids arbitrary: td u) (simp_all add: delete_loop_Cons Let_def update_entity_def order)
      then show ?thesis by (simp add: DeleteEntitiesInContainer_def)
    qed
    have frame: "containers (DeleteEntitiesInContainer cid u) = containers u" "server_mode (DeleteEntitiesInContainer cid u) = server_mode u"
      for u :: node by (simp_all add: DeleteEntitiesInContainer_def delete_loop_frame)
    have "\<exists>tr async. Unsubscribe h cid s = (DeleteEntitiesInContainer cid ?s1)\<lparr>trash := tr, async_tasks := async,
        containers := herase cid (containers s)\<rparr>"
      using True Some
      by (auto simp: Unsubscribe_def UpdateRefCount_def use_count_def TrashContainer_def ScheduleAsyncTask_def Let_def
          update_container_def commute frame hput_herase_hmodify hmap_simps)
    moreover have "node_inv w ((DeleteEntitiesInContainer cid ?s1)\<lparr>trash := tr, async_tasks := async, containers := herase cid (containers s)\<rparr>)"
      for tr async
      by (rule node_inv_update(2)) (simp_all add: s1 keeps frame objects_ok_herase node_invD(2) [OF assms])
    ultimately show ?thesis by auto
  qed
qed (simp add: Unsubscribe_def assms)

lemma modify_object_inv:
  assumes "node_inv w s" "\<And>c. ct_id (f c) = ct_id c \<and> ct_refs (f c) = ct_refs c \<and> ct_owned (f c) = ct_owned c \<and>
      ct_replws (f c) = ct_replws c \<and> ct_local (f c) = ct_local c"
  shows "node_inv w (modify_object cid f s)"
  using assms by (simp add: modify_object_def update_container_same)

lemma container_tasks_inv:
  assumes "node_inv w s"
  shows "node_inv w (wait_round cid f s)"
    and "open_reader res cid topic s = Some s' \<Longrightarrow> node_inv w s'"
    and "cleanup_container c s = Some s' \<Longrightarrow> node_inv w s'"
  using assms
  by (auto simp: wait_round_def open_reader_def cleanup_container_def keeps modify_object_inv split: option.splits bool.splits)

section \<open>Grapes\<close>

text \<open>A change of a grape that leaves its id, its sets and its named tasks.\<close>

lemma update_grape_same [keeps]:
  "node_inv w s \<Longrightarrow>
    (\<And>g. gr_id (f g) = gr_id g \<and> gr_subs (f g) = gr_subs g \<and> gr_proxy (f g) = gr_proxy g \<and>
      gr_owned (f g) = gr_owned g \<and> gr_named (f g) = gr_named g) \<Longrightarrow>
    node_inv w (update_grape gid f s)"
  by (rule update_grape_inv) (simp_all add: grape_ok_def)

lemma empty_grape_ok: "grape_ok gid empty_grape"
  by (simp add: grape_ok_def empty_grape_def named_ok_def waiting_def)

lemma RegisterGrape_inv [keeps]:
  assumes "node_inv w s"
  shows "oinv w (RegisterGrape gid own f s)"
proof -
  have s1: "node_inv w (s\<lparr>grapes := hput gid empty_grape (grapes s)\<rparr>)"
    using assms by (intro node_inv_update(3) objects_ok_hput) (simp_all add: node_invD empty_grape_ok)
  have "node_inv w (update_grape gid (\<lambda>g. g\<lparr>gr_id := gid, gr_local := b\<rparr>) s2)" if "node_inv w s2" for s2 b
    using that by (rule update_grape_inv) (auto simp: grape_ok_def)
  then show ?thesis using assms s1
    by (simp add: RegisterGrape_def SetAssignedGrape_def Let_def keeps split: option.split)
qed

lemma named_ok_push:
  assumes "named_ok qs" "name = ''CMIInstantiate'' \<longrightarrow> length args = 4" "name = ''proxyTakeAuthority'' \<longrightarrow> length args = 3"
  shows "named_ok (pushNamedTaskToEngine name args qs)"
  using assms by (auto simp: named_ok_def waiting_push)

lemma named_ok_pop: "named_ok qs \<Longrightarrow> named_ok (ostate (popNamedTaskFromEngine n name qs))"
  by (auto simp: popNamedTaskFromEngine_def named_ok_def waiting_def hmap_simps Let_def split: option.splits list.splits)

lemma PopNamed_inv [keeps]:
  assumes "node_inv w s"
  shows "oinv w (PopNamedTaskFromEngine n gid name s)"
proof (cases "map_of (grapes s) gid")
  case (Some g)
  have "grape_ok gid g" by (rule objects_okD [OF node_invD(3) [OF assms] Some])
  then have "named_ok (ostate (popNamedTaskFromEngine n name (gr_named g)))" by (simp add: grape_ok_def named_ok_pop)
  then show ?thesis using Some assms
    by (cases "popNamedTaskFromEngine n name (gr_named g)")
      (auto simp: PopNamedTaskFromEngine_def grape_ok_def intro!: update_grape_inv)
qed (simp add: PopNamedTaskFromEngine_def assms)

text \<open>A pop at the type of its queue never throws.\<close>

lemma PopNamed_returns:
  assumes "node_inv w s" "(name, n) \<in> {(''CMIInstantiate'', 4), (''proxyTakeAuthority'', 3)}"
  shows "returns (PopNamedTaskFromEngine n gid name s)"
proof (cases "map_of (grapes s) gid")
  case (Some g)
  have "named_ok (gr_named g)"
    using objects_okD [OF node_invD(3) [OF assms(1)] Some] by (simp add: grape_ok_def)
  then show ?thesis using Some assms(2)
    by (auto simp: PopNamedTaskFromEngine_def popNamedTaskFromEngine_def named_ok_def waiting_def Let_def
        split: option.splits list.splits)
qed (simp add: PopNamedTaskFromEngine_def)

lemma grape_initRPCService_inv [keeps]: "node_inv w s \<Longrightarrow> node_inv w (grape_initRPCService g s)"
  unfolding grape_initRPCService_def Let_def subscribe_grape_method_def
  by (rule fold_inv) (auto intro!: fold_inv simp: grape_server_methods_def keeps)

lemma grape_ops_inv [keeps]:
  assumes "node_inv w s"
  shows "node_inv w (UnregisterGrape gid s)" "node_inv w (grape_PushTaskToEngine gid t s)"
    "node_inv w (snd (grape_PollEngineTask gid s))" "node_inv w (SetOwnedContainerNativeHandle gid cid h s)"
    "node_inv w (SetGrapeLocallyOwned gid b s)" "node_inv w (grape_PushTaskToSystem gid t s)"
    "node_inv w (grape_PushIOTaskToSystem gid t s)"
    "node_inv w (CMIInstantiate gid cmi prefab payload cl s)"
    "node_inv w (rp_proxyTakeAuthority gid eid cid payload s)"
  using assms
  by (auto simp: UnregisterGrape_def grape_PushTaskToEngine_def grape_PollEngineTask_def
      SetOwnedContainerNativeHandle_def SetGrapeLocallyOwned_def grape_PushTaskToSystem_def grape_PushIOTaskToSystem_def
      CMIInstantiate_def rp_proxyTakeAuthority_def PushNamedTaskToEngine_def grape_ok_def named_ok_push node_inv_update(3) objects_ok_herase node_invD
      case_prod_unfold Let_def keeps
      intro!: update_grape_inv fold_inv split: option.split)

lemma grape_subscribe_inv [keeps]:
  assumes "node_inv w s" "own \<longrightarrow> cid = []"
  shows "oinv w (grape_subscribeToContainer w gid cid f own s)"
  unfolding grape_subscribeToContainer_def
proof (rule oinv_bind)
  fix r and s1 :: node
  assume "node_inv w s1"
  then show "oinv w (case r of None \<Rightarrow> Ret None s1
      | Some newId \<Rightarrow> Ret (Some newId)
          (if own then update_grape gid (\<lambda>g. g\<lparr>gr_owned := omap_put newId None (gr_owned g)\<rparr>) s1
           else LoadExistingEntities (GetGrapeId gid s1) cid s1))"
    by (auto simp: grape_ok_def keeps intro!: update_grape_inv split: option.split)
qed (simp add: assms keeps)

lemma container_calls_inv [keeps]:
  assumes "node_inv w s"
  shows "oinv w (ContainerCreateAndAttach w gid n [] s)" "oinv w (SubscribeGrapeToContainer w gid cid f s)"
    "node_inv w (UnsubscribeGrapeFromContainer gid cid s)" "oinv w (subscribe_grape_io w gid cid s)"
    "node_inv w (unsubscribe_grape_io gid cid s)"
  using assms
  by (auto simp: ContainerCreateAndAttach_def SubscribeGrapeToContainer_def UnsubscribeGrapeFromContainer_def
      subscribe_grape_io_def unsubscribe_grape_io_def grape_unsubscribeFromContainer_def keeps
      intro!: oinv_bind split: option.split)

lemma call_log_error_inv [keeps]:
  "env_ok w env \<Longrightarrow> node_inv w s \<Longrightarrow> typed_call name (map JStr args) \<Longrightarrow> oinv w (call_log_error w env de peer name timeout n args s)"
  by (simp add: call_log_error_def keeps)

lemma SetRemoteGrapeSubscription_inv [keeps]:
  assumes "env_ok w env" "node_inv w s"
  shows "oinv w (SetRemoteGrapeSubscription w env owner gid cid sub s)"
proof -
  have "node_inv w (update_grape gid (\<lambda>g. g\<lparr>gr_proxy := oset_insert cid (gr_proxy g)\<rparr>) s)"
    "node_inv w (update_grape gid (\<lambda>g. g\<lparr>gr_proxy := oset_erase cid (gr_proxy g)\<rparr>) s)"
    by (auto simp: grape_ok_def intro!: update_grape_inv assms(2))
  then show ?thesis using assms
    by (auto simp: SetRemoteGrapeSubscription_def typed_call_def intro!: oinv_bind call_log_error_inv split: option.split)
qed

lemma fetchExistingContainers_inv [keeps]:
  assumes "env_ok w env" "node_inv w s"
  shows "oinv w (fetchExistingContainers w env gid s)"
  using assms
  by (auto simp: fetchExistingContainers_def Let_def typed_call_def keeps intro!: oinv_catch oinv_bind oinv_fold)

lemma grape_ready_inv [keeps]:
  assumes "env_ok w env" "node_inv w s"
  shows "oinv w (grape_ready w env gid own f s)"
  using assms by (auto simp: grape_ready_def keeps intro!: oinv_bind split: option.split)

section \<open>Authority\<close>

lemma ForgetClient_inv [keeps]: "node_inv w s \<Longrightarrow> node_inv w (ForgetClient cl s)"
  by (simp add: ForgetClient_def node_inv_update(4) objects_ok_herase node_invD)

lemma disconnect_inv [keeps]:
  assumes "node_inv w s"
  shows "oinv w (ExecClientDisconnect cl payload s)" "oinv w (RequestClientDisconnect cl s)"
  using assms by (auto simp: ExecClientDisconnect_def RequestClientDisconnect_def keeps intro!: oinv_bind)

lemma fire_log_error_inv [keeps]: "node_inv w s \<Longrightarrow> typed_call name (map JStr args) \<Longrightarrow> oinv w (fire_log_error w to name args s)"
  by (simp add: fire_log_error_def keeps)

lemma time_inv [keeps]:
  "node_inv w s \<Longrightarrow> node_inv w (snd (ms_later w ms s))"
  "node_inv w s \<Longrightarrow> node_inv w (snd (schedule_delay w tp s))"
  by (simp_all add: ms_later_def schedule_delay_def case_prod_unfold Let_def keeps)

lemma notify_inv [keeps]:
  assumes "node_inv w s"
  shows "oinv w (notifyTakeAuthority w args s)" "oinv w (notifyDrop w args s)"
  using assms by (simp_all add: notifyTakeAuthority_def notifyDrop_def typed_call_def keeps split: sum.split)

lemma TransferAuthority_inv [keeps]:
  assumes "node_inv w s"
  shows "oinv w (TransferAuthority w eid to payload ign s)"
proof -
  have q: "node_inv w (update_entity eid (\<lambda>e. e\<lparr>et_quarantine := True\<rparr>) s)" by (simp add: assms keeps)
  define s3 where "s3 = snd (ms_later w 2000 (snd (GenUUID w (update_entity eid (\<lambda>e. e\<lparr>et_quarantine := True\<rparr>) s))))"
  have "node_inv w s3" by (simp add: s3_def q keeps)
  then have "node_inv w (s3\<lparr>ghosts := snd (PeekProperties eid (ghosts s3))\<rparr>)"
    by (simp add: node_inv_update(5) PeekProperties_inv node_invD)
  then show ?thesis using assms q
    by (auto simp: TransferAuthority_def case_prod_unfold Let_def s3_def keeps intro!: oinv_bind split: option.split)
qed

lemma ExecTakeOrder_inv [keeps]:
  assumes "node_inv w s"
  shows "oinv w (ExecTakeOrder w args s)"
  using assms by (auto simp: ExecTakeOrder_def Let_def keeps split: list.split sum.split)

lemma ExecDropOrder_inv [keeps]:
  assumes "node_inv w s"
  shows "oinv w (ExecDropOrder w args s)"
  using assms by (auto simp: ExecDropOrder_def Let_def keeps split: list.split sum.split)

lemma execDropOrderImpl_inv [keeps]:
  assumes "node_inv w s"
  shows "node_inv w (execDropOrderImpl eid to from s)"
  using assms by (auto simp: execDropOrderImpl_def Let_def keeps split: option.split)

lemma authority_ops_inv [keeps]:
  assumes "node_inv w s"
  shows "oinv w (instantiate_entity w eid payload cid ghost s)" "oinv w (TakeAuthority w args s)"
    "oinv w (DropAuthority w args s)" "node_inv w (DeleteEntity eid payload s)" "oinv w (delete_hook eid payload s)"
    "oinv w (GRAPES_ProxyTakeAuthority w gid eid s)" "oinv w (send_delete_io w eid cid payload s)"
proof -
  show "oinv w (instantiate_entity w eid payload cid ghost s)" unfolding instantiate_entity_def
  proof (rule oinv_bind)
    show "oinv w (Ret () (ostate (lift_ghost (apply_entity_update w eid ghost (ghosts s1)) s1)))"
      if "node_inv w s1" for s1 using apply_inv [OF that, of eid ghost] by (simp add: oinv_def)
  qed (simp add: assms keeps)
qed (use assms in \<open>auto simp: TakeAuthority_def DropAuthority_def order_handler_def DeleteEntity_def delete_hook_def
      GRAPES_ProxyTakeAuthority_def AT_ProxyTakeAuthority_def send_delete_io_def Let_def typed_call_def keeps
      intro!: oinv_catch split: option.split\<close>)

lemma drop_entity_at_inv [keeps]:
  "env_ok w env \<Longrightarrow> node_inv w s \<Longrightarrow> node_inv w (drop_entity_at w env tp eid to from s)"
  by (simp add: drop_entity_at_def case_prod_unfold Let_def env_okD keeps)

section \<open>The peer service\<close>

lemma register_rpcs_inv [keeps]:
  assumes "node_inv w s"
  shows "node_inv w (initPeerRPCs s)" "node_inv w (InitGlobalRPC s)"
proof -
  show "node_inv w (initPeerRPCs s)"
    unfolding initPeerRPCs_def registerServerRPCs_def registerClientRPCs_def subscribe_peer_method_def
    by (cases "server_mode s") (simp_all add: keeps assms)
qed (simp add: InitGlobalRPC_def assms keeps)

lemma RegisterClient_inv [keeps]:
  assumes "node_inv w s"
  shows "node_inv w (RegisterClient w cl gid own s)"
proof -
  have "node_inv w (snd (GetUnifiedTime w s))" by (simp add: assms keeps)
  then show ?thesis
    by (auto simp: RegisterClient_def case_prod_unfold Let_def client_ok_def node_invD
        intro!: node_inv_update(4) objects_ok_hput)
qed

lemma client_subs_inv:
  assumes "node_inv w s"
  shows "node_inv w (update_client cl (\<lambda>c. c\<lparr>cd_subs := oset_insert cid (cd_subs c)\<rparr>) s)"
    "node_inv w (update_client cl (\<lambda>c. c\<lparr>cd_subs := oset_erase cid (cd_subs c)\<rparr>) s)"
  by (auto simp: client_ok_def intro!: update_client_inv assms)

lemma peer_ops_inv [keeps]:
  assumes "node_inv w s"
  shows "node_inv w (register_client_literal w cl s)" "node_inv w (snd (AssignGrape gid s))"
    "oinv w (RequestSpawnPosition w cl s)" "node_inv w (snd (AcceptNewClient w cl sp s))"
    "node_inv w (server_SubscribeClientToContainer cl cid f s)"
    "node_inv w (server_UnsubscribeClientFromContainer cl cid s)" "node_inv w (subscribe_client_io cl cid f s)"
    "oinv w (client_SubscribeClientToContainer w cid gid s)"
    "node_inv w (snd (client_UnsubscribeClientFromContainer cid s))"
  using assms client_subs_inv [OF assms]
  by (auto simp: register_client_literal_def AssignGrape_def SetAssignedGrape_def RequestSpawnPosition_def
      AcceptNewClient_def server_SubscribeClientToContainer_def server_UnsubscribeClientFromContainer_def
      subscribe_client_io_def client_SubscribeClientToContainer_def client_UnsubscribeClientFromContainer_def
      Let_def keeps intro!: oinv_bind split: option.split)

lemma peer_calls_inv [keeps]:
  assumes "env_ok w env" "node_inv w s"
  shows "oinv w (ConnectClientToThisNode w env cl f s)" "oinv w (subscribe_client_call w env cl cid f s)"
    "oinv w (unsubscribe_client_io w env cl cid s)"
  using assms
  by (auto simp: ConnectClientToThisNode_def subscribe_client_call_def unsubscribe_client_io_def typed_call_def keeps
      intro!: oinv_bind run_async_call_inv)

lemma wait_grape_inv:
  assumes "env_ok w env" "wait_grape env k gid s = Some s'" "node_inv w s"
  shows "node_inv w s'"
proof -
  have "env = env \<longrightarrow> node_inv w s \<longrightarrow> node_inv w s'"
  proof (rule wait_grape.raw_induct [where P = "\<lambda>e k g s r. e = env \<longrightarrow> node_inv w s \<longrightarrow> node_inv w r", OF _ assms(2)])
    fix wg e k g and s r :: node
    assume "\<And>e k g s r. wg e k g s = Some r \<Longrightarrow> e = env \<longrightarrow> node_inv w s \<longrightarrow> node_inv w r"
      and "(if GrapeExists g s then Some s else wg e (Suc k) g (e k s)) = Some r"
    then show "e = env \<longrightarrow> node_inv w s \<longrightarrow> node_inv w r"
      by (cases "GrapeExists g s") (auto simp: env_okD [OF assms(1)])
  qed
  with assms(3) show ?thesis by simp
qed

lemma ForceConnect_inv:
  assumes "env_ok w env" "node_inv w s" "ForceConnectToNode env gid s = Some r"
  shows "node_inv w (snd r)"
  using assms by (auto simp: ForceConnectToNode_def keeps intro: wait_grape_inv)

lemma GetLatency_inv [keeps]:
  assumes "env_ok w env" "node_inv w s"
  shows "oinv w (GetLatency w env steady s)"
proof -
  have "oinv w (latency_loop w env steady k gs lat s)" if "node_inv w s" for k gs lat s
    using that
  proof (induction gs arbitrary: k lat s)
    case (Cons g gs)
    show ?case by (auto simp: Let_def typed_call_def intro!: oinv_bind Cons.IH keeps assms(1) Cons.prems)
  qed simp
  then show ?thesis by (simp add: GetLatency_def assms(2))
qed

lemma runtime_inv [keeps]:
  assumes "node_inv w s"
  shows "oinv w (ForceDisconnectClient w cl payload s)" "oinv w (Disconnect w s)"
    "oinv w (connectToMaster w answer s)" "oinv w (client_connected b s)"
  using assms
  by (auto simp: ForceDisconnectClient_def Disconnect_def connectToMaster_def client_connected_def Let_def typed_call_def keeps
      intro!: oinv_fold oinv_bind split: option.split sum.split)

lemma master_phase_inv [keeps]: "node_inv w s \<Longrightarrow> oinv w (master_phase w answer s)"
  by (auto simp: master_phase_def keeps intro!: oinv_catch oinv_bind)

lemma custom_rpcs_inv [keeps]:
  assumes "node_inv w s"
  shows "node_inv w (RegisterGlobalRPC name fl f s)" "node_inv w (RegisterGrapeRPC gid fl name f s)"
    "node_inv w (RegisterEntityRPC eid fl name f s)" "node_inv w (RegisterClientRPC cl name f s)"
    "oinv w (CallGlobalRPC w name args s)" "oinv w (CallGrapeRPC w priv gid name args s)"
    "oinv w (CallEntityRPC w priv eid name args s)" "oinv w (CallClientRPC w cl name args s)"
    "oinv w (CallCMIInstantiate w gid cmi prefab payload cl s)"
  using assms
  by (simp_all add: RegisterGlobalRPC_def RegisterGrapeRPC_def RegisterEntityRPC_def RegisterClientRPC_def
      CallGlobalRPC_def CallGrapeRPC_def CallEntityRPC_def CallClientRPC_def CallCMIInstantiate_def Let_def typed_call_def keeps)

section \<open>Tasks and requests\<close>

lemma cleanup_trashed_inv:
  "node_inv w s \<Longrightarrow> cleanup_trashed cid s = Some s' \<Longrightarrow> node_inv w s'"
  by (auto simp: cleanup_trashed_def dest: container_tasks_inv(3) split: option.splits)

lemma run_task_inv:
  assumes "env_ok w env" "node_inv w s" "run_task w env res t s = Some r"
  shows "oinv w r"
proof -
  have "oinv w (load_entities_call w env gid cid s)" for gid cid
    unfolding load_entities_call_def by (rule run_async_call_inv) (simp_all add: assms typed_call_def keeps)
  then show ?thesis
    using assms container_tasks_inv [OF assms(2)]
    by (cases t) (auto simp: keeps intro: cleanup_trashed_inv)
qed

lemma async_step_inv:
  assumes "env_ok w env" "node_inv w s"
  shows "async_step w env res s = Some s' \<Longrightarrow> node_inv w s'"
    and "io_step w env res s = Some s' \<Longrightarrow> node_inv w s'"
  using assms
  by (auto simp: async_step_def io_step_def scheduler_run_def oinv_def [symmetric]
      dest!: run_task_inv [OF assms(1), rotated] split: list.splits)

lemma Advance_inv:
  assumes "env_ok w env" "node_inv w s"
  shows "AdvanceTopLevelExecutorTask w env res s = Some r \<Longrightarrow> oinv w r"
    and "AdvanceEntityTask w env res eid s = Some r \<Longrightarrow> oinv w r"
    and "AdvanceGrapeTask w env res gid s = Some r \<Longrightarrow> oinv w r"
proof -
  have bind: "oinv w r \<Longrightarrow> oinv w (obind r (\<lambda>_. Ret True))" for r :: "(node, unit) outcome"
    by (rule oinv_bind) simp_all
  have e: "node_inv w (snd (entity_PollEngineTask eid s))" and g: "node_inv w (snd (grape_PollEngineTask gid s))"
    using assms(2) by (simp_all add: keeps)
  show "AdvanceTopLevelExecutorTask w env res s = Some r \<Longrightarrow> oinv w r"
    using assms by (auto simp: AdvanceTopLevelExecutorTask_def PollEngineTask_def intro!: bind
        dest!: run_task_inv [OF assms(1), rotated] split: list.splits)
  show "AdvanceEntityTask w env res eid s = Some r \<Longrightarrow> oinv w r"
    using e by (auto simp: AdvanceEntityTask_def intro!: bind
        dest!: run_task_inv [OF assms(1), rotated] split: prod.splits option.splits)
  show "AdvanceGrapeTask w env res gid s = Some r \<Longrightarrow> oinv w r"
    using g by (auto simp: AdvanceGrapeTask_def intro!: bind
        dest!: run_task_inv [OF assms(1), rotated] split: prod.splits option.splits)
qed

lemma ret_unit_inv: "oinv w r \<Longrightarrow> oinv w (ret_unit r)"
  unfolding ret_unit_def by (rule oinv_bind) simp_all

lemma ret_value_inv: "oinv w r \<Longrightarrow> oinv w (obind r (\<lambda>a. Ret (f a)))"
  by (rule oinv_bind) simp_all

lemmas exec_inv = ret_unit_inv ret_value_inv

lemma exec_container_inv: "node_inv w s \<Longrightarrow> oinv w (exec_container w m xs s)"
  by (simp add: exec_container_def exec_inv keeps)

lemma exec_grape_inv:
  assumes "node_inv w s"
  shows "oinv w (exec_grape w gid m xs s)"
  using assms
  by (simp add: exec_grape_def ret_bool_def case_prod_unfold Let_def Grape_SubscribeToContainer_def
      Grape_UnsubscribeFromContainer_def exec_inv keeps split: option.split)

lemma exec_peer_inv:
  assumes "env_ok w env" "node_inv w s"
  shows "oinv w (exec_peer w env m xs s)"
proof -
  have connect: "oinv w (case ForceConnectToNode env gid s of Some r \<Rightarrow> ret_bool r | None \<Rightarrow> Ret (JBool False) s)" for gid
    using ForceConnect_inv [OF assms] assms(2) by (simp add: ret_bool_def split: option.split)
  show ?thesis using assms(2) by (simp add: exec_peer_def connect ret_bool_def exec_inv keeps)
qed

lemma run_method_inv:
  assumes "env_ok w env" "node_inv w s"
  shows "oinv w (run_method w env d xs s)"
  using assms
  by (cases d) (simp_all add: run_method_def exec_container_inv exec_grape_inv exec_peer_inv keeps split: option.split)

lemma exec_delegate_inv: "env_ok w env \<Longrightarrow> node_inv w s \<Longrightarrow> oinv w (exec_delegate w env d j s)"
  by (simp add: exec_delegate_def with_args_def run_method_inv split: sum.split)

text \<open>What a method returns has the type that its declaration says.\<close>

lemma rpc_name_eq:
  "rpc_name c m = rpc_name c m' \<longleftrightarrow> m = m'"
  "2 \<le> length c \<Longrightarrow> 2 \<le> length c' \<Longrightarrow> take 2 c \<noteq> take 2 c' \<Longrightarrow> rpc_name c m \<noteq> rpc_name c' m'"
proof -
  show "rpc_name c m = rpc_name c m' \<longleftrightarrow> m = m'" by (simp add: rpc_name_def)
  assume c: "2 \<le> length c" "2 \<le> length c'" "take 2 c \<noteq> take 2 c'"
  then have "take 2 (rpc_name c m) = take 2 c" "take 2 (rpc_name c' m') = take 2 c'" by (simp_all add: rpc_name_def)
  with c(3) show "rpc_name c m \<noteq> rpc_name c' m'" by metis
qed

lemma method_types_of_class:
  "method_type (rpc_name ''Container'' m) = Some ty \<Longrightarrow> (m, ty) \<in> set [(''TakeAuthority'', 1, VoidResult),
     (''DropAuthority'', 1, VoidResult), (''DeleteEntity'', 2, VoidResult)]"
  "method_type (rpc_name ''Grape'' m) = Some ty \<Longrightarrow> (m, ty) \<in> set [(''RPCHandler'', 2, VoidResult),
     (''GetExistingEntities'', 1, MapResult), (''GetExistingOwnedContainers'', 0, ListResult),
     (''SubscribeToContainer'', 2, BoolResult), (''UnsubscribeFromContainer'', 2, BoolResult),
     (''ProxyTakeAuthority'', 3, BoolResult), (''RequestClientDisconnect'', 1, BoolResult), (''Ping'', 0, BoolResult),
     (''CMIInstantiate'', 4, VoidResult), (''ExecClientDisconnect'', 2, BoolResult)]"
  "method_type (rpc_name ''PeerService'' m) = Some ty \<Longrightarrow> (m, ty) \<in> set [(''ForceConnectToNode'', 1, BoolResult),
     (''SubscribeClientToContainer'', 2, BoolResult), (''UnsubscribeClientFromContainer'', 1, BoolResult),
     (''Ping'', 0, BoolResult), (''AssignGrape'', 1, BoolResult), (''RequestSpawnPosition'', 1, StringResult),
     (''AcceptNewClient'', 2, BoolResult), (''RPCHandler'', 2, VoidResult)]"
  "method_type (rpc_name ''Entity'' m) = Some ty \<Longrightarrow> ty = (2, VoidResult)"
  by (simp_all add: method_type_def container_types_def grape_types_def peer_types_def entity_types_def global_types_def
      rpc_name_eq split: if_splits)

lemma de_strings_texts [simp]: "de_strings (map JStr xs) = Inr xs"
  by (induction xs) simp_all

lemma fits_simps [simp]:
  "fits VoidResult JNull" "fits BoolResult (JBool b)" "fits StringResult (JStr x)" "fits ListResult (JArr (map JStr xs))"
  "fits MapResult (map_json m)"
proof -
  have "map snd (map (\<lambda>(k, v). (k, JStr v)) m) = map JStr (map snd m)" by (simp add: case_prod_unfold)
  then show "fits MapResult (map_json m)" by (simp add: fits_def map_json_def del: map_map)
qed (simp_all add: fits_def)

lemma ret_fits:
  "ret_bool r = Ret v s \<Longrightarrow> fits BoolResult v" "ret_unit r' = Ret v s \<Longrightarrow> fits VoidResult v"
  "obind rb (\<lambda>b. Ret (JBool b)) = Ret v s \<Longrightarrow> fits BoolResult v"
  "obind rs (\<lambda>x. Ret (JStr x)) = Ret v s \<Longrightarrow> fits StringResult v"
  by (auto simp: ret_bool_def, cases r', auto simp: ret_unit_def, cases rb, auto, cases rs, auto)

lemma run_method_fits:
  assumes "method_type (delegate_name d) = Some (n, t)" "run_method w env d xs s = Ret v s'"
  shows "fits t v"
proof (cases d)
  case (ContainerMethod cid m)
  then show ?thesis using method_types_of_class(1) [of m "(n, t)"] assms
    by (auto simp: run_method_def exec_container_def dest: ret_fits)
next
  case (GrapeMethod gid m)
  then show ?thesis using method_types_of_class(2) [of m "(n, t)"] assms
    by (auto simp: run_method_def exec_grape_def Let_def case_prod_unfold dest: ret_fits)
next
  case (PeerMethod m)
  then show ?thesis using method_types_of_class(3) [of m "(n, t)"] assms
    by (auto simp: run_method_def exec_peer_def dest: ret_fits split: option.splits)
next
  case (EntityMethod eid m)
  then show ?thesis using method_types_of_class(4) [of m "(n, t)"] assms by (auto simp: run_method_def)
next
  case GlobalMethod
  then show ?thesis using assms by (auto simp: run_method_def)
qed

lemma exec_delegate_ok: "env_ok w env \<Longrightarrow> handler_ok w (exec_delegate w env)"
  unfolding handler_ok_def
  using exec_delegate_inv run_method_fits
  by (auto simp: exec_delegate_def with_args_def split: sum.splits)

lemma receive_request_inv:
  assumes "env_ok w env" "node_inv w s" "receive_request w env scope req s = Some s'"
  shows "node_inv w s'"
proof -
  have "s' = s \<or> s' = try_handle_request w (exec_delegate w env) scope req s"
    using assms(3) by (auto simp: receive_request_def split: option.splits prod.splits bool.splits if_splits)
  moreover have "node_inv w (try_handle_request w (exec_delegate w env) scope req s)"
    by (rule try_handle_inv [OF assms(2) exec_delegate_ok [OF assms(1)]])
  ultimately show ?thesis using assms(2) by auto
qed

end
