(* ===== verification/Writers.thy ===== *)
theory Writers
  imports Streams "HOL-Library.Multiset"
begin

text \<open>
  Outgoing streams: \<open>WriterStream\<close>, and \<open>WriterStreamPool\<close>, which keeps one stream for a topic.
  The streams of a pool live in a store, because the entries of the pool and the tasks that
  wait for a stream share them. A use of a null pointer or of a freed stream is \<open>None\<close>.
\<close>

section \<open>A stream\<close>

text \<open>
  The producer is missing until the broker answers; it is \<open>Some ok\<close> after that, where \<open>ok\<close> says
  whether the broker created it. \<open>ws_sent\<close> are the requests handed to the producer.
\<close>

record 'r writer =
  ws_producer :: "bool option"
  ws_ready :: bool
  ws_pending :: int
  ws_sent :: "'r list"

definition new_writer :: "'r writer" where
  "new_writer = \<lparr>ws_producer = None, ws_ready = False, ws_pending = 0, ws_sent = []\<rparr>"

text \<open>
  The continuation of \<open>Open\<close>: whether it calls \<open>onConnectError\<close>, if there is such a handler;
  without one a failed producer makes the stream ready.
\<close>

definition open_result :: "bool \<Rightarrow> bool \<Rightarrow> 'r writer \<Rightarrow> bool \<times> 'r writer" where
  "open_result ok has_handler s =
     (if \<not> ok \<and> has_handler then (True, s) else (False, s\<lparr>ws_producer := Some ok, ws_ready := True\<rparr>))"

definition stream_Write :: "bool \<Rightarrow> 'r \<Rightarrow> 'r writer \<Rightarrow> 'r writer option" where
  "stream_Write serialized req s =
     (if \<not> serialized then Some s
      else (case ws_producer s of
              None \<Rightarrow> None
            | Some _ \<Rightarrow> Some (s\<lparr>ws_pending := ws_pending s + 1, ws_sent := ws_sent s @ [req]\<rparr>)))"

definition delivered :: "'r writer \<Rightarrow> 'r writer" where
  "delivered s = s\<lparr>ws_pending := ws_pending s - 1\<rparr>"

text \<open>\<open>HasPending\<close> compares the pointer to the counter, here \<open>ptr\<close>.\<close>

definition HasPending :: "nat \<Rightarrow> 'r writer \<Rightarrow> bool" where
  "HasPending ptr s \<longleftrightarrow> ptr > 0"

section \<open>The pool\<close>

text \<open>
  A stream of a pool has the request that its \<open>onReady\<close> writes; the entry of a topic has the
  stream and the time of the last use in nanoseconds; an I/O task has the stream it waits for
  and the request it writes then.
\<close>

record 'r cell =
  ce_writer :: "'r writer"
  ce_first :: "'r option"

record pool_entry =
  pe_cell :: nat
  pe_last_used :: int

record 'r writer_pool =
  wp_streams :: "(string, pool_entry) hmap"
  wp_cells :: "'r cell list"
  wp_tasks :: "(nat \<times> 'r) list"

definition new_writer_pool :: "'r writer_pool" where
  "new_writer_pool = \<lparr>wp_streams = [], wp_cells = [], wp_tasks = []\<rparr>"

definition cell_write :: "nat \<Rightarrow> 'r \<Rightarrow> 'r writer_pool \<Rightarrow> 'r writer_pool option" where
  "cell_write c req p =
     map_option (\<lambda>s. p\<lparr>wp_cells := (wp_cells p)[c := (wp_cells p ! c)\<lparr>ce_writer := s\<rparr>]\<rparr>)
       (stream_Write True req (ce_writer (wp_cells p ! c)))"

text \<open>
  \<open>WriterStreamPool::Write\<close> at time \<open>now\<close>. The time of the last use is stored in a copy of the
  entry.
\<close>

definition pool_Write :: "int \<Rightarrow> string \<Rightarrow> 'r \<Rightarrow> 'r writer_pool \<Rightarrow> 'r writer_pool option" where
  "pool_Write now topic req p =
     (case map_of (wp_streams p) topic of
        None \<Rightarrow>
          Some (p\<lparr>wp_cells := wp_cells p @ [\<lparr>ce_writer = new_writer, ce_first = Some req\<rparr>],
                  wp_streams := hput topic \<lparr>pe_cell = length (wp_cells p), pe_last_used = now\<rparr> (wp_streams p)\<rparr>)
      | Some entry \<Rightarrow>
          if \<not> ws_ready (ce_writer (wp_cells p ! pe_cell entry))
          then Some (p\<lparr>wp_tasks := wp_tasks p @ [(pe_cell entry, req)]\<rparr>)
          else cell_write (pe_cell entry) req p)"

text \<open>A stream is alive as long as an entry or a task has it.\<close>

definition alive :: "nat \<Rightarrow> 'r writer_pool \<Rightarrow> bool" where
  "alive c p \<longleftrightarrow> c \<in> set (map (\<lambda>e. pe_cell (snd e)) (wp_streams p)) \<or> c \<in> set (map fst (wp_tasks p))"

text \<open>
  The broker answers for stream \<open>c\<close>: the continuation of \<open>Open\<close> uses the stream through a plain
  pointer. It makes the stream ready, and then calls \<open>onReady\<close>, which writes the first request;
  other threads can run in between.
\<close>

definition pool_opened :: "nat \<Rightarrow> bool \<Rightarrow> 'r writer_pool \<Rightarrow> 'r writer_pool option" where
  "pool_opened c ok p =
     (if \<not> alive c p then None
      else Some (p\<lparr>wp_cells := (wp_cells p)[c := (wp_cells p ! c)
                       \<lparr>ce_writer := snd (open_result ok False (ce_writer (wp_cells p ! c)))\<rparr>]\<rparr>))"

definition pool_first :: "nat \<Rightarrow> 'r writer_pool \<Rightarrow> 'r writer_pool option" where
  "pool_first c p =
     (case ce_first (wp_cells p ! c) of
        None \<Rightarrow> Some p
      | Some req \<Rightarrow> if \<not> alive c p then None
          else cell_write c req (p\<lparr>wp_cells := (wp_cells p)[c := (wp_cells p ! c)\<lparr>ce_first := None\<rparr>]\<rparr>))"

text \<open>The I/O task at position \<open>i\<close>: it waits in a loop until its stream is ready.\<close>

definition pool_io :: "nat \<Rightarrow> 'r writer_pool \<Rightarrow> 'r writer_pool option" where
  "pool_io i p =
     (let (c, req) = wp_tasks p ! i
      in if \<not> ws_ready (ce_writer (wp_cells p ! c)) then Some p
         else cell_write c req (p\<lparr>wp_tasks := take i (wp_tasks p) @ drop (Suc i) (wp_tasks p)\<rparr>))"

text \<open>One round of the cleanup thread; \<open>duration_cast\<close> to milliseconds truncates.\<close>

definition pool_idle_cleanup :: "int \<Rightarrow> int \<Rightarrow> 'r writer_pool \<Rightarrow> 'r writer_pool" where
  "pool_idle_cleanup idle_ms now p =
     p\<lparr>wp_streams := filter (\<lambda>e. \<not> (now - pe_last_used (snd e)) div 1000000 > idle_ms) (wp_streams p)\<rparr>"

section \<open>Runs\<close>

text \<open>
  What happens to a pool, in any order: writes, answers of the broker, the first request of a
  ready stream, tasks, rounds of the cleanup. A run ends in nothing at an undefined use.
\<close>

datatype 'r pool_action = WriteTo int string 'r | Opened nat bool | First nat | Task nat | Idle int int

fun pool_possible :: "'r pool_action \<Rightarrow> 'r writer_pool \<Rightarrow> bool" where
  "pool_possible (WriteTo now topic req) p \<longleftrightarrow> True"
| "pool_possible (Opened c ok) p \<longleftrightarrow> c < length (wp_cells p) \<and> ws_producer (ce_writer (wp_cells p ! c)) = None"
| "pool_possible (First c) p \<longleftrightarrow> c < length (wp_cells p) \<and> ws_ready (ce_writer (wp_cells p ! c))"
| "pool_possible (Task i) p \<longleftrightarrow> i < length (wp_tasks p)"
| "pool_possible (Idle idle_ms now) p \<longleftrightarrow> True"

fun pool_act :: "'r pool_action \<Rightarrow> 'r writer_pool \<Rightarrow> 'r writer_pool option" where
  "pool_act (WriteTo now topic req) p = pool_Write now topic req p"
| "pool_act (Opened c ok) p = pool_opened c ok p"
| "pool_act (First c) p = pool_first c p"
| "pool_act (Task i) p = pool_io i p"
| "pool_act (Idle idle_ms now) p = Some (pool_idle_cleanup idle_ms now p)"

fun pool_run :: "'r pool_action list \<Rightarrow> 'r writer_pool \<Rightarrow> 'r writer_pool option" where
  "pool_run [] p = Some p"
| "pool_run (a # as) p =
     (if pool_possible a p then (case pool_act a p of None \<Rightarrow> None | Some p' \<Rightarrow> pool_run as p') else None)"

fun requested :: "'r pool_action list \<Rightarrow> 'r list" where
  "requested [] = []"
| "requested (WriteTo now topic req # as) = req # requested as"
| "requested (a # as) = requested as"

section \<open>The pool is well-formed\<close>

text \<open>Entries and tasks refer to streams of the store, and a ready stream has a producer.\<close>

definition pool_inv :: "'r writer_pool \<Rightarrow> bool" where
  "pool_inv p \<longleftrightarrow> distinct (hkeys (wp_streams p)) \<and>
     (\<forall>topic e. map_of (wp_streams p) topic = Some e \<longrightarrow> pe_cell e < length (wp_cells p)) \<and>
     (\<forall>t \<in> set (wp_tasks p). fst t < length (wp_cells p)) \<and>
     (\<forall>c < length (wp_cells p). ws_ready (ce_writer (wp_cells p ! c)) \<longrightarrow> ws_producer (ce_writer (wp_cells p ! c)) \<noteq> None)"

lemma pool_invD:
  assumes "pool_inv p"
  shows "distinct (hkeys (wp_streams p))" "map_of (wp_streams p) topic = Some e \<Longrightarrow> pe_cell e < length (wp_cells p)"
    "i < length (wp_tasks p) \<Longrightarrow> fst (wp_tasks p ! i) < length (wp_cells p)"
    "c < length (wp_cells p) \<Longrightarrow> ws_ready (ce_writer (wp_cells p ! c)) \<Longrightarrow> ws_producer (ce_writer (wp_cells p ! c)) \<noteq> None"
  using assms by (auto simp: pool_inv_def dest: map_of_SomeD)

text \<open>An update of one stream that keeps it ready with a producer.\<close>

lemma pool_inv_cell:
  assumes "pool_inv p" "set ts \<subseteq> set (wp_tasks p)"
    and "ws_ready (ce_writer x) \<Longrightarrow> ws_producer (ce_writer x) \<noteq> None"
  shows "pool_inv (p\<lparr>wp_tasks := ts, wp_cells := (wp_cells p)[c := x]\<rparr>)"
proof -
  have "ws_producer (ce_writer ((wp_cells p)[c := x] ! k)) \<noteq> None"
    if "k < length (wp_cells p)" "ws_ready (ce_writer ((wp_cells p)[c := x] ! k))" for k
    using that assms(1,3) by (cases "c = k") (auto simp: pool_inv_def)
  then show ?thesis using assms(1,2) by (auto simp: pool_inv_def)
qed

lemma cell_write_ready:
  assumes "ws_producer (ce_writer (wp_cells p ! c)) \<noteq> None"
  shows "cell_write c req p = Some (p\<lparr>wp_cells := (wp_cells p)[c := (wp_cells p ! c)
    \<lparr>ce_writer := (ce_writer (wp_cells p ! c))\<lparr>ws_pending := ws_pending (ce_writer (wp_cells p ! c)) + 1,
       ws_sent := ws_sent (ce_writer (wp_cells p ! c)) @ [req]\<rparr>\<rparr>]\<rparr>)"
  using assms by (auto simp: cell_write_def stream_Write_def)

lemma cell_write_defined: "ws_producer (ce_writer (wp_cells p ! c)) \<noteq> None \<Longrightarrow> cell_write c req p \<noteq> None"
  by (simp add: cell_write_ready)

text \<open>The requests of a stream, written or not, and those of a pool.\<close>

definition cell_requests :: "'r cell \<Rightarrow> 'r multiset" where
  "cell_requests ce = mset (ws_sent (ce_writer ce)) + (case ce_first ce of None \<Rightarrow> {#} | Some r \<Rightarrow> {#r#})"

definition pool_requests :: "'r writer_pool \<Rightarrow> 'r multiset" where
  "pool_requests p = sum_list (map cell_requests (wp_cells p)) + mset (map snd (wp_tasks p))"

lemma sum_list_map_update:
  fixes f :: "'a \<Rightarrow> 'b :: comm_monoid_add"
  assumes "i < length xs"
  shows "sum_list (map f (xs[i := y])) + f (xs ! i) = sum_list (map f xs) + f y"
  using assms
proof (induction xs arbitrary: i)
  case (Cons x xs)
  then show ?case by (cases i) (simp_all add: ac_simps)
qed simp

lemma cells_update:
  assumes "c < length (wp_cells p)" "cell_requests y = cell_requests (wp_cells p ! c) + d"
  shows "sum_list (map cell_requests ((wp_cells p)[c := y])) = sum_list (map cell_requests (wp_cells p)) + d"
  using sum_list_map_update [OF assms(1), of cell_requests y] assms(2) by (simp add: ac_simps)

lemma mset_remove_task:
  assumes "i < length xs"
  shows "add_mset (f (xs ! i)) (mset (map f (take i xs @ drop (Suc i) xs))) = mset (map f xs)"
proof -
  have "mset (map f xs) = mset (map f (take i xs @ xs ! i # drop (Suc i) xs))"
    using id_take_nth_drop [OF assms] by simp
  then show ?thesis by simp
qed

section \<open>Every step\<close>

lemma cell_write_effect:
  assumes "pool_inv p" "c < length (wp_cells p)" "ws_ready (ce_writer (wp_cells p ! c))" "cell_write c req p = Some p'"
  shows "pool_inv p' \<and> pool_requests p' = pool_requests p + {#req#} \<and> wp_streams p' = wp_streams p"
proof -
  let ?x = "(wp_cells p ! c)\<lparr>ce_writer := (ce_writer (wp_cells p ! c))
      \<lparr>ws_pending := ws_pending (ce_writer (wp_cells p ! c)) + 1, ws_sent := ws_sent (ce_writer (wp_cells p ! c)) @ [req]\<rparr>\<rparr>"
  have producer: "ws_producer (ce_writer (wp_cells p ! c)) \<noteq> None" by (rule pool_invD(4) [OF assms(1-3)])
  have p': "p' = p\<lparr>wp_cells := (wp_cells p)[c := ?x]\<rparr>"
    using assms(4) by (simp add: cell_write_ready [OF producer])
  have "pool_inv (p\<lparr>wp_tasks := wp_tasks p, wp_cells := (wp_cells p)[c := ?x]\<rparr>)"
    by (rule pool_inv_cell [OF assms(1)]) (use producer in simp_all)
  moreover have "sum_list (map cell_requests ((wp_cells p)[c := ?x])) = sum_list (map cell_requests (wp_cells p)) + {#req#}"
    by (rule cells_update [OF assms(2)]) (simp add: cell_requests_def)
  ultimately show ?thesis by (simp add: p' pool_requests_def)
qed

lemma pool_Write_effect:
  assumes "pool_inv p" "pool_Write now topic req p = Some p'"
  shows "pool_inv p' \<and> pool_requests p' = pool_requests p + {#req#}"
proof (cases "map_of (wp_streams p) topic")
  case None
  let ?n = "length (wp_cells p)"
  let ?new = "\<lparr>ce_writer = new_writer, ce_first = Some req\<rparr>"
  have p': "p' = p\<lparr>wp_cells := wp_cells p @ [?new], wp_streams := hput topic \<lparr>pe_cell = ?n, pe_last_used = now\<rparr> (wp_streams p)\<rparr>"
    using assms(2) None by (simp add: pool_Write_def)
  have "pe_cell e < Suc ?n" if "map_of (wp_streams p') t = Some e" for t e
    using that pool_invD(2) [OF assms(1), of t e] by (auto simp: p' hmap_simps split: if_splits)
  moreover have "\<forall>t \<in> set (wp_tasks p). fst t < Suc ?n" using assms(1) by (auto simp: pool_inv_def)
  moreover have "ws_producer (ce_writer (wp_cells p' ! c)) \<noteq> None"
    if "c < Suc ?n" "ws_ready (ce_writer (wp_cells p' ! c))" for c
    using that pool_invD(4) [OF assms(1)] by (auto simp: p' nth_append new_writer_def split: if_splits)
  moreover have "distinct (hkeys (wp_streams p'))" using pool_invD(1) [OF assms(1)] by (simp add: p')
  ultimately have "pool_inv p'" unfolding pool_inv_def by (simp add: p')
  then show ?thesis by (simp add: p' pool_requests_def cell_requests_def new_writer_def)
next
  case (Some e)
  note e = pool_invD(2) [OF assms(1) Some]
  show ?thesis
  proof (cases "ws_ready (ce_writer (wp_cells p ! pe_cell e))")
    case True
    then show ?thesis using cell_write_effect [OF assms(1) e True] assms(2) Some by (simp add: pool_Write_def)
  next
    case False
    then have p': "p' = p\<lparr>wp_tasks := wp_tasks p @ [(pe_cell e, req)]\<rparr>" using assms(2) Some by (simp add: pool_Write_def)
    have "pool_inv p'" using assms(1) e by (simp add: pool_inv_def p')
    then show ?thesis by (simp add: p' pool_requests_def)
  qed
qed

lemma pool_opened_effect:
  assumes "pool_inv p" "c < length (wp_cells p)" "pool_opened c ok p = Some p'"
  shows "pool_inv p' \<and> pool_requests p' = pool_requests p"
proof -
  let ?x = "(wp_cells p ! c)\<lparr>ce_writer := snd (open_result ok False (ce_writer (wp_cells p ! c)))\<rparr>"
  have p': "p' = p\<lparr>wp_tasks := wp_tasks p, wp_cells := (wp_cells p)[c := ?x]\<rparr>"
    using assms(3) by (auto simp: pool_opened_def split: if_splits)
  have "pool_inv p'" unfolding p' by (rule pool_inv_cell [OF assms(1)]) (simp_all add: open_result_def)
  moreover have "sum_list (map cell_requests ((wp_cells p)[c := ?x])) = sum_list (map cell_requests (wp_cells p)) + {#}"
    by (rule cells_update [OF assms(2)]) (simp add: cell_requests_def open_result_def)
  ultimately show ?thesis by (simp add: p' pool_requests_def)
qed

lemma pool_first_effect:
  assumes "pool_inv p" "c < length (wp_cells p)" "ws_ready (ce_writer (wp_cells p ! c))" "pool_first c p = Some p'"
  shows "pool_inv p' \<and> pool_requests p' = pool_requests p"
proof (cases "ce_first (wp_cells p ! c)")
  case (Some req)
  let ?x = "(wp_cells p ! c)\<lparr>ce_first := None\<rparr>"
  let ?q = "p\<lparr>wp_tasks := wp_tasks p, wp_cells := (wp_cells p)[c := ?x]\<rparr>"
  have inv: "pool_inv ?q"
    by (rule pool_inv_cell [OF assms(1) subset_refl]) (use pool_invD(4) [OF assms(1-3)] in simp)
  have "sum_list (map cell_requests ((wp_cells p)[c := ?x])) + cell_requests (wp_cells p ! c) =
      sum_list (map cell_requests (wp_cells p)) + cell_requests ?x"
    by (rule sum_list_map_update [OF assms(2)])
  then have requests: "pool_requests ?q + {#req#} = pool_requests p"
    by (simp add: pool_requests_def cell_requests_def Some)
  have "cell_write c req ?q = Some p'" using assms(4) Some by (auto simp: pool_first_def split: if_splits)
  from cell_write_effect [OF inv _ _ this] assms(2,3) requests show ?thesis by simp
qed (use assms in \<open>simp add: pool_first_def\<close>)

lemma pool_io_effect:
  assumes "pool_inv p" "i < length (wp_tasks p)" "pool_io i p = Some p'"
  shows "pool_inv p' \<and> pool_requests p' = pool_requests p"
proof -
  obtain c req where task: "wp_tasks p ! i = (c, req)" by (cases "wp_tasks p ! i")
  have c: "c < length (wp_cells p)" using pool_invD(3) [OF assms(1,2)] task by simp
  show ?thesis
  proof (cases "ws_ready (ce_writer (wp_cells p ! c))")
    case True
    let ?ts = "take i (wp_tasks p) @ drop (Suc i) (wp_tasks p)"
    have "pool_inv (p\<lparr>wp_tasks := ?ts, wp_cells := (wp_cells p)[c := wp_cells p ! c]\<rparr>)"
      by (rule pool_inv_cell [OF assms(1)]) (use set_take_subset set_drop_subset pool_invD(4) [OF assms(1) c True] in force)+
    then have inv: "pool_inv (p\<lparr>wp_tasks := ?ts\<rparr>)" by simp
    have requests: "pool_requests (p\<lparr>wp_tasks := ?ts\<rparr>) + {#req#} = pool_requests p"
      using mset_remove_task [OF assms(2), of snd] task by (simp add: pool_requests_def flip: add_mset_add_single)
    have "cell_write c req (p\<lparr>wp_tasks := ?ts\<rparr>) = Some p'" using assms(3) task True by (simp add: pool_io_def)
    from cell_write_effect [OF inv _ _ this] c True requests show ?thesis by simp
  qed (use assms task in \<open>simp add: pool_io_def\<close>)
qed

lemma map_of_idle:
  "distinct (hkeys m) \<Longrightarrow> map_of (filter (\<lambda>e. P (snd e)) m) k =
     (case map_of m k of None \<Rightarrow> None | Some e \<Rightarrow> if P e then Some e else None)"
proof (induction m)
  case (Cons x xs)
  then have "map_of xs (fst x) = None" by (simp add: map_of_eq_None_iff)
  with Cons show ?case by (cases "k = fst x") auto
qed simp

lemma pool_idle_effect:
  assumes "pool_inv p"
  shows "pool_inv (pool_idle_cleanup idle_ms now p) \<and> pool_requests (pool_idle_cleanup idle_ms now p) = pool_requests p"
proof -
  have "distinct (hkeys (filter P (wp_streams p)))" for P
    using pool_invD(1) [OF assms] by (simp add: distinct_map_filter)
  then show ?thesis using assms
    by (auto simp: pool_inv_def pool_idle_cleanup_def pool_requests_def split: option.splits if_splits
        simp: map_of_idle [of "wp_streams p" "\<lambda>e. \<not> (now - pe_last_used e) div 1000000 > idle_ms"])
qed

lemma pool_act_effect:
  assumes "pool_inv p" "pool_possible a p" "pool_act a p = Some p'"
  shows "pool_inv p' \<and> pool_requests p' = pool_requests p + mset (requested [a])"
  using assms
  by (cases a) (auto dest: pool_Write_effect pool_opened_effect pool_first_effect pool_io_effect simp: pool_idle_effect)

lemma pool_run_effect:
  "pool_run as p = Some p' \<Longrightarrow> pool_inv p \<Longrightarrow> pool_inv p' \<and> pool_requests p' = pool_requests p + mset (requested as)"
proof (induction as arbitrary: p)
  case (Cons a as)
  obtain q where q: "pool_possible a p" "pool_act a p = Some q" "pool_run as q = Some p'"
    using Cons.prems(1) by (auto split: if_splits option.splits)
  have "mset (requested (a # as)) = mset (requested [a]) + mset (requested as)" by (cases a) simp_all
  with pool_act_effect [OF Cons.prems(2) q(1,2)] Cons.IH [OF q(3)] show ?case by (simp add: ac_simps)
qed simp

lemma new_pool: "pool_inv new_writer_pool" "pool_requests new_writer_pool = {#}"
  by (simp_all add: pool_inv_def new_writer_pool_def pool_requests_def)

section \<open>Properties\<close>


text \<open>A pool whose two streams have all that was written, the second request of the first topic first.\<close>

definition demo_pool_run :: "string pool_action list" where
  "demo_pool_run = [WriteTo 0 ''t'' ''a'', WriteTo 1 ''t'' ''b'', Opened 0 True, Task 0, First 0, WriteTo 2 ''u'' ''c'']"


text \<open>
  The order of the requests for a topic is not kept: between the moment the stream is ready and
  its \<open>onReady\<close>, a task can write a later request.
\<close>

lemma pool_reorders:
  "\<exists>p. pool_run [WriteTo t0 topic a, WriteTo t1 topic b, Opened 0 True, Task 0, First 0] new_writer_pool = Some p \<and>
     ws_sent (ce_writer (wp_cells p ! 0)) = [b, a]"
  by (simp add: new_writer_pool_def pool_Write_def pool_opened_def alive_def open_result_def pool_io_def pool_first_def
      cell_write_def stream_Write_def new_writer_def hmap_simps)

text \<open>A request to a stream that is not open yet uses a null pointer.\<close>

lemma write_before_open: "stream_Write True req new_writer = None"
  by (simp add: stream_Write_def new_writer_def)

text \<open>A stream whose creation failed and that has no error handler counts as ready.\<close>

lemma failed_open_ready: "ws_ready (snd (open_result False False s)) \<and> \<not> fst (open_result False False s)"
  by (simp add: open_result_def)

fun is_idle :: "'r pool_action \<Rightarrow> bool" where
  "is_idle (Idle _ _) = True"
| "is_idle _ = False"

lemma cell_write_streams: "cell_write c req p = Some p' \<Longrightarrow> wp_streams p' = wp_streams p"
  by (auto simp: cell_write_def)

lemma pool_run_keeps:
  "pool_run as p = Some p' \<Longrightarrow> \<forall>a \<in> set as. \<not> is_idle a \<Longrightarrow> map_of (wp_streams p) topic = Some e \<Longrightarrow>
     map_of (wp_streams p') topic = Some e"
proof (induction as arbitrary: p)
  case (Cons a as)
  obtain q where q: "pool_act a p = Some q" "pool_run as q = Some p'"
    using Cons.prems(1) by (auto split: if_splits option.splits)
  have "map_of (wp_streams q) topic = Some e"
    using q(1) Cons.prems(2,3)
    by (cases a) (auto simp: pool_Write_def pool_opened_def pool_first_def pool_io_def case_prod_unfold Let_def hmap_simps
        dest!: cell_write_streams split: option.splits if_splits)
  with Cons.IH [OF q(2)] Cons.prems(2) show ?case by simp
qed simp

text \<open>A stream of the writer pool is evicted by its age, not by its idleness: however recently and
  often a topic was written, the cleanup drops its stream once more than the idle timeout has
  passed since the first write.\<close>
lemma pool_evicts_busy_stream:
  assumes "pool_run as new_writer_pool = Some p" "map_of (wp_streams p) topic = None"
    and "pool_run (WriteTo t0 topic req # bs) p = Some p'" "\<forall>b \<in> set bs. \<not> is_idle b"
    and "idle_ms < (now - t0) div 1000000"
  shows "map_of (wp_streams (pool_idle_cleanup idle_ms now p')) topic = None"
proof -
  obtain q where q: "pool_Write t0 topic req p = Some q" "pool_run bs q = Some p'"
    using assms(3) by (auto split: option.splits)
  have "map_of (wp_streams q) topic = Some \<lparr>pe_cell = length (wp_cells p), pe_last_used = t0\<rparr>"
    using q(1) assms(2) by (auto simp: pool_Write_def hmap_simps)
  from pool_run_keeps [OF q(2) assms(4) this]
  have kept: "map_of (wp_streams p') topic = Some \<lparr>pe_cell = length (wp_cells p), pe_last_used = t0\<rparr>" .
  have "pool_inv p" using pool_run_effect [OF assms(1) new_pool(1)] by simp
  with pool_run_effect [OF assms(3)] have "distinct (hkeys (wp_streams p'))" by (simp add: pool_invD(1))
  with kept assms(5) show ?thesis
    by (simp add: pool_idle_cleanup_def map_of_idle [of _ "\<lambda>e. \<not> (now - pe_last_used e) div 1000000 > idle_ms"])
qed

lemma pool_evicts_busy_stream_witness:
  "map_option (\<lambda>p. map_of (wp_streams (pool_idle_cleanup 10000 10001000000 p)) ''t'')
     (pool_run [WriteTo 0 ''t'' ''r1'', Opened 0 True, First 0, WriteTo 10000999999 ''t'' ''r2''] new_writer_pool) = Some None"
proof -
  let ?bs = "[Opened 0 True, First 0, WriteTo 10000999999 ''t'' ''r2'']"
  have "pool_run (WriteTo 0 ''t'' ''r1'' # ?bs) new_writer_pool \<noteq> None" by code_simp
  then obtain p where p: "pool_run (WriteTo 0 ''t'' ''r1'' # ?bs) new_writer_pool = Some p" by blast
  have "map_of (wp_streams (pool_idle_cleanup 10000 10001000000 p)) ''t'' = None"
    by (rule pool_evicts_busy_stream [of "[]" new_writer_pool _ 0 "''r1''" ?bs])
       (use p in \<open>simp_all add: new_writer_pool_def del: pool_run.simps(2)\<close>)
  with p show ?thesis by simp
qed

end
