(* ===== verification/Lifecycle.thy ===== *)
theory Lifecycle
  imports Grapes Services Writers
begin

text \<open>
  How the services of a process start and stop: the streams that a \<open>CelteService\<close> registers, the
  closing of a consumer, the clock with its reader, the upload worker of the ghost system, and
  where the configuration is read from.
\<close>

section \<open>The streams of a service\<close>

text \<open>
  Streams are shared: \<open>sv_cells\<close> is the store of the writer streams that the service made, and its
  registry has their positions. The holder of a stream keeps it when the registry drops it.
\<close>

record 'r service =
  sv_cells :: "'r writer list"
  sv_writers :: "(string, nat) hmap"
  sv_readers :: "reader list"

definition new_service :: "'r service" where
  "new_service = \<lparr>sv_cells = [], sv_writers = [], sv_readers = []\<rparr>"

definition GetWriterStream :: "string \<Rightarrow> 'r service \<Rightarrow> nat option" where
  "GetWriterStream topic sv = map_of (sv_writers sv) topic"

definition destroyWriterStream :: "string \<Rightarrow> 'r service \<Rightarrow> 'r service" where
  "destroyWriterStream topic sv = sv\<lparr>sv_writers := herase topic (sv_writers sv)\<rparr>"

definition destroyAllWriterStreams :: "'r service \<Rightarrow> 'r service" where
  "destroyAllWriterStreams sv = sv\<lparr>sv_writers := []\<rparr>"

text \<open>The new stream is registered before the broker is asked for its producer.\<close>

definition createWriterStream :: "string \<Rightarrow> 'r service \<Rightarrow> nat \<times> 'r service" where
  "createWriterStream topic sv =
     (length (sv_cells sv),
      sv\<lparr>sv_cells := sv_cells sv @ [new_writer], sv_writers := hput topic (length (sv_cells sv)) (sv_writers sv)\<rparr>)"

definition new_reader :: reader where
  "new_reader = \<lparr>rs_closed = False, rs_pending = 0, rs_acked = [], rs_handled = []\<rparr>"

definition service_reader :: "'r service \<Rightarrow> 'r service" where
  "service_reader sv = sv\<lparr>sv_readers := sv_readers sv @ [new_reader]\<rparr>"

definition service_stop :: "nat \<Rightarrow> (nat \<Rightarrow> int) \<Rightarrow> 'r service \<Rightarrow> 'r service option" where
  "service_stop ptr pending sv =
     map_option (\<lambda>rs. sv\<lparr>sv_readers := rs, sv_writers := []\<rparr>) (service_cleanup ptr pending (sv_readers sv))"

text \<open>
  Closing a stream at the broker: the consumer is unsubscribed, and closed only if that succeeded.
\<close>

datatype consumer_state = Subscribed | Unsubscribed | ConsumerClosed

definition consumer_shutdown :: "bool \<Rightarrow> bool \<Rightarrow> consumer_state" where
  "consumer_shutdown unsubscribe_ok close_ok =
     (if \<not> unsubscribe_ok then Subscribed else if close_ok then ConsumerClosed else Unsubscribed)"

text \<open>
  Every registered position is a stream of the store, under any sequence of creations and
  removals; a stream that is made again for a topic hides the old one, which its holders keep.
\<close>

definition service_ok :: "'r service \<Rightarrow> bool" where
  "service_ok sv \<longleftrightarrow> (\<forall>topic i. GetWriterStream topic sv = Some i \<longrightarrow> i < length (sv_cells sv))"

lemma service_ok_new [simp]: "service_ok new_service"
  by (simp add: service_ok_def new_service_def GetWriterStream_def)

lemma service_ok_keeps [intro]:
  "service_ok sv \<Longrightarrow> service_ok (snd (createWriterStream topic sv))"
  "service_ok sv \<Longrightarrow> service_ok (destroyWriterStream topic sv)"
  "service_ok (destroyAllWriterStreams sv)"
  "service_ok sv \<Longrightarrow> service_ok (service_reader sv)"
  "service_stop ptr pending sv = Some sv' \<Longrightarrow> service_ok sv'"
  by (auto simp: service_ok_def GetWriterStream_def createWriterStream_def destroyWriterStream_def
      destroyAllWriterStreams_def service_reader_def service_stop_def hmap_simps less_Suc_eq split: if_splits)

lemma created_stream:
  "GetWriterStream t (snd (createWriterStream topic sv)) = (if t = topic then Some (fst (createWriterStream topic sv))
     else GetWriterStream t sv)"
  "GetWriterStream t (destroyWriterStream topic sv) = (if t = topic then None else GetWriterStream t sv)"
  by (simp_all add: GetWriterStream_def createWriterStream_def destroyWriterStream_def hmap_simps)

lemma created_again:
  assumes "service_ok sv" "GetWriterStream topic sv = Some i"
  shows "fst (createWriterStream topic sv) \<noteq> i \<and>
    sv_cells (snd (createWriterStream topic sv)) ! i = sv_cells sv ! i"
  using assms by (auto simp: service_ok_def createWriterStream_def nth_append)

section \<open>The clock\<close>

text \<open>
  The readers of the clock with their topic and the name of their subscription. The I/O task of a
  reader subscribes it: \<open>res\<close> are the answers of the broker.
\<close>

record clock_reader =
  cr_topic :: string
  cr_subscription :: string
  cr_open :: bool
  cr_stream :: reader

definition clock_Start :: "string \<Rightarrow> clock_reader list \<Rightarrow> clock_reader list" where
  "clock_Start uuid rs =
     rs @ [\<lparr>cr_topic = global_clock, cr_subscription = uuid @ ''.'' @ global_clock, cr_open = False,
            cr_stream = new_reader\<rparr>]"

definition clock_opened :: "(nat \<Rightarrow> attempt) \<Rightarrow> nat \<Rightarrow> clock_reader list \<Rightarrow> clock_reader list option" where
  "clock_opened res i rs =
     map_option (\<lambda>(ok, _). if ok then rs[i := (rs ! i)\<lparr>cr_open := True\<rparr>] else rs) (reader_subscribe res)"

text \<open>\<open>Clock::Stop\<close> is the cleanup of the service; the counters of its readers are not null.\<close>

definition clock_Stop :: "clock_reader list \<Rightarrow> clock_reader list option" where
  "clock_Stop rs = map_option (\<lambda>_. []) (service_cleanup 1 (\<lambda>_. 0) (map cr_stream rs))"

lemma clock_Stop_returns: "clock_Stop rs = (if rs = [] then Some [] else None)"
proof (cases "rs = []")
  case False
  then have "service_cleanup 1 (\<lambda>_. 0) (map cr_stream rs) = None" 
    by (intro cleanup_never_returns) simp_all
  then show ?thesis using False by (simp add: clock_Stop_def)
qed (simp add: clock_Stop_def)

section \<open>The upload worker\<close>

text \<open>The pause between two rounds in milliseconds; a text that is no number gives 0.\<close>

definition replication_interval :: "(string \<Rightarrow> string option) \<Rightarrow> config \<Rightarrow> int" where
  "replication_interval env c = atoi (value_or ''100'' (config_get env c ''REPLICATION_INTERVAL''))"

text \<open>
  The thread of the worker: \<open>running k\<close> is the flag when round \<open>k\<close> looks at it, and \<open>env k\<close> what the
  other threads do while round \<open>k\<close> sleeps. The destructor clears the flag and joins the thread.
\<close>

partial_function (option) replicationWorker ::
  "(nat \<Rightarrow> bool) \<Rightarrow> environment \<Rightarrow> world \<Rightarrow> nat \<Rightarrow> node \<Rightarrow> node option" where
  "replicationWorker running env w k s =
     (if running k then replicationWorker running env w (Suc k) (upload_round w (env k s)) else Some s)"

declare replicationWorker.simps [code]

definition ghost_destroy :: "nat \<Rightarrow> environment \<Rightarrow> world \<Rightarrow> node \<Rightarrow> node option" where
  "ghost_destroy rounds env w s = replicationWorker (\<lambda>k. k < rounds) env w 0 s"

lemma replicationWorker_rounds:
  assumes "\<And>j. k \<le> j \<Longrightarrow> j < k + n \<Longrightarrow> running j" "\<not> running (k + n)"
  shows "replicationWorker running env w k s = Some (fold (\<lambda>j s. upload_round w (env j s)) [k..<k + n] s)"
  using assms
proof (induction n arbitrary: k s)
  case 0
  then show ?case by (subst replicationWorker.simps) simp
next
  case (Suc n)
  have "replicationWorker running env w (Suc k) u = Some (fold (\<lambda>j s. upload_round w (env j s)) [Suc k..<Suc k + n] u)" for u
    by (rule Suc.IH) (use Suc.prems in auto)
  moreover have "[k..<k + Suc n] = k # [Suc k..<Suc k + n]" by (simp add: upt_conv_Cons)
  ultimately show ?case using Suc.prems(1) [of k] by (subst replicationWorker.simps) simp
qed

text \<open>
  The destructor returns: the worker finishes the round in which the flag is cleared, and what was
  recorded while it slept is still uploaded.
\<close>

lemma ghost_destroy_returns:
  "ghost_destroy (Suc n) env w s =
     Some (upload_round w (env n (fold (\<lambda>j s. upload_round w (env j s)) [0..<n] s)))"
  unfolding ghost_destroy_def by (subst replicationWorker_rounds [of 0 "Suc n"]) simp_all

text \<open>The built-in default of the configuration hides the one of the worker.\<close>

lemma replication_default: "replication_interval env (new_config []) = 1000"
proof -
  have "config_get env (new_config []) ''REPLICATION_INTERVAL'' = Some ''1000''"
    by (simp add: config_get_precedence config_defaults_def)
  then show ?thesis unfolding replication_interval_def by (simp add: value_or_def) code_simp
qed

section \<open>The file of the configuration\<close>

text \<open>
  \<open>load\<close> is \<open>YAML::LoadFile\<close>: the sections of the file with their options. The constructor reads
  the file in the home directory, and a null pointer for the directory throws; \<open>GetYamlRoot\<close>, which
  looks at a variable first and wants the section to exist, is not called.
\<close>

definition home_file :: "string \<Rightarrow> string" where
  "home_file home = home @ ''/.celte.yaml''"

definition GetYamlRoot ::
  "(string \<Rightarrow> string option) \<Rightarrow> (string \<Rightarrow> exn + (string, 'y) hmap) \<Rightarrow> exn + (string, 'y) hmap" where
  "GetYamlRoot env load =
     (case (case env ''CELTE_CONFIG'' of
              Some path \<Rightarrow> if path \<noteq> [] then Inr path
                else (case env ''HOME'' of None \<Rightarrow> Inl (RuntimeError ''HOME environment variable not set'')
                      | Some home \<Rightarrow> Inr (home_file home))
            | None \<Rightarrow> (case env ''HOME'' of None \<Rightarrow> Inl (RuntimeError ''HOME environment variable not set'')
                      | Some home \<Rightarrow> Inr (home_file home))) of
        Inl e \<Rightarrow> Inl e
      | Inr path \<Rightarrow>
          (case load path of
             Inl e \<Rightarrow> Inl e
           | Inr root \<Rightarrow> if hcontains root ''celte'' then Inr root
               else Inl (RuntimeError (''Section '' @ [CHR 0x27] @ ''celte'' @ [CHR 0x27] @ '' not found in YAML''))))"

definition load_config ::
  "(string \<Rightarrow> string option) \<Rightarrow> (string \<Rightarrow> exn + (string, (string \<times> string) list) hmap) \<Rightarrow> exn + config" where
  "load_config env load =
     (case env ''HOME'' of
        None \<Rightarrow> Inl (LogicError ''basic_string: construction from null is not valid'')
      | Some home \<Rightarrow>
          (case load (home_file home) of
             Inl e \<Rightarrow> Inl e
           | Inr root \<Rightarrow> Inr (new_config (case map_of root ''celte'' of None \<Rightarrow> [] | Some entries \<Rightarrow> entries))))"

text \<open>A file that \<open>CELTE_CONFIG\<close> names does not change what the process reads.\<close>

lemma config_ignores_variable:
  "load_config (env(''CELTE_CONFIG'' := v)) load = load_config env load"
  by (simp add: load_config_def)

section \<open>Operations that are not implemented\<close>

text \<open>
  The scoped calls of the runtime and the disconnection of a client print that they are not
  implemented: nothing is sent, the callback of the asynchronous call is not called, and the answer
  of the call that has one is empty.
\<close>

definition RegisterCustomGlobalRPC :: "string \<Rightarrow> nat \<Rightarrow> node \<Rightarrow> node" where
  "RegisterCustomGlobalRPC name f s = s"

definition CallScopedRPCNoRetVal :: "string \<Rightarrow> string \<Rightarrow> string \<Rightarrow> node \<Rightarrow> node" where
  "CallScopedRPCNoRetVal scope name args s = s"

definition CallScopedRPC :: "string \<Rightarrow> string \<Rightarrow> string \<Rightarrow> node \<Rightarrow> string \<times> node" where
  "CallScopedRPC scope name args s = ([], s)"

definition CallScopedRPCAsync :: "string \<Rightarrow> string \<Rightarrow> string \<Rightarrow> nat \<Rightarrow> node \<Rightarrow> node" where
  "CallScopedRPCAsync scope name args callback s = s"

definition DisconnectClient :: "string \<Rightarrow> node \<Rightarrow> node" where
  "DisconnectClient clientId s = s"

end
