(* ===== verification/Logging.thy ===== *)
theory Logging
  imports Services
begin

text \<open>
  The logger and its connection to Redis (\<open>Logger\<close>): the tasks that wait for the Redis
  thread, the thread itself as a machine that runs one task per step, and the reading and
  writing of key-value pairs through the same queue. The server is a function \<open>send\<close> from a
  command and a database to a reply and a database; the theorems name what they need of it.
\<close>

section \<open>Redis\<close>

datatype redis_cmd = RPush string string | RSet string string | RGet string

text \<open>\<open>NoReply\<close> is a null reply; a reply of Redis has a string, which is empty for nil.\<close>

datatype reply = NoReply | Reply string

type_synonym 'db redis = "redis_cmd \<Rightarrow> 'db \<Rightarrow> reply \<times> 'db"

text \<open>The tasks: the captured variables; \<open>slot\<close> stands for the result on the stack of the caller.\<close>

datatype redis_task =
    LogTask string string
  | SetTask string string
  | GetTask string nat
  | AsyncTask string nat

text \<open>
  The state of the logger. \<open>lg_wait\<close> is the slot and the callback that the Redis thread itself
  waits for, \<open>lg_session\<close> the session id of the configuration, \<open>lg_errors\<close> what is printed on
  the error stream.
\<close>

record 'db logger =
  lg_uuid :: string
  lg_key :: string
  lg_session :: string
  lg_running :: bool
  lg_queue :: "redis_task list"
  lg_db :: 'db
  lg_results :: "(nat, string option) hmap"
  lg_slots :: nat
  lg_called :: "(nat \<times> bool \<times> string) list"
  lg_wait :: "(nat \<times> nat) option"
  lg_errors :: "string list"

text \<open>
  The constructor, after \<open>createRedisContext\<close> has succeeded: the context that was given the key
  of the log list is replaced by a new one.
\<close>

definition new_logger :: "string \<Rightarrow> string \<Rightarrow> 'db \<Rightarrow> 'db logger" where
  "new_logger uuid session db =
     \<lparr>lg_uuid = uuid, lg_key = [], lg_session = session, lg_running = True, lg_queue = [], lg_db = db,
      lg_results = [], lg_slots = 0, lg_called = [], lg_wait = None, lg_errors = []\<rparr>"

text \<open>
  The whole constructor, with the environment of the process and what \<open>redisConnect\<close> gives for a
  host and a port: the database behind the connection, or nothing, and then the process exits.
  The key is stored in the context that is thrown away.
\<close>

datatype 'db logger_start = LoggerThrows exn | LoggerExits | LoggerReady "'db logger"

definition start_logger ::
  "(string \<Rightarrow> string option) \<Rightarrow> config \<Rightarrow> string \<Rightarrow> (string \<Rightarrow> int \<Rightarrow> 'db option) \<Rightarrow> 'db logger_start" where
  "start_logger env c uuid connect =
     (case stoi (value_or ''6379'' (config_get env c ''CELTE_REDIS_PORT'')) of
        Inl e \<Rightarrow> LoggerThrows e
      | Inr port \<Rightarrow>
          (case connect (value_or ''localhost'' (config_get env c ''CELTE_REDIS_HOST'')) port of
             None \<Rightarrow> LoggerExits
           | Some db \<Rightarrow> LoggerReady (new_logger uuid (cfg_session c) db)))"

section \<open>Operations\<close>

definition pushTask :: "redis_task \<Rightarrow> 'db logger \<Rightarrow> 'db logger" where
  "pushTask t s = s\<lparr>lg_queue := lg_queue s @ [t]\<rparr>"

datatype log_level = DEBUG | WARNING | ERROR | FATAL

fun logLevelToString :: "log_level \<Rightarrow> string" where
  "logLevelToString DEBUG = ''DEBUG''"
| "logLevelToString WARNING = ''WARNING''"
| "logLevelToString ERROR = ''ERROR''"
| "logLevelToString FATAL = ''FATAL''"

text \<open>\<open>now\<close> is the text that \<open>localtime\<close> and \<open>strftime\<close> give for the unified time.\<close>

definition Log :: "log_level \<Rightarrow> string \<Rightarrow> string \<Rightarrow> 'db logger \<Rightarrow> 'db logger" where
  "Log level now message s =
     pushTask (LogTask (lg_key s)
       (now @ '' ['' @ logLevelToString level @ ''] '' @ lg_uuid s @ '' '' @ message)) s"

definition SetRedisKVP :: "string \<Rightarrow> string \<Rightarrow> 'db logger \<Rightarrow> 'db logger" where
  "SetRedisKVP key value s = pushTask (SetTask key value) s"

text \<open>
  \<open>GetRedisKVP\<close> up to the point where its thread waits: the slot it waits for. It returns when
  the slot has a result.
\<close>

definition GetRedisKVP :: "string \<Rightarrow> 'db logger \<Rightarrow> nat \<times> 'db logger" where
  "GetRedisKVP key s = (lg_slots s, pushTask (GetTask key (lg_slots s)) (s\<lparr>lg_slots := Suc (lg_slots s)\<rparr>))"

text \<open>
  The whole call: it waits for its result; \<open>env k\<close> is what the other threads do to the logger
  during round \<open>k\<close> of the wait.
\<close>

partial_function (option) wait_result ::
  "(nat \<Rightarrow> 'db logger \<Rightarrow> 'db logger) \<Rightarrow> nat \<Rightarrow> nat \<Rightarrow> 'db logger \<Rightarrow> (string option \<times> 'db logger) option" where
  "wait_result env k slot s =
     (case map_of (lg_results s) slot of
        Some r \<Rightarrow> Some (r, s)
      | None \<Rightarrow> wait_result env (Suc k) slot (env k s))"

declare wait_result.simps [code]

definition GetRedisKVP_result ::
  "(nat \<Rightarrow> 'db logger \<Rightarrow> 'db logger) \<Rightarrow> string \<Rightarrow> 'db logger \<Rightarrow> (string option \<times> 'db logger) option" where
  "GetRedisKVP_result env key s = (let (slot, s1) = GetRedisKVP key s in wait_result env 0 slot s1)"

definition GetRedisKVPAsync :: "string \<Rightarrow> nat \<Rightarrow> 'db logger \<Rightarrow> 'db logger" where
  "GetRedisKVPAsync key callback s = pushTask (AsyncTask key callback) s"

text \<open>The destructor, before it joins the thread: what is still queued is never run.\<close>

definition logger_stop :: "'db logger \<Rightarrow> 'db logger" where
  "logger_stop s = s\<lparr>lg_running := False\<rparr>"

section \<open>The Redis thread\<close>

definition run_redis_task :: "'db redis \<Rightarrow> redis_task \<Rightarrow> 'db logger \<Rightarrow> 'db logger" where
  "run_redis_task send t s =
     (case t of
        LogTask key msg \<Rightarrow>
          (let (r, db) = send (RPush key msg) (lg_db s); s1 = s\<lparr>lg_db := db\<rparr>
           in if r = NoReply then s1\<lparr>lg_errors := lg_errors s1 @ [''Redis send error: '']\<rparr> else s1)
      | SetTask key value \<Rightarrow>
          (let (r, db) = send (RSet (lg_session s @ key) value) (lg_db s); s1 = s\<lparr>lg_db := db\<rparr>
           in if r = NoReply then s1\<lparr>lg_errors := lg_errors s1 @ [''Redis set kvp error: '']\<rparr> else s1)
      | GetTask key slot \<Rightarrow>
          (let (r, db) = send (RGet (lg_session s @ key)) (lg_db s); s1 = s\<lparr>lg_db := db\<rparr>
           in case r of
                NoReply \<Rightarrow> s1\<lparr>lg_errors := lg_errors s1 @ [''Redis get kvp error: ''],
                               lg_results := hput slot None (lg_results s1)\<rparr>
              | Reply v \<Rightarrow> s1\<lparr>lg_results := hput slot (Some v) (lg_results s1)\<rparr>)
      | AsyncTask key callback \<Rightarrow>
          (let (slot, s1) = GetRedisKVP key s in s1\<lparr>lg_wait := Some (slot, callback)\<rparr>))"

text \<open>
  A step of the thread: it goes on when the result it waits for is there, or else takes the
  next task. A thread that waits takes none.
\<close>

definition worker_step :: "'db redis \<Rightarrow> 'db logger \<Rightarrow> 'db logger" where
  "worker_step send s =
     (case lg_wait s of
        Some (slot, callback) \<Rightarrow>
          (case map_of (lg_results s) slot of
             None \<Rightarrow> s
           | Some None \<Rightarrow> s\<lparr>lg_wait := None, lg_called := lg_called s @ [(callback, False, [])]\<rparr>
           | Some (Some v) \<Rightarrow> s\<lparr>lg_wait := None, lg_called := lg_called s @ [(callback, True, v)]\<rparr>)
      | None \<Rightarrow>
          if \<not> lg_running s then s
          else (case lg_queue s of [] \<Rightarrow> s | t # ts \<Rightarrow> run_redis_task send t (s\<lparr>lg_queue := ts\<rparr>)))"

text \<open>What the program does with the logger: any thread pushes, the Redis thread works.\<close>

inductive logger_step :: "'db redis \<Rightarrow> 'db logger \<Rightarrow> 'db logger \<Rightarrow> bool" for send where
  log: "logger_step send s (Log level now message s)"
| set: "logger_step send s (SetRedisKVP key value s)"
| get: "logger_step send s (snd (GetRedisKVP key s))"
| async: "logger_step send s (GetRedisKVPAsync key callback s)"
| work: "logger_step send s (worker_step send s)"

inductive_cases logger_stepE: "logger_step send s s'"

section \<open>Reading what was written\<close>

text \<open>The tasks that leave the thread free, and the command of each of them.\<close>

fun is_async :: "redis_task \<Rightarrow> bool" where
  "is_async (AsyncTask k c) = True"
| "is_async _ = False"

fun cmd_of :: "string \<Rightarrow> redis_task \<Rightarrow> redis_cmd" where
  "cmd_of session (LogTask k m) = RPush k m"
| "cmd_of session (SetTask k v) = RSet (session @ k) v"
| "cmd_of session (GetTask k n) = RGet (session @ k)"
| "cmd_of session (AsyncTask k c) = RGet (session @ k)"

fun writes :: "string \<Rightarrow> redis_cmd \<Rightarrow> bool" where
  "writes key (RSet k v) = (k = key)"
| "writes key (RPush k v) = (k = key)"
| "writes key (RGet k) = False"

text \<open>What the round trip needs of Redis: the reply to GET is the value of the last SET of the key.\<close>

definition redis_keeps :: "'db redis \<Rightarrow> string \<Rightarrow> bool" where
  "redis_keeps send key \<longleftrightarrow>
     (\<forall>db v. fst (send (RGet key) (snd (send (RSet key v) db))) = Reply v) \<and>
     (\<forall>db cmd. \<not> writes key cmd \<longrightarrow> fst (send (RGet key) (snd (send cmd db))) = fst (send (RGet key) db))"

fun drain :: "'db redis \<Rightarrow> nat \<Rightarrow> 'db logger \<Rightarrow> 'db logger" where
  "drain send 0 s = s"
| "drain send (Suc n) s = drain send n (worker_step send s)"

lemma drain_add: "drain send (m + n) s = drain send n (drain send m s)"
  by (induction m arbitrary: s) simp_all

lemma run_redis_task_frame:
  assumes "\<not> is_async t"
  shows "lg_queue (run_redis_task send t s) = lg_queue s" "lg_wait (run_redis_task send t s) = lg_wait s"
    "lg_running (run_redis_task send t s) = lg_running s" "lg_session (run_redis_task send t s) = lg_session s"
    "lg_key (run_redis_task send t s) = lg_key s"
    "lg_db (run_redis_task send t s) = snd (send (cmd_of (lg_session s) t) (lg_db s))"
  using assms by (cases t; simp add: run_redis_task_def Let_def split: prod.split reply.split)+

text \<open>The thread runs the tasks of the queue in their order.\<close>

lemma drain_tasks:
  assumes "lg_queue s = ts @ rest" "\<forall>t \<in> set ts. \<not> is_async t" "lg_wait s = None" "lg_running s"
  shows "lg_queue (drain send (length ts) s) = rest \<and> lg_wait (drain send (length ts) s) = None \<and>
    lg_running (drain send (length ts) s) \<and> lg_session (drain send (length ts) s) = lg_session s \<and>
    lg_db (drain send (length ts) s) = fold (\<lambda>t db. snd (send (cmd_of (lg_session s) t) db)) ts (lg_db s)"
  using assms
proof (induction ts arbitrary: s)
  case (Cons t ts)
  let ?s = "run_redis_task send t (s\<lparr>lg_queue := ts @ rest\<rparr>)"
  have step: "worker_step send s = ?s" using Cons.prems by (simp add: worker_step_def)
  have free: "\<not> is_async t" using Cons.prems(2) by simp
  show ?case using Cons.IH [of ?s] Cons.prems step by (simp add: run_redis_task_frame [OF free])
qed simp

lemma redis_keeps_fold:
  assumes "redis_keeps send key" "\<forall>t \<in> set ts. \<not> writes key (cmd_of session t)"
  shows "fst (send (RGet key) (fold (\<lambda>t db. snd (send (cmd_of session t) db)) ts db)) = fst (send (RGet key) db)"
  using assms(2)
proof (induction ts arbitrary: db)
  case (Cons t ts)
  then show ?case using assms(1) by (simp add: redis_keeps_def)
qed simp

lemma fold_pushTask:
  "fold pushTask ts s = s\<lparr>lg_queue := lg_queue s @ ts\<rparr>"
  by (induction ts arbitrary: s) (simp_all add: pushTask_def)

text \<open>
  The slots in use: results, queued reads and the read that the thread waits for have slots
  that were handed out already.
\<close>

fun slots_of :: "redis_task \<Rightarrow> nat set" where
  "slots_of (GetTask k n) = {n}"
| "slots_of _ = {}"

definition logger_inv :: "'db logger \<Rightarrow> bool" where
  "logger_inv s \<longleftrightarrow>
     fst ` set (lg_results s) \<subseteq> {..< lg_slots s} \<and>
     (\<forall>t \<in> set (lg_queue s). \<forall>n \<in> slots_of t. n < lg_slots s)"

lemma logger_inv_run:
  assumes "logger_inv s" "\<forall>n \<in> slots_of t. n < lg_slots s"
  shows "logger_inv (run_redis_task send t s)"
  using assms
  by (cases t)
    (auto simp: logger_inv_def run_redis_task_def Let_def GetRedisKVP_def pushTask_def less_Suc_eq
      split: prod.split reply.split)

lemma logger_inv_step: "logger_step send s s' \<Longrightarrow> logger_inv s \<Longrightarrow> logger_inv s'"
proof (erule logger_stepE)
  assume s': "s' = worker_step send s" and inv: "logger_inv s"
  show "logger_inv s'"
  proof (cases "lg_wait s")
    case None
    show ?thesis
    proof (cases "lg_queue s")
      case (Cons t ts)
      then have "logger_inv (s\<lparr>lg_queue := ts\<rparr>)" "\<forall>n \<in> slots_of t. n < lg_slots s"
        using inv by (simp_all add: logger_inv_def)
      then show ?thesis using logger_inv_run [of "s\<lparr>lg_queue := ts\<rparr>" t send] None Cons inv
        by (simp add: s' worker_step_def)
    qed (use inv None in \<open>simp add: s' worker_step_def\<close>)
  next
    case (Some w)
    then show ?thesis using inv
      by (simp add: s' worker_step_def logger_inv_def split: prod.split option.split)
  qed
qed (auto simp: logger_inv_def Log_def SetRedisKVP_def GetRedisKVP_def GetRedisKVPAsync_def pushTask_def less_Suc_eq)

interpretation logger_slots: invariant_system "logger_step send" logger_inv
  by unfold_locales (rule logger_inv_step)

lemma new_logger_inv: "logger_inv (new_logger uuid session db)"
  by (simp add: logger_inv_def new_logger_def)

text \<open>The thread leaves the slots that the queued tasks do not name.\<close>

lemma run_redis_task_results:
  "\<not> is_async t \<Longrightarrow> slot \<notin> slots_of t \<Longrightarrow>
    map_of (lg_results (run_redis_task send t s)) slot = map_of (lg_results s) slot"
  by (cases t) (auto simp: run_redis_task_def Let_def hmap_simps split: prod.split reply.split)

lemma drain_results:
  assumes "lg_queue s = ts @ rest" "\<forall>t \<in> set ts. \<not> is_async t \<and> slot \<notin> slots_of t" "lg_wait s = None" "lg_running s"
    and "k \<le> length ts"
  shows "map_of (lg_results (drain send k s)) slot = map_of (lg_results s) slot"
  using assms
proof (induction k arbitrary: ts s)
  case (Suc k)
  then obtain t us where ts: "ts = t # us" by (cases ts) auto
  let ?s = "run_redis_task send t (s\<lparr>lg_queue := us @ rest\<rparr>)"
  have free: "\<not> is_async t" "slot \<notin> slots_of t" using Suc.prems(2) ts by auto
  have "worker_step send s = ?s" using Suc.prems ts by (simp add: worker_step_def)
  moreover have "map_of (lg_results ?s) slot = map_of (lg_results s) slot"
    using run_redis_task_results [OF free, of send] by simp
  ultimately show ?case using Suc.IH [of ?s us] Suc.prems ts by (simp add: run_redis_task_frame [OF free(1)])
qed simp

text \<open>A wait ends with the first result.\<close>

lemma wait_result_found: "map_of (lg_results s) slot = Some r \<Longrightarrow> wait_result env k slot s = Some (r, s)"
  by (subst wait_result.simps) simp

lemma wait_result_next:
  "map_of (lg_results s) slot = None \<Longrightarrow> wait_result env k slot s = wait_result env (Suc k) slot (env k s)"
  by (subst wait_result.simps) simp

lemma wait_drain:
  assumes "\<forall>k < n. map_of (lg_results (drain send k s)) slot = None"
    and "map_of (lg_results (drain send n s)) slot = Some r"
  shows "wait_result (\<lambda>_. worker_step send) i slot s = Some (r, drain send n s)"
  using assms
proof (induction n arbitrary: s i)
  case (Suc n)
  have "map_of (lg_results s) slot = None" using Suc.prems(1) by force
  moreover have "\<forall>k < n. map_of (lg_results (drain send k (worker_step send s))) slot = None"
    using Suc.prems(1) by force
  ultimately show ?case using Suc.IH [of "worker_step send s" "Suc i"] Suc.prems(2) by (simp add: wait_result_next)
qed (simp add: wait_result_found)


text \<open>A Redis server of its own, for the witnesses: the strings, and a list under a key that is not one.\<close>

fun demo_redis :: "(string, string) hmap redis" where
  "demo_redis (RSet k v) db = (Reply ''OK'', hput k v db)"
| "demo_redis (RGet k) db = (Reply (case map_of db k of None \<Rightarrow> [] | Some v \<Rightarrow> v), db)"
| "demo_redis (RPush k v) db = (Reply ''1'', db)"

lemma demo_redis_keeps: "redis_keeps demo_redis key"
proof -
  have "fst (demo_redis (RGet key) (snd (demo_redis cmd db))) = fst (demo_redis (RGet key) db)"
    if "\<not> writes key cmd" for db cmd
    using that by (cases cmd) (auto simp: hmap_simps)
  then show ?thesis by (simp add: redis_keeps_def hmap_simps)
qed


section \<open>The thread that waits for itself\<close>

text \<open>The thread waits for a result that only it can write.\<close>

definition stuck :: "nat \<Rightarrow> 'db logger \<Rightarrow> 'db logger \<Rightarrow> bool" where
  "stuck slot s0 s \<longleftrightarrow>
     (\<exists>c. lg_wait s = Some (slot, c)) \<and> map_of (lg_results s) slot = None \<and>
     lg_db s = lg_db s0 \<and> lg_results s = lg_results s0 \<and> lg_called s = lg_called s0"

lemma stuck_step: "logger_step send s s' \<Longrightarrow> stuck slot s0 s \<Longrightarrow> stuck slot s0 s'"
  by (erule logger_stepE)
    (auto simp: stuck_def Log_def SetRedisKVP_def GetRedisKVP_def GetRedisKVPAsync_def pushTask_def worker_step_def)

interpretation stuck_thread: invariant_system "logger_step send" "stuck slot s0"
  by unfold_locales (rule stuck_step)

text \<open>C38: An asynchronous read blocks the Redis thread for ever: once the thread has started the task,
  no continuation of the program ever sends a command to Redis again, answers a read or calls
  a callback, for the thread waits for a task that is behind it in its own queue.\<close>
theorem async_read_deadlocks:
  assumes "lg_wait s = None" "lg_running s" "lg_queue s = AsyncTask key c # ts"
    and "map_of (lg_results s) (lg_slots s) = None"
    and "(logger_step send)\<^sup>*\<^sup>* (worker_step send s) s'"
  shows "lg_db s' = lg_db s \<and> lg_results s' = lg_results s \<and> lg_called s' = lg_called s"
proof -
  have "stuck (lg_slots s) s (worker_step send s)"
    using assms(1-4) by (simp add: stuck_def worker_step_def run_redis_task_def GetRedisKVP_def pushTask_def)
  with assms(5) have "stuck (lg_slots s) s s'" by (rule stuck_thread.reachable_inv)
  then show ?thesis by (simp add: stuck_def)
qed

theorem async_read_deadlocks_witness:
  "lg_called (worker_step demo_redis (worker_step demo_redis (GetRedisKVPAsync ''k'' 7 (new_logger ''u'' ''s'' [])))) = []"
proof -
  let ?s = "GetRedisKVPAsync ''k'' 7 (new_logger ''u'' ''s'' ([] :: (string, string) hmap))"
  have s: "lg_wait ?s = None" "lg_running ?s" "lg_queue ?s = [AsyncTask ''k'' 7]"
    "map_of (lg_results ?s) (lg_slots ?s) = None" "lg_called ?s = []"
    by (simp_all add: GetRedisKVPAsync_def pushTask_def new_logger_def)
  have "(logger_step demo_redis)\<^sup>*\<^sup>* (worker_step demo_redis ?s) (worker_step demo_redis (worker_step demo_redis ?s))"
    by (rule r_into_rtranclp) (rule work)
  from async_read_deadlocks [OF s(1-4) this] s(5) show ?thesis by simp
qed

end
