(* ===== verification/Api.thy ===== *)
theory Api
  imports Tasks Lifecycle Logging
begin

text \<open>
  The calls that the library exports to the engine (\<open>exports.cpp\<close>), with the two functions
  that connect a process to the cluster (\<open>Runtime::Connect\<close>, the constructor of
  \<open>PeerService\<close>). The state is the whole process: the node, the configuration, the Pulsar
  client, the peer service, the metrics and the logger. A call is a constructor with its
  arguments; \<open>None\<close> is a call that never returns.
\<close>

section \<open>The process\<close>

text \<open>
  What is outside the process: \<open>o_master\<close> is the text with which the master answers a request
  to a url, \<open>o_http\<close> and \<open>o_callback\<close> are the other HTTP servers and what the callbacks of the
  engine throw, \<open>o_getenv\<close> is the environment of the process and \<open>o_redis k\<close> what happens to
  the logger during round \<open>k\<close> of a wait.
\<close>

record 'db outside =
  o_world :: world
  o_env :: environment
  o_broker :: "nat \<Rightarrow> attempt"
  o_steady :: "nat \<Rightarrow> int"
  o_getenv :: "string \<Rightarrow> string option"
  o_master :: "string \<Rightarrow> json \<Rightarrow> string"
  o_http :: "string \<Rightarrow> json \<Rightarrow> http_response"
  o_callback :: "nat \<Rightarrow> string \<Rightarrow> exn option"
  o_cpu :: getter
  o_redis :: "nat \<Rightarrow> 'db logger \<Rightarrow> 'db logger"

text \<open>
  \<open>pr_clock\<close> are the readers of the clock, \<open>pr_boot\<close> the scheduled tasks of the peer services, each
  with the address of the master that it captures, \<open>pr_http\<close> the scheduled requests with their callbacks, \<open>pr_http_log\<close> what became
  of them.
\<close>

record 'db process =
  pr_node :: node
  pr_config :: config
  pr_net :: "string option"
  pr_peer :: bool
  pr_clock :: "clock_reader list"
  pr_boot :: "(string \<times> string) list"
  pr_http :: "(string \<times> string \<times> nat) list"
  pr_http_log :: "(nat \<times> string http_event list) list"
  pr_sync :: "task list"
  pr_metrics :: metrics
  pr_upload :: bool
  pr_logger :: "'db logger"

definition new_process :: "bool \<Rightarrow> string \<Rightarrow> (string \<times> string) list \<Rightarrow> 'db \<Rightarrow> 'db process" where
  "new_process server uuid entries db =
     (let c = new_config entries
      in \<lparr>pr_node = new_node server initial_scope uuid [], pr_config = c, pr_net = None, pr_peer = False,
          pr_clock = [], pr_boot = [], pr_http = [], pr_http_log = [], pr_sync = [], pr_metrics = new_metrics,
          pr_upload = False, pr_logger = new_logger uuid (cfg_session c) db\<rparr>)"

text \<open>What a call gives to the engine.\<close>

datatype result =
    Void
  | ABool bool
  | AString string
  | AOptString "string option"
  | AHandle "nat option"
  | AHandles "nat list"
  | ATuple "string list option"
  | AInputs "input_data list option"
  | ALatencies "(string, int) hmap"

type_synonym 'db call = "'db process \<Rightarrow> ('db process, result) outcome option"

section \<open>Calls on the node\<close>

definition on_node :: "('a \<Rightarrow> result) \<Rightarrow> 'a op \<Rightarrow> 'db call" where
  "on_node f op p =
     Some (case op (pr_node p) of
       Ret a s \<Rightarrow> Ret (f a) (p\<lparr>pr_node := s\<rparr>)
     | Raise e s \<Rightarrow> Raise e (p\<lparr>pr_node := s\<rparr>))"

definition on_node_option :: "('a \<Rightarrow> result) \<Rightarrow> (node \<Rightarrow> (node, 'a) outcome option) \<Rightarrow> 'db call" where
  "on_node_option f op p = (case op (pr_node p) of None \<Rightarrow> None | Some r \<Rightarrow> on_node f (\<lambda>_. r) p)"

definition change :: "(node \<Rightarrow> node) \<Rightarrow> 'db call" where
  "change f = on_node (\<lambda>_. Void) (\<lambda>s. Ret () (f s))"

definition ask :: "(node \<Rightarrow> result) \<Rightarrow> 'db call" where
  "ask f p = Some (Ret (f (pr_node p)) p)"

definition on_logger :: "('db logger \<Rightarrow> 'db logger) \<Rightarrow> 'db call" where
  "on_logger f p = Some (Ret Void (p\<lparr>pr_logger := f (pr_logger p)\<rparr>))"

abbreviation void :: "unit op \<Rightarrow> 'db call" where
  "void \<equiv> on_node (\<lambda>_. Void)"

text \<open>\<open>Runtime::GetPeerService\<close>.\<close>

definition with_peer :: "'db call \<Rightarrow> 'db call" where
  "with_peer f p = (if pr_peer p then f p else Some (Raise (RuntimeError ''Peer service not initialized'') p))"

section \<open>Connecting\<close>

text \<open>
  \<open>Runtime::Connect\<close>: a new peer service, with new registries, replaces the old one. Its
  constructor starts the clock and schedules the task below.
\<close>

definition connect_process :: "connection \<Rightarrow> 'db process \<Rightarrow> 'db process" where
  "connect_process c p =
     p\<lparr>pr_config := cn_config c, pr_net := net_Connect (cn_broker c) (pr_net p),
       pr_logger := (pr_logger p)\<lparr>lg_session := cfg_session (cn_config c)\<rparr>,
       pr_node := (pr_node p)\<lparr>topic_scope := cn_scope c, clients := [], client_subs := [], peer_rpcs := [],
         global_rpcs := []\<rparr>,
       pr_peer := True, pr_clock := clock_Start (peer_uuid (pr_node p)) (pr_clock p),
       pr_boot := pr_boot p @ [(cn_master_host c, cn_master_port c)]\<rparr>"

text \<open>
  The service that is replaced, if there is one, is destroyed in the call: its destructor stops the
  clock, the readers of the new service included.
\<close>

definition connect_call :: "connection \<Rightarrow> 'db call" where
  "connect_call c p =
     (let p1 = connect_process c p
      in if pr_peer p then map_option (\<lambda>rs. Ret Void (p1\<lparr>pr_clock := rs\<rparr>)) (clock_Stop (pr_clock p1))
         else Some (Ret Void p1))"

definition waitNetworkReady :: bool where
  "waitNetworkReady = True"

text \<open>
  The task of the constructor of \<open>PeerService\<close>, with the callback of a server or of a client.
  Starting the metrics while their thread runs assigns to a joinable thread, which ends the
  process: \<open>None\<close>.
\<close>

definition server_ready :: "'db outside \<Rightarrow> string \<Rightarrow> string \<Rightarrow> bool \<Rightarrow> 'db call" where
  "server_ready x host port connected p =
     (if \<not> connected then void (call_hook OnConnectionFailed []) p
      else
        (let s = pr_node p;
             answer = o_master x (master_url host port) (master_request (o_getenv x) (pr_config p) (peer_uuid s))
         in case master_phase (o_world x) answer s of
              Raise e s1 \<Rightarrow> Some (Raise e (p\<lparr>pr_node := s1\<rparr>))
            | Ret _ s1 \<Rightarrow>
                if mt_running (pr_metrics p) then None
                else (let (errs, m) = metrics_Start (o_getenv x) (pr_config p) (peer_uuid s) (o_cpu x) (pr_metrics p)
                 in void (call_hook OnConnectionSuccess [])
                      (p\<lparr>pr_node := fold log_error errs s1, pr_metrics := m, pr_upload := True\<rparr>))))"

definition start_peer :: "'db outside \<Rightarrow> 'db call" where
  "start_peer x p =
     (case pr_boot p of
        [] \<Rightarrow> Some (Ret Void p)
      | (host, port) # rest \<Rightarrow>
          (let p1 = p\<lparr>pr_boot := rest\<rparr>;
               p2 = (if waitNetworkReady then p1\<lparr>pr_node := initPeerRPCs (pr_node p1)\<rparr> else p1)
           in if server_mode (pr_node p) then server_ready x host port waitNetworkReady p2
              else void (client_connected waitNetworkReady) p2))"

section \<open>Top level calls\<close>

datatype top_call =
    Call_GetSessionId
  | Call_ServerNodeConnect
  | Call_ClientConnect string int string
  | Call_SendHttpRequest string string nat
  | Call_CelteTick
  | Call_RegisterGrape string bool "nat option"
  | Call_ContainerCreateAndAttach string nat
  | Call_SetRedisKVP string string
  | Call_GetRedisKVP string
  | Call_GetRedisKVPAsync string nat
  | Call_IsGrapeLocallyOwned string
  | Call_RegisterNewEntity string string string
  | Call_GetNewUUID
  | Call_ProcessEntityContainerAssignment string string string bool
  | Call_SaveEntityPayload string string

text \<open>\<open>Runtime::Tick\<close>: the synchronous tasks until their queue is empty; they cannot push to it.\<close>

definition ScheduleSyncTask :: "task \<Rightarrow> 'db process \<Rightarrow> 'db process" where
  "ScheduleSyncTask t p = p\<lparr>pr_sync := pr_sync p @ [t]\<rparr>"

fun advanceSyncTasks :: "'db outside \<Rightarrow> task list \<Rightarrow> 'db call" where
  "advanceSyncTasks x [] p = Some (Ret Void (p\<lparr>pr_sync := []\<rparr>))"
| "advanceSyncTasks x (t # ts) p =
     (case run_task (o_world x) (o_env x) (o_broker x) t (pr_node p) of
        None \<Rightarrow> None
      | Some (Raise e s) \<Rightarrow> Some (Raise e (p\<lparr>pr_node := s, pr_sync := ts\<rparr>))
      | Some (Ret _ s) \<Rightarrow> advanceSyncTasks x ts (p\<lparr>pr_node := s\<rparr>))"

text \<open>The I/O task of an exported HTTP request.\<close>

definition http_task :: "'db outside \<Rightarrow> 'db process \<Rightarrow> 'db process" where
  "http_task x p =
     (case pr_http p of
        [] \<Rightarrow> p
      | (url, body, cb) # rest \<Rightarrow>
          p\<lparr>pr_http := rest,
            pr_http_log := pr_http_log p @ [(cb, SendHttpRequest (o_world x) (o_http x url) (o_callback x cb) body)]\<rparr>)"

fun run_top :: "'db outside \<Rightarrow> top_call \<Rightarrow> 'db call" where
  "run_top x Call_GetSessionId p = Some (Ret (AString (cfg_session (pr_config p))) p)"
| "run_top x Call_ServerNodeConnect p =
     connect_call (server_connect (o_getenv x) (pr_config p)) p"
| "run_top x (Call_ClientConnect host port sid) p =
     connect_call (client_connect host port sid (pr_config p)) p"
| "run_top x (Call_SendHttpRequest url body cb) p =
     Some (Ret Void (p\<lparr>pr_http := pr_http p @ [(url, body, cb)]\<rparr>))"
| "run_top x Call_CelteTick p = advanceSyncTasks x (pr_sync p) p"
| "run_top x (Call_RegisterGrape gid own f) p = void (RegisterGrape gid own f) p"
| "run_top x (Call_ContainerCreateAndAttach gid f) p =
     on_node AString (ContainerCreateAndAttach (o_world x) gid f []) p"
| "run_top x (Call_SetRedisKVP key v) p = on_logger (SetRedisKVP key v) p"
| "run_top x (Call_GetRedisKVP key) p =
     map_option (\<lambda>(r, lg). Ret (AOptString r) (p\<lparr>pr_logger := lg\<rparr>)) (GetRedisKVP_result (o_redis x) key (pr_logger p))"
| "run_top x (Call_GetRedisKVPAsync key cb) p = on_logger (GetRedisKVPAsync key cb) p"
| "run_top x (Call_IsGrapeLocallyOwned gid) p = ask (\<lambda>s. ABool (IsGrapeLocallyOwned gid s)) p"
| "run_top x (Call_RegisterNewEntity eid ownerSN cid) p = void (RegisterEntity (new_entity eid cid)) p"
| "run_top x Call_GetNewUUID p =
     on_node AString (\<lambda>s. let (u, s1) = GenUUID (o_world x) s in Ret u s1) p"
| "run_top x (Call_ProcessEntityContainerAssignment eid cid payload ign) p =
     void (TransferAuthority (o_world x) eid cid payload ign) p"
| "run_top x (Call_SaveEntityPayload eid payload) p =
     on_node ABool (\<lambda>s. let (b, s1) = SaveEntityPayload eid payload s in Ret b s1) p"

section \<open>Calls about clients, containers and entities\<close>

datatype world_call =
    Call_ConnectClientToThisNode string nat
  | Call_SubscribeClientToContainer string string nat
  | Call_UnsubscribeClientFromContainer string string
  | Call_UpdateSubscriptionStatus string string string bool
  | Call_ProxyTakeAuthority string string
  | Call_GetOwnedContainerNativeHandle string string
  | Call_SetOwnedContainerNativeHandle string string nat
  | Call_GetContainerOwnedEntitiesNativeHandles string
  | Call_RegisterClient string
  | Call_ForgetClient string
  | Call_DisconnectFromServer
  | Call_IsEntityRegistered string
  | Call_SetETTNativeHandle string nat
  | Call_GetETTNativeHandle string
  | Call_ForgetEntityNativeHandle string
  | Call_GetETTOwnerContainerId string
  | Call_SendEntityDeleteOrder string
  | Call_RegisterMetric string getter
  | Call_MasterInstantiateServerNode string
  | Call_IsEntityLocallyOwned string
  | Call_UpdatePropertyState string string string
  | Call_GetAssignedGrapeId
  | Call_PollPropertyUpdate string string
  | Call_CMIInstantiate string string string string string

fun run_world :: "'db outside \<Rightarrow> world_call \<Rightarrow> 'db call" where
  "run_world x (Call_ConnectClientToThisNode cl f) p =
     with_peer (void (ConnectClientToThisNode (o_world x) (o_env x) cl f)) p"
| "run_world x (Call_SubscribeClientToContainer cl cid f) p =
     with_peer (change (server_SubscribeClientToContainer cl cid f)) p"
| "run_world x (Call_UnsubscribeClientFromContainer cl cid) p =
     with_peer (change (server_UnsubscribeClientFromContainer cl cid)) p"
| "run_world x (Call_UpdateSubscriptionStatus owner gid cid sub) p =
     void (SetRemoteGrapeSubscription (o_world x) (o_env x) owner gid cid sub) p"
| "run_world x (Call_ProxyTakeAuthority gid eid) p = void (GRAPES_ProxyTakeAuthority (o_world x) gid eid) p"
| "run_world x (Call_GetOwnedContainerNativeHandle gid cid) p =
     ask (\<lambda>s. AHandle (GetOwnedContainerNativeHandle gid cid s)) p"
| "run_world x (Call_SetOwnedContainerNativeHandle gid cid h) p = change (SetOwnedContainerNativeHandle gid cid h) p"
| "run_world x (Call_GetContainerOwnedEntitiesNativeHandles cid) p =
     ask (\<lambda>s. AHandles (GetOwnedEntitiesNativeHandles cid s)) p"
| "run_world x (Call_RegisterClient cl) p = with_peer (change (register_client_literal (o_world x) cl)) p"
| "run_world x (Call_ForgetClient cl) p = with_peer (change (ForgetClient cl)) p"
| "run_world x Call_DisconnectFromServer p = void (Disconnect (o_world x)) p"
| "run_world x (Call_IsEntityRegistered eid) p = ask (\<lambda>s. ABool (IsEntityRegistered eid s)) p"
| "run_world x (Call_SetETTNativeHandle eid h) p = change (SetEntityNativeHandle eid h) p"
| "run_world x (Call_GetETTNativeHandle eid) p = ask (\<lambda>s. AHandle (GetEntityNativeHandle eid s)) p"
| "run_world x (Call_ForgetEntityNativeHandle eid) p = change (ForgetEntityNativeHandle eid) p"
| "run_world x (Call_GetETTOwnerContainerId eid) p = ask (\<lambda>s. AString (GetEntityOwnerContainer eid s)) p"
| "run_world x (Call_SendEntityDeleteOrder eid) p = change (SendEntityDeleteOrder eid) p"
| "run_world x (Call_RegisterMetric name g) p =
     Some (Ret Void (p\<lparr>pr_metrics := RegisterMetric name g (pr_metrics p)\<rparr>))"
| "run_world x (Call_MasterInstantiateServerNode payload) p = Some (Raise (RuntimeError ''Not implemented'') p)"
| "run_world x (Call_IsEntityLocallyOwned eid) p = ask (\<lambda>s. ABool (IsEntityLocallyOwned eid s)) p"
| "run_world x (Call_UpdatePropertyState eid key v) p = void (UpdatePropertyState (o_world x) eid key v) p"
| "run_world x Call_GetAssignedGrapeId p = ask (\<lambda>s. AString (assigned_grape s)) p"
| "run_world x (Call_PollPropertyUpdate eid key) p =
     on_node AOptString
       (\<lambda>s. let (v, g) = PollPropertyUpdate (o_world x) eid key (ghosts s) in Ret v (s\<lparr>ghosts := g\<rparr>)) p"
| "run_world x (Call_CMIInstantiate gid cmi prefab payload cl) p =
     void (CallCMIInstantiate (o_world x) gid cmi prefab payload cl) p"

section \<open>Tasks\<close>

datatype task_call =
    Call_PushTaskToSystem nat
  | Call_PushIOTaskToSystem nat
  | Call_AdvanceTopLevelExecutorTask
  | Call_AdvanceEntityTask string
  | Call_AdvanceGrapeTask string
  | Call_GetLatency
  | Call_PopAssignmentByProxy string
  | Call_PopCMIInstantiate string

fun run_tasks :: "'db outside \<Rightarrow> task_call \<Rightarrow> 'db call" where
  "run_tasks x (Call_PushTaskToSystem f) p = change (ScheduleAsyncTask (RunUser f)) p"
| "run_tasks x (Call_PushIOTaskToSystem f) p = change (ScheduleAsyncIOTask (RunUser f)) p"
| "run_tasks x Call_AdvanceTopLevelExecutorTask p =
     on_node_option ABool (AdvanceTopLevelExecutorTask (o_world x) (o_env x) (o_broker x)) p"
| "run_tasks x (Call_AdvanceEntityTask eid) p =
     on_node_option ABool (AdvanceEntityTask (o_world x) (o_env x) (o_broker x) eid) p"
| "run_tasks x (Call_AdvanceGrapeTask gid) p =
     on_node_option ABool (AdvanceGrapeTask (o_world x) (o_env x) (o_broker x) gid) p"
| "run_tasks x Call_GetLatency p =
     with_peer (on_node ALatencies (GetLatency (o_world x) (o_env x) (o_steady x))) p"
| "run_tasks x (Call_PopAssignmentByProxy gid) p =
     on_node ATuple (PopNamedTaskFromEngine 3 gid ''proxyTakeAuthority'') p"
| "run_tasks x (Call_PopCMIInstantiate gid) p = on_node ATuple (PopNamedTaskFromEngine 4 gid ''CMIInstantiate'') p"

section \<open>Remote procedures\<close>

datatype rpc_api_call =
    Call_RegisterGlobalRPC string int nat
  | Call_RegisterGrapeRPC string int string nat
  | Call_RegisterEntityRPC string int string nat
  | Call_RegisterClientRPC string string nat
  | Call_GlobalRPC string string
  | Call_GrapeRPC bool string string string
  | Call_EntityRPC bool string string string
  | Call_ClientRPC string string string

text \<open>Only the branches that use the peer service fail without one.\<close>

fun run_rpc_api :: "'db outside \<Rightarrow> rpc_api_call \<Rightarrow> 'db call" where
  "run_rpc_api x (Call_RegisterGlobalRPC name fl f) p =
     (if rpc_filter (server_mode (pr_node p)) fl then with_peer (change (RegisterGlobalRPC name fl f)) p
      else Some (Ret Void p))"
| "run_rpc_api x (Call_RegisterGrapeRPC gid fl name f) p = change (RegisterGrapeRPC gid fl name f) p"
| "run_rpc_api x (Call_RegisterEntityRPC eid fl name f) p = change (RegisterEntityRPC eid fl name f) p"
| "run_rpc_api x (Call_RegisterClientRPC cl name f) p =
     (if \<not> server_mode (pr_node p) \<and> peer_uuid (pr_node p) = cl then with_peer (change (RegisterClientRPC cl name f)) p
      else Some (Ret Void p))"
| "run_rpc_api x (Call_GlobalRPC name args) p = void (CallGlobalRPC (o_world x) name args) p"
| "run_rpc_api x (Call_GrapeRPC priv gid name args) p = void (CallGrapeRPC (o_world x) priv gid name args) p"
| "run_rpc_api x (Call_EntityRPC priv eid name args) p = void (CallEntityRPC (o_world x) priv eid name args) p"
| "run_rpc_api x (Call_ClientRPC cl name args) p = void (CallClientRPC (o_world x) cl name args) p"

section \<open>Hooks and the rest\<close>

text \<open>The hook for timeouts has a default and is never called: setting it changes nothing.\<close>

datatype engine_call =
    Call_SetHook hook
  | Call_SetOnRPCTimeoutHook
  | Call_DisconnectClientFromCluster string string
  | Call_UnregisterEntity string
  | Call_UploadInputData string string bool int int
  | Call_GetInputCircularBuf string string
  | Call_GetUUID
  | Call_KeepClientConnectionAlive string

definition set_hook :: "hook \<Rightarrow> node \<Rightarrow> node" where
  "set_hook h s = s\<lparr>hooks_set := List.insert h (hooks_set s)\<rparr>"

fun run_engine :: "'db outside \<Rightarrow> engine_call \<Rightarrow> 'db call" where
  "run_engine x (Call_SetHook h) p = change (set_hook h) p"
| "run_engine x Call_SetOnRPCTimeoutHook p = Some (Ret Void p)"
| "run_engine x (Call_DisconnectClientFromCluster cl payload) p =
     void (ForceDisconnectClient (o_world x) cl payload) p"
| "run_engine x (Call_UnregisterEntity eid) p = void (UnregisterEntity eid) p"
| "run_engine x (Call_UploadInputData uuid name pressed ix iy) p = change (UploadInputData uuid name pressed ix iy) p"
| "run_engine x (Call_GetInputCircularBuf uuid name) p = ask (\<lambda>s. AInputs (GetEntityCircularBuf uuid name s)) p"
| "run_engine x Call_GetUUID p = ask (\<lambda>s. AString (peer_uuid s)) p"
| "run_engine x (Call_KeepClientConnectionAlive cl) p = Some (Ret Void p)"

section \<open>All calls\<close>

datatype api = Top top_call | Game world_call | Tasks task_call | Remote rpc_api_call | Engine engine_call

fun run_api :: "'db outside \<Rightarrow> api \<Rightarrow> 'db call" where
  "run_api x (Top c) = run_top x c"
| "run_api x (Game c) = run_world x c"
| "run_api x (Tasks c) = run_tasks x c"
| "run_api x (Remote c) = run_rpc_api x c"
| "run_api x (Engine c) = run_engine x c"

text \<open>Which calls the library of a server, or of a client, has.\<close>

definition server_calls :: "api \<Rightarrow> bool" where
  "server_calls c \<longleftrightarrow>
     (case c of
        Top c \<Rightarrow> (case c of
            Call_ServerNodeConnect \<Rightarrow> True | Call_ContainerCreateAndAttach _ _ \<Rightarrow> True
          | Call_SetRedisKVP _ _ \<Rightarrow> True | Call_GetRedisKVP _ \<Rightarrow> True | Call_GetRedisKVPAsync _ _ \<Rightarrow> True
          | _ \<Rightarrow> False)
      | Game c \<Rightarrow> (case c of
            Call_ConnectClientToThisNode _ _ \<Rightarrow> True | Call_SubscribeClientToContainer _ _ _ \<Rightarrow> True
          | Call_UnsubscribeClientFromContainer _ _ \<Rightarrow> True | Call_UpdateSubscriptionStatus _ _ _ _ \<Rightarrow> True
          | Call_ProxyTakeAuthority _ _ \<Rightarrow> True | Call_GetOwnedContainerNativeHandle _ _ \<Rightarrow> True
          | Call_SetOwnedContainerNativeHandle _ _ _ \<Rightarrow> True | Call_GetContainerOwnedEntitiesNativeHandles _ \<Rightarrow> True
          | Call_RegisterClient _ \<Rightarrow> True | Call_ForgetClient _ \<Rightarrow> True | Call_SendEntityDeleteOrder _ \<Rightarrow> True
          | Call_RegisterMetric _ _ \<Rightarrow> True | Call_MasterInstantiateServerNode _ \<Rightarrow> True
          | Call_UpdatePropertyState _ _ _ \<Rightarrow> True | Call_GetAssignedGrapeId \<Rightarrow> True
          | _ \<Rightarrow> False)
      | Tasks c \<Rightarrow> (case c of Call_PopAssignmentByProxy _ \<Rightarrow> True | Call_PopCMIInstantiate _ \<Rightarrow> True | _ \<Rightarrow> False)
      | Remote c \<Rightarrow> False
      | Engine c \<Rightarrow> (case c of
            Call_SetHook h \<Rightarrow> h \<in> set [OnServerReceivedInitializationPayload, OnGetClientInitialGrape, OnAcceptNewClient,
              OnClientRequestDisconnect, OnClientNotSeen]
          | Call_DisconnectClientFromCluster _ _ \<Rightarrow> True | Call_KeepClientConnectionAlive _ \<Rightarrow> True
          | _ \<Rightarrow> False))"

definition client_calls :: "api \<Rightarrow> bool" where
  "client_calls c \<longleftrightarrow>
     (case c of
        Top (Call_ClientConnect _ _ _) \<Rightarrow> True
      | Game Call_DisconnectFromServer \<Rightarrow> True
      | _ \<Rightarrow> False)"

definition exported :: "bool \<Rightarrow> api \<Rightarrow> bool" where
  "exported server c \<longleftrightarrow> (if server then \<not> client_calls c else \<not> server_calls c)"

end
