(* ===== verification/Process.thy ===== *)
theory Process
  imports Invariant Api
begin

text \<open>
  The process as a transition system: the engine calls the library, the schedulers and the
  Redis thread run tasks, messages arrive. The theorems hold in every state that a process
  can reach from its start.
\<close>

section \<open>Steps\<close>

text \<open>
  While a call waits, the other threads go on: \<open>env k s\<close> is where some run of the process leads
  from the node \<open>s\<close>. A call of \<open>Connect\<close> that destroys an old peer service shows the others the new
  one, \<open>connecting\<close>, before it waits.
\<close>

definition connection_of :: "'db outside \<Rightarrow> top_call \<Rightarrow> 'db process \<Rightarrow> connection option" where
  "connection_of x c p =
     (case c of
        Call_ServerNodeConnect \<Rightarrow> Some (server_connect (o_getenv x) (pr_config p))
      | Call_ClientConnect host port sid \<Rightarrow> Some (client_connect host port sid (pr_config p))
      | _ \<Rightarrow> None)"

inductive process_step :: "'db outside \<Rightarrow> 'db process \<Rightarrow> 'db process \<Rightarrow> bool" for x :: "'db outside" where
  api: "(\<And>k s. \<exists>p p'. pr_node p = s \<and> (process_step x)\<^sup>*\<^sup>* p p' \<and> pr_node p' = env k s) \<Longrightarrow>
    exported (server_mode (pr_node p)) c \<Longrightarrow> run_api (x\<lparr>o_env := env\<rparr>) c p = Some r \<Longrightarrow>
    process_step x p (ostate r)"
| start: "start_peer x p = Some r \<Longrightarrow> process_step x p (ostate r)"
| async: "(\<And>k s. \<exists>p p'. pr_node p = s \<and> (process_step x)\<^sup>*\<^sup>* p p' \<and> pr_node p' = env k s) \<Longrightarrow>
    async_step (o_world x) env (o_broker x) (pr_node p) = Some s \<Longrightarrow> process_step x p (p\<lparr>pr_node := s\<rparr>)"
| io: "(\<And>k s. \<exists>p p'. pr_node p = s \<and> (process_step x)\<^sup>*\<^sup>* p p' \<and> pr_node p' = env k s) \<Longrightarrow>
    io_step (o_world x) env (o_broker x) (pr_node p) = Some s \<Longrightarrow> process_step x p (p\<lparr>pr_node := s\<rparr>)"
| request: "(\<And>k s. \<exists>p p'. pr_node p = s \<and> (process_step x)\<^sup>*\<^sup>* p p' \<and> pr_node p' = env k s) \<Longrightarrow>
    receive_request (o_world x) env topic req (pr_node p) = Some s \<Longrightarrow> process_step x p (p\<lparr>pr_node := s\<rparr>)"
| packet: "process_step x p (p\<lparr>pr_node := HandleReplicationPacket (o_world x) data (pr_node p)\<rparr>)"
| input: "process_step x p (p\<lparr>pr_node := HandleInput (o_world x) uuid name status ix iy (pr_node p)\<rparr>)"
| connecting: "connection_of x c p = Some cn \<Longrightarrow> exported (server_mode (pr_node p)) (Top c) \<Longrightarrow>
    process_step x p (connect_process cn p)"
| clock_opened: "clock_opened (o_broker x) i (pr_clock p) = Some rs \<Longrightarrow> process_step x p (p\<lparr>pr_clock := rs\<rparr>)"
| tick: "list_ex cr_open (pr_clock p) \<Longrightarrow> process_step x p (p\<lparr>pr_node := updateCurrentTime (o_world x) t (pr_node p)\<rparr>)"
| upload: "pr_upload p \<Longrightarrow> process_step x p (p\<lparr>pr_node := upload_round (o_world x) (pr_node p)\<rparr>)"
| caller_cleanup: "process_step x p (p\<lparr>pr_node := (pr_node p)\<lparr>caller_pool := pool_cleanup now (caller_pool (pr_node p))\<rparr>\<rparr>)"
| callee_cleanup: "process_step x p (p\<lparr>pr_node := (pr_node p)\<lparr>callee_pool := pool_cleanup now (callee_pool (pr_node p))\<rparr>\<rparr>)"
| http: "process_step x p (http_task x p)"
| redis: "process_step x p (p\<lparr>pr_logger := worker_step send (pr_logger p)\<rparr>)"

inductive_cases process_stepE: "process_step x p p'"

section \<open>The calls keep the invariant\<close>

definition call_inv :: "world \<Rightarrow> ('db process, result) outcome option \<Rightarrow> bool" where
  "call_inv w r \<longleftrightarrow> (\<forall>o'. r = Some o' \<longrightarrow> node_inv w (pr_node (ostate o')))"

lemma call_inv_simps [simp]:
  "call_inv w None" "call_inv w (Some r) = node_inv w (pr_node (ostate r))"
  by (simp_all add: call_inv_def)

lemma on_node_inv: "oinv w (op (pr_node p)) \<Longrightarrow> call_inv w (on_node f op p)"
  by (cases "op (pr_node p)") (simp_all add: on_node_def)

lemma change_inv: "node_inv w (f (pr_node p)) \<Longrightarrow> call_inv w (change f p)"
  unfolding change_def by (rule on_node_inv) simp

lemma on_node_option_inv:
  "(\<And>r. op (pr_node p) = Some r \<Longrightarrow> oinv w r) \<Longrightarrow> call_inv w (on_node_option f op p)"
  by (auto simp: on_node_option_def intro: on_node_inv split: option.split)

lemma with_peer_inv: "node_inv w (pr_node p) \<Longrightarrow> call_inv w (f p) \<Longrightarrow> call_inv w (with_peer f p)"
  by (simp add: with_peer_def)

lemma pure_call_inv: "node_inv w (pr_node p) \<Longrightarrow> call_inv w (ask f p)" "node_inv w (pr_node p) \<Longrightarrow> call_inv w (on_logger g p)"
  by (simp_all add: ask_def on_logger_def)

lemmas call_invs = on_node_inv change_inv on_node_option_inv with_peer_inv pure_call_inv

lemma connect_inv: "node_inv w (pr_node p) \<Longrightarrow> node_inv w (pr_node (connect_process c p))"
proof -
  assume inv: "node_inv w (pr_node p)"
  let ?s = "(pr_node p)\<lparr>topic_scope := cn_scope c\<rparr>"
  have "node_inv w (?s\<lparr>clients := []\<rparr>)" by (rule node_inv_update(4)) (simp_all add: inv)
  then have "node_inv w (?s\<lparr>clients := [], client_subs := []\<rparr>)" by (rule node_inv_update(6)) simp
  then show ?thesis by (simp add: connect_process_def)
qed

lemma connect_call_inv: "node_inv w (pr_node p) \<Longrightarrow> call_inv w (connect_call c p)"
  by (auto simp: connect_call_def Let_def call_inv_def connect_inv)

lemma advanceSyncTasks_inv:
  assumes "env_ok (o_world x) (o_env x)" "node_inv (o_world x) (pr_node p)"
  shows "call_inv (o_world x) (advanceSyncTasks x ts p)"
  using assms(2)
proof (induction ts arbitrary: p)
  case (Cons t ts)
  show ?case
  proof (cases "run_task (o_world x) (o_env x) (o_broker x) t (pr_node p)")
    case (Some r)
    have "oinv (o_world x) r" by (rule run_task_inv [OF assms(1) Cons.prems Some])
    then show ?thesis using Some Cons.IH by (cases r) simp_all
  qed simp
qed simp

lemma map_call_inv:
  "(\<And>a. m = Some a \<Longrightarrow> node_inv w (pr_node (ostate (f a)))) \<Longrightarrow> call_inv w (map_option f m)"
  by (cases m) simp_all

lemma pair_inv: "node_inv w (snd r) \<Longrightarrow> oinv w (case r of (a, s) \<Rightarrow> Ret a s)"
  by (cases r) simp

lemma new_entity_inv: "node_inv w s \<Longrightarrow> oinv w (RegisterEntity (new_entity eid cid) s)"
  by (rule RegisterEntity_inv) (simp_all add: new_entity_def)

lemma run_top_inv:
  assumes "env_ok (o_world x) (o_env x)" "node_inv (o_world x) (pr_node p)"
  shows "call_inv (o_world x) (run_top x c p)"
  using assms
  by (cases c) (auto simp: keeps connect_call_inv advanceSyncTasks_inv new_entity_inv intro!: call_invs map_call_inv pair_inv)

lemma run_world_inv:
  assumes "env_ok (o_world x) (o_env x)" "node_inv (o_world x) (pr_node p)"
  shows "call_inv (o_world x) (run_world x c p)"
proof -
  have poll: "oinv w (case PollPropertyUpdate w eid key (ghosts s) of (v, g) \<Rightarrow> Ret v (s\<lparr>ghosts := g\<rparr>))"
    if "node_inv w s" for eid key s w using poll_inv [OF that] by (simp add: case_prod_unfold)
  show ?thesis using assms by (cases c) (auto simp: keeps intro!: call_invs poll)
qed

lemma run_tasks_inv:
  assumes "env_ok (o_world x) (o_env x)" "node_inv (o_world x) (pr_node p)"
  shows "call_inv (o_world x) (run_tasks x c p)"
  using assms by (cases c) (auto simp: keeps intro!: call_invs dest: Advance_inv)

lemma run_rpc_api_inv:
  assumes "node_inv (o_world x) (pr_node p)"
  shows "call_inv (o_world x) (run_rpc_api x c p)"
  using assms by (cases c) (auto simp: keeps intro!: call_invs)

lemma run_engine_inv:
  assumes "node_inv (o_world x) (pr_node p)"
  shows "call_inv (o_world x) (run_engine x c p)"
  using assms by (cases c) (auto simp: set_hook_def keeps intro!: call_invs)

lemma run_api_inv:
  assumes "env_ok (o_world x) (o_env x)" "node_inv (o_world x) (pr_node p)"
  shows "call_inv (o_world x) (run_api x c p)"
  using assms by (cases c) (simp_all add: run_top_inv run_world_inv run_tasks_inv run_rpc_api_inv run_engine_inv)

lemma server_ready_inv:
  assumes "node_inv (o_world x) (pr_node p)"
  shows "call_inv (o_world x) (server_ready x host port b p)"
proof (cases b)
  case False
  then show ?thesis using assms by (auto simp: server_ready_def keeps intro: call_invs)
next
  case True
  let ?answer = "o_master x (master_url host port) (master_request (o_getenv x) (pr_config p) (peer_uuid (pr_node p)))"
  have "oinv (o_world x) (master_phase (o_world x) ?answer (pr_node p))" by (rule master_phase_inv [OF assms])
  moreover have "node_inv (o_world x) s \<Longrightarrow> node_inv (o_world x) (fold log_error errs s)" for errs s
    by (rule fold_inv) (simp_all add: keeps)
  ultimately show ?thesis using True
    by (cases "master_phase (o_world x) ?answer (pr_node p)")
      (simp_all add: server_ready_def Let_def case_prod_unfold on_node_inv call_hook_inv)
qed

lemma start_peer_inv:
  assumes "node_inv (o_world x) (pr_node p)"
  shows "call_inv (o_world x) (start_peer x p)"
  using assms
  by (auto simp: start_peer_def Let_def keeps intro!: server_ready_inv call_invs split: list.split)

section \<open>Every reachable state\<close>

text \<open>What the other threads do keeps the invariant, when their steps do.\<close>

lemma closed_env:
  assumes "\<And>k s. \<exists>p p'. pr_node p = s \<and>
      (\<lambda>a b. process_step x a b \<and> (node_inv w (pr_node a) \<longrightarrow> node_inv w (pr_node b)))\<^sup>*\<^sup>* p p' \<and> pr_node p' = env k s"
  shows "env_ok w env"
proof (unfold env_ok_def, intro allI impI)
  fix k s
  assume s: "node_inv w s"
  obtain p p' where p: "pr_node p = s" "pr_node p' = env k s"
    "(\<lambda>a b. process_step x a b \<and> (node_inv w (pr_node a) \<longrightarrow> node_inv w (pr_node b)))\<^sup>*\<^sup>* p p'"
    using assms by blast
  from p(3) have "node_inv w (pr_node p')" by (induction rule: rtranclp_induct) (use p(1) s in auto)
  then show "node_inv w (env k s)" using p(2) by simp
qed

lemma process_step_inv:
  "process_step x p p' \<Longrightarrow> node_inv (o_world x) (pr_node p) \<Longrightarrow> node_inv (o_world x) (pr_node p')"
proof (induction rule: process_step.induct)
  case (api env p c r)
  have "env_ok (o_world x) env" by (rule closed_env) (rule api.IH)
  then have "call_inv (o_world (x\<lparr>o_env := env\<rparr>)) (run_api (x\<lparr>o_env := env\<rparr>) c p)"
    using api.prems by (intro run_api_inv) simp_all
  then show ?case using api.hyps by simp
next
  case (start p r)
  then show ?case using start_peer_inv [of x p] by simp
next
  case (async env p s)
  have "env_ok (o_world x) env" by (rule closed_env) (rule async.IH)
  then show ?case using async_step_inv(1) async.hyps async.prems by simp
next
  case (io env p s)
  have "env_ok (o_world x) env" by (rule closed_env) (rule io.IH)
  then show ?case using async_step_inv(2) io.hyps io.prems by simp
next
  case (request env topic req p s)
  have "env_ok (o_world x) env" by (rule closed_env) (rule request.IH)
  then show ?case using receive_request_inv request.hyps request.prems by simp
qed (simp_all add: keeps http_task_def connect_inv split: list.split)

interpretation process: invariant_system "process_step x" "\<lambda>p. node_inv (o_world x) (pr_node p)"
  by unfold_locales (rule process_step_inv)

lemma new_process_inv: "node_inv w (pr_node (new_process server uuid entries db))"
proof -
  have "lru_inv new_utm" by (simp add: new_utm_def default_capacity_def)
  then show ?thesis
    by (simp add: new_process_def new_node_def rpc.extend_def new_rpc_def node_inv_def stub_ok_def promises_inv_def wire_ok_def methods_ok_def packets_ok_def
        ghost_ok_def new_ghost_def ghost_times_def props_of_def Let_def)
qed

end
