(* ===== verification/Composition.thy ===== *)
theory Composition
  imports Handover Process
begin

text \<open>
  Properties of the whole process: what holds in every state that it can reach, how a server
  joins a cluster and gets its grape, and how a call of one engine arrives at another.
\<close>

section \<open>An outside for the witnesses\<close>

text \<open>The master accepts every node, with an empty payload.\<close>

definition demo_outside :: "unit outside" where
  "demo_outside =
     \<lparr>o_world = demo_world, o_env = (\<lambda>_ s. s), o_broker = (\<lambda>_. SubOk), o_steady = int, o_getenv = (\<lambda>_. None),
      o_master = (\<lambda>_ _. jdump demo_world (JObj [(''message'', JStr ''Node accepted''),
        (''node'', JObj [(''payload'', JStr ''map1'')])])),
      o_http = (\<lambda>_ _. \<lparr>hr_status = 200, hr_text = [], hr_error = []\<rparr>), o_callback = (\<lambda>_ _. None),
      o_cpu = Inr ''0'', o_redis = (\<lambda>_ l. l)\<rparr>"

text \<open>Other threads that do nothing.\<close>

lemma idle_env: "\<exists>p p'. pr_node p = s \<and> (process_step x)\<^sup>*\<^sup>* p p' \<and> pr_node p' = s"
  by (intro exI [of _ "(undefined :: 'db process)\<lparr>pr_node := s\<rparr>"]) simp

lemma demo_outside_world: "o_world demo_outside = demo_world"
  by (simp add: demo_outside_def)

definition idle_outside :: "'db outside \<Rightarrow> bool" where
  "idle_outside x \<longleftrightarrow> o_env x = (\<lambda>_ s. s)"

lemma demo_idle [simp]: "idle_outside demo_outside" "idle_outside x \<Longrightarrow> idle_outside (x\<lparr>o_world := w\<rparr>)"
  by (simp_all add: idle_outside_def demo_outside_def)

lemma api_idle:
  "idle_outside x \<Longrightarrow> exported (server_mode (pr_node p)) c \<Longrightarrow> run_api x c p = Some r \<Longrightarrow> process_step x p (ostate r)"
proof -
  assume a: "idle_outside x" "exported (server_mode (pr_node p)) c" "run_api x c p = Some r"
  have "x\<lparr>o_env := \<lambda>_ s. s\<rparr> = x" using a(1) by (cases x) (simp add: idle_outside_def)
  then show ?thesis using process_step.api [OF idle_env a(2)] a(3) by metis
qed

abbreviation demo_process :: "bool \<Rightarrow> unit process" where
  "demo_process server \<equiv> new_process server ''u1'' [] ()"

section \<open>Every reachable state\<close>

text \<open>C8: Every state that a process reaches, whatever the engine calls, whatever messages arrive and
  however the threads interleave, is well-formed: registries have distinct keys that are the
  ids of their objects, ordered sets are sorted, pending calls have a future of their own,
  the handled requests fit their window, and pending updates are objects of strings.\<close>
theorem reachable_well_formed:
  assumes "(process_step x)\<^sup>*\<^sup>* (new_process server uuid entries db) p"
  shows "node_inv (o_world x) (pr_node p)"
  by (rule process.reachable_inv [OF assms]) (rule new_process_inv)

theorem reachable_well_formed_witness:
  "node_inv demo_world (pr_node (ostate (the (run_api demo_outside (Top (Call_RegisterNewEntity ''e'' ''s'' ''c''))
     (demo_process True)))))"
proof -
  let ?c = "Top (Call_RegisterNewEntity ''e'' ''s'' ''c'')"
  obtain r where r: "run_api demo_outside ?c (demo_process True) = Some r"
    by (simp add: on_node_def)
  have "process_step demo_outside (demo_process True) (ostate r)"
    by (rule api_idle [OF _ _ r]) (simp_all add: exported_def client_calls_def new_process_def new_node_def rpc.extend_def Let_def)
  then have "(process_step demo_outside)\<^sup>*\<^sup>* (demo_process True) (ostate r)" by simp
  from reachable_well_formed [OF this] r show ?thesis by (simp add: demo_outside_def)
qed

text \<open>A run of calls of the engine, for the witnesses.\<close>

fun calls :: "'db outside \<Rightarrow> api list \<Rightarrow> 'db process \<Rightarrow> 'db process option" where
  "calls x [] p = Some p"
| "calls x (c # cs) p =
     (if exported (server_mode (pr_node p)) c
      then (case run_api x c p of None \<Rightarrow> None | Some r \<Rightarrow> calls x cs (ostate r)) else None)"

lemma calls_reach: "calls x cs p = Some p' \<Longrightarrow> idle_outside x \<Longrightarrow> (process_step x)\<^sup>*\<^sup>* p p'"
proof (induction cs arbitrary: p)
  case (Cons c cs)
  from Cons.prems(1) obtain r where r: "exported (server_mode (pr_node p)) c" "run_api x c p = Some r"
    "calls x cs (ostate r) = Some p'" by (auto split: if_splits option.splits)
  have "process_step x p (ostate r)" by (rule api_idle [OF Cons.prems(2) r(1,2)])
  then show ?case using Cons.IH [OF r(3) Cons.prems(2)] by (simp add: converse_rtranclp_into_rtranclp)
qed simp

lemma calls_the: "calls x cs p \<noteq> None \<Longrightarrow> idle_outside x \<Longrightarrow> (process_step x)\<^sup>*\<^sup>* p (the (calls x cs p))"
  using calls_reach by (metis option.collapse)

text \<open>C22: A client never owns anything: in every state that it reaches it has sent no replication
  packet, no container and no entity is locally owned, and a property that the engine sets is
  not recorded.\<close>
theorem client_owns_nothing:
  assumes "(process_step x)\<^sup>*\<^sup>* (new_process server uuid entries db) p" "\<not> server_mode (pr_node p)"
  shows "packets (pr_node p) = [] \<and> \<not> ContainerIsLocallyOwned cid (pr_node p) \<and>
    \<not> IsEntityLocallyOwned eid (pr_node p) \<and> UpdatePropertyState w eid key v (pr_node p) = Ret () (pr_node p)"
proof -
  have inv: "node_inv (o_world x) (pr_node p)"
    by (rule process.reachable_inv [OF assms(1)]) (rule new_process_inv)
  have own: "\<not> ContainerIsLocallyOwned cid (pr_node p)" for cid
    using node_invD(2) [OF inv] assms(2)
    by (auto simp: ContainerIsLocallyOwned_def container_ok_def dest: objects_okD split: option.split)
  moreover have "packets (pr_node p) = []" using inv assms(2) by (simp add: node_inv_def)
  ultimately show ?thesis using assms(2) by (simp add: IsEntityLocallyOwned_def UpdatePropertyState_def)
qed

theorem client_owns_nothing_witness:
  "UpdatePropertyState demo_world ''e'' ''hp'' ''1''
     (pr_node (the (calls demo_outside [Top (Call_RegisterNewEntity ''e'' ''s'' ''c'')] (demo_process False)))) =
   Ret () (pr_node (the (calls demo_outside [Top (Call_RegisterNewEntity ''e'' ''s'' ''c'')] (demo_process False))))"
proof -
  let ?cs = "[Top (Call_RegisterNewEntity ''e'' ''s'' ''c'')]"
  have client: "\<not> server_mode (pr_node (demo_process False))"
    by (simp add: new_process_def new_node_def rpc.extend_def Let_def)
  have "exported False (Top (Call_RegisterNewEntity ''e'' ''s'' ''c''))" by (simp add: exported_def server_calls_def)
  then obtain p where p: "calls demo_outside ?cs (demo_process False) = Some p" "\<not> server_mode (pr_node p)"
    using client
    by (auto simp: on_node_def RegisterEntity_def entity_initRPCService_def new_process_def new_node_def rpc.extend_def Let_def)
  from client_owns_nothing [OF calls_reach [OF p(1) demo_idle(1)] p(2)] p(1) show ?thesis by simp
qed

text \<open>C25: The reference count of a container says nothing about its holders: in every reachable state
  each registered container has count two, however many grapes or clients subscribe to it, and
  whichever holder unsubscribes first removes it.\<close>
theorem reference_count_constant:
  assumes "(process_step x)\<^sup>*\<^sup>* (new_process server uuid entries db) p"
    and "map_of (containers (pr_node p)) cid = Some c"
  shows "ct_refs c = 2 \<and>
    (IsSubscribed h cid (pr_node p) \<longrightarrow> map_of (containers (Unsubscribe h cid (pr_node p))) cid = None)"
proof -
  have inv: "node_inv (o_world x) (pr_node p)"
    by (rule process.reachable_inv [OF assms(1)]) (rule new_process_inv)
  have "ct_refs c = 2"
    using objects_okD [OF node_invD(2) [OF inv] assms(2)] by (simp add: container_ok_def)
  moreover have "map_of (containers (UpdateRefCount cid s)) cid = None" for s
    by (simp add: UpdateRefCount_def use_count_def TrashContainer_def ScheduleAsyncTask_def Let_def hmap_simps
        split: option.split)
  ultimately show ?thesis by (simp add: Unsubscribe_def)
qed

text \<open>A server that owns a grape with one container.\<close>

definition demo_calls :: "api list" where
  "demo_calls = [Top (Call_RegisterGrape ''g'' True None), Top (Call_ContainerCreateAndAttach ''g'' 1)]"

definition demo_attached :: "unit process" where
  "demo_attached = the (calls demo_outside demo_calls (demo_process True))"

lemma demo_attached: "(process_step demo_outside)\<^sup>*\<^sup>* (demo_process True) demo_attached"
proof -
  have "calls demo_outside demo_calls (demo_process True) \<noteq> None" by code_simp
  then show ?thesis unfolding demo_attached_def by (rule calls_the) simp
qed

theorem reference_count_constant_witness:
  "IsSubscribed (GrapeSubs ''g'') (gen_uuid demo_world 0) (pr_node demo_attached) \<and>
   map_of (containers (Unsubscribe (GrapeSubs ''g'') (gen_uuid demo_world 0) (pr_node demo_attached))) (gen_uuid demo_world 0) = None"
proof -
  have "hcontains (containers (pr_node demo_attached)) (gen_uuid demo_world 0)" by code_simp
  then obtain c where c: "map_of (containers (pr_node demo_attached)) (gen_uuid demo_world 0) = Some c"
    by (auto simp: hcontains_def)
  have "IsSubscribed (GrapeSubs ''g'') (gen_uuid demo_world 0) (pr_node demo_attached)" by code_simp
  with reference_count_constant [OF demo_attached c] show ?thesis by blast
qed

section \<open>What the engine reads\<close>

text \<open>C24: The named tasks that the engine pops always have the type that it asks for: in every reachable
  state both pops return, and what they return has three or four strings.\<close>
theorem engine_pops_typed:
  assumes "(process_step x)\<^sup>*\<^sup>* (new_process server uuid entries db) p"
    and "(c, n) \<in> {(Call_PopAssignmentByProxy gid, 3), (Call_PopCMIInstantiate gid, 4)}"
  shows "\<exists>t p'. run_api x (Tasks c) p = Some (Ret (ATuple t) p') \<and> (case t of None \<Rightarrow> True | Some args \<Rightarrow> length args = n)"
proof -
  have inv: "node_inv (o_world x) (pr_node p)"
    by (rule process.reachable_inv [OF assms(1)]) (rule new_process_inv)
  obtain name where name: "(name, n) \<in> {(''CMIInstantiate'', 4), (''proxyTakeAuthority'', 3)}"
    "run_api x (Tasks c) p = on_node ATuple (PopNamedTaskFromEngine n gid name) p"
    using assms(2) by auto
  obtain t s where pop: "PopNamedTaskFromEngine n gid name (pr_node p) = Ret t s"
    using PopNamed_returns [OF inv name(1), of gid] by (cases "PopNamedTaskFromEngine n gid name (pr_node p)") auto
  have "length args = n" if "t = Some args" for args
    using pop that
    by (auto simp: PopNamedTaskFromEngine_def popNamedTaskFromEngine_def Let_def
        split: option.splits outcome.splits list.splits if_splits)
  with name(2) pop show ?thesis by (auto simp: on_node_def split: option.split)
qed

theorem engine_pops_typed_witness:
  "\<exists>t p'. run_api demo_outside (Tasks (Call_PopCMIInstantiate ''g'')) demo_attached = Some (Ret (ATuple t) p')"
  using engine_pops_typed [OF demo_attached, of "Call_PopCMIInstantiate ''g''" 4 "''g''"] by blast

text \<open>C35: The history of an input that the engine reads has at least one and at most ten entries, in every
  reachable state and however many inputs have arrived, and a further input leaves the nine
  latest entries in their order before it.\<close>
theorem input_history_bounded:
  assumes "(process_step x)\<^sup>*\<^sup>* (new_process server uuid entries db) p"
    and "run_api x (Engine (Call_GetInputCircularBuf player name)) p = Some (Ret (AInputs (Some b)) p')"
  shows "1 \<le> length b \<and> length b \<le> 10 \<and>
    (\<exists>now. GetEntityCircularBuf player name (HandleInput w player name status ix iy (pr_node p)) =
       Some (drop (length b - 9) b @ [\<lparr>in_status = status, in_time = now, in_x = ix, in_y = iy\<rparr>]))"
proof -
  have inv: "node_inv (o_world x) (pr_node p)"
    by (rule process.reachable_inv [OF assms(1)]) (rule new_process_inv)
  obtain e where e: "map_of (entities (pr_node p)) player = Some e" "map_of (et_inputs e) name = Some b"
    using assms(2) by (auto simp: ask_def GetEntityCircularBuf_def split: option.splits)
  have b: "b \<noteq> []" "length b \<le> input_capacity"
    using objects_okD [OF node_invD(1) [OF inv] e(1)] e(2) by (simp_all add: entity_ok_def)
  obtain now where "GetEntityCircularBuf player name (HandleInput w player name status ix iy (pr_node p)) =
      Some (ring_push \<lparr>in_status = status, in_time = now, in_x = ix, in_y = iy\<rparr> b)"
    using e by (auto simp: HandleInput_def GetEntityCircularBuf_def case_prod_unfold Let_def hmap_simps read_sys_def)
  then show ?thesis using b by (auto simp: ring_push_def input_capacity_def Suc_le_eq)
qed

text \<open>A player with one input.\<close>

definition demo_player :: "unit process" where
  "demo_player =
     (let p = the (calls demo_outside [Top (Call_RegisterNewEntity ''e'' ''s'' ''c'')] (demo_process True))
      in p\<lparr>pr_node := HandleInput demo_world ''e'' ''jump'' True 0 0 (pr_node p)\<rparr>)"

lemma demo_player: "(process_step demo_outside)\<^sup>*\<^sup>* (demo_process True) demo_player"
proof -
  let ?cs = "[Top (Call_RegisterNewEntity ''e'' ''s'' ''c'')]"
  have "calls demo_outside ?cs (demo_process True) \<noteq> None" by code_simp
  then obtain p where p: "calls demo_outside ?cs (demo_process True) = Some p" by blast
  have "process_step demo_outside p (p\<lparr>pr_node := HandleInput (o_world demo_outside) ''e'' ''jump'' True 0 0 (pr_node p)\<rparr>)"
    by (rule process_step.input)
  moreover have "demo_player = p\<lparr>pr_node := HandleInput (o_world demo_outside) ''e'' ''jump'' True 0 0 (pr_node p)\<rparr>"
    by (simp only: demo_player_def p option.sel Let_def demo_outside_world)
  ultimately have "process_step demo_outside p demo_player" by simp
  with calls_reach [OF p demo_idle(1)] show ?thesis by (rule rtranclp.rtrancl_into_rtrancl)
qed

theorem input_history_bounded_witness:
  "\<exists>b p'. run_api demo_outside (Engine (Call_GetInputCircularBuf ''e'' ''jump'')) demo_player = Some (Ret (AInputs (Some b)) p') \<and>
    length b \<le> 10"
proof -
  have "GetEntityCircularBuf ''e'' ''jump'' (pr_node demo_player) \<noteq> None" by code_simp
  then obtain b where "GetEntityCircularBuf ''e'' ''jump'' (pr_node demo_player) = Some b" by blast
  then have "run_api demo_outside (Engine (Call_GetInputCircularBuf ''e'' ''jump'')) demo_player =
    Some (Ret (AInputs (Some b)) demo_player)" by (simp add: ask_def)
  with input_history_bounded [OF demo_player this] show ?thesis by blast
qed

end
