(* ===== verification/Connecting.thy ===== *)
theory Connecting
  imports Composition
begin

text \<open>
  A process connects once: the parts of the process that only a connection changes, and what a
  second connection leads to.
\<close>

section \<open>What only a connection changes\<close>

text \<open>
  Before the first connection there is no reader of the clock, no task of a peer service and no
  thread of the metrics; after it the clock has a reader for ever.
\<close>

definition connected_ok :: "'db process \<Rightarrow> bool" where
  "connected_ok p \<longleftrightarrow>
     (if pr_peer p then pr_clock p \<noteq> []
      else pr_clock p = [] \<and> pr_boot p = [] \<and> \<not> pr_upload p \<and> \<not> mt_running (pr_metrics p))"

definition same_services :: "'db process \<Rightarrow> 'db process \<Rightarrow> bool" where
  "same_services p p' \<longleftrightarrow>
     pr_peer p' = pr_peer p \<and> pr_clock p' = pr_clock p \<and> pr_boot p' = pr_boot p \<and> pr_upload p' = pr_upload p \<and>
     mt_running (pr_metrics p') = mt_running (pr_metrics p)"

lemma same_services_refl [simp]: "same_services p p"
  by (simp add: same_services_def)

lemma same_services_trans: "same_services p q \<Longrightarrow> same_services q r \<Longrightarrow> same_services p r"
  by (simp add: same_services_def)

lemma same_connected: "same_services p p' \<Longrightarrow> connected_ok p \<Longrightarrow> connected_ok p'"
  by (simp add: same_services_def connected_ok_def)

definition call_same :: "'db process \<Rightarrow> ('db process, result) outcome option \<Rightarrow> bool" where
  "call_same p r \<longleftrightarrow> (\<forall>o'. r = Some o' \<longrightarrow> same_services p (ostate o'))"

lemma call_same_simps [simp]:
  "call_same p None" "call_same p (Some r) = same_services p (ostate r)"
  by (simp_all add: call_same_def)

lemma on_node_same [simp]: "call_same p (on_node f op p)"
  by (simp add: on_node_def same_services_def split: outcome.split)

lemma node_calls_same [simp]:
  "call_same p (change g p)" "call_same p (on_node_option f op' p)" "call_same p (ask h p)" "call_same p (on_logger k p)"
  by (simp_all add: change_def on_node_option_def ask_def on_logger_def same_services_def split: option.split)

lemma with_peer_same: "call_same p (f p) \<Longrightarrow> call_same p (with_peer f p)"
  by (simp add: with_peer_def)

lemma advanceSyncTasks_same: "same_services p0 p \<Longrightarrow> call_same p0 (advanceSyncTasks x ts p)"
proof (induction ts arbitrary: p)
  case (Cons t ts)
  then show ?case by (auto simp: same_services_def split: option.split outcome.split)
qed (simp add: same_services_def)

lemma map_call_same: "(\<And>a. same_services p (ostate (f a))) \<Longrightarrow> call_same p (map_option f m)"
  by (cases m) simp_all

lemma run_top_same: "connection_of x c p = None \<Longrightarrow> call_same p (run_top x c p)"
  by (cases c)
    (auto simp: connection_of_def advanceSyncTasks_same intro!: map_call_same, simp_all add: same_services_def)

lemma run_world_same: "call_same p (run_world x c p)"
  by (cases c) (auto simp: same_services_def RegisterMetric_def intro: with_peer_same)

lemma run_tasks_same: "call_same p (run_tasks x c p)"
  by (cases c) (auto intro: with_peer_same)

lemma run_rpc_api_same: "call_same p (run_rpc_api x c p)"
  by (cases c) (auto intro: with_peer_same)

lemma run_engine_same: "call_same p (run_engine x c p)"
  by (cases c) (auto simp: same_services_def set_hook_def intro: with_peer_same)

lemmas other_calls_same = run_world_same run_tasks_same run_rpc_api_same run_engine_same

lemma connect_process_connected: "connected_ok (connect_process c p)" "pr_peer (connect_process c p)"
  by (simp_all add: connected_ok_def connect_process_def clock_Start_def)

text \<open>A connection returns to the engine exactly if there was none.\<close>

lemma connect_call_iff:
  assumes "connected_ok p"
  shows "connect_call c p = (if pr_peer p then None else Some (Ret Void (connect_process c p)))"
  using assms by (simp add: connect_call_def Let_def clock_Stop_returns connect_process_def clock_Start_def)

lemma run_top_connection:
  "connection_of x c p = Some cn \<Longrightarrow> run_top x c p = connect_call cn p"
  by (cases c) (simp_all add: connection_of_def)

lemma run_api_connected:
  assumes "connected_ok p" "run_api x c p = Some r"
  shows "connected_ok (ostate r)"
proof (cases "\<exists>t cn. c = Top t \<and> connection_of x t p = Some cn")
  case True
  then show ?thesis
    using assms by (auto simp: run_top_connection connect_call_iff connect_process_connected split: if_splits)
next
  case False
  have "call_same p (run_api x c p)"
  proof (cases c)
    case (Top t)
    with False have "connection_of x t p = None" by (cases "connection_of x t p") auto
    with Top show ?thesis by (simp add: run_top_same)
  qed (simp_all add: other_calls_same)
  then show ?thesis using assms same_connected by (auto simp: call_same_def)
qed

section \<open>The peer service starts\<close>

lemma metrics_Start_running: "mt_running (snd (metrics_Start env c uuid cpu m))"
  by (auto simp: metrics_Start_def Let_def split: sum.split)

lemma start_peer_connected:
  assumes "connected_ok p" "start_peer x p = Some r"
  shows "connected_ok (ostate r)"
proof (cases "pr_boot p")
  case Nil
  then show ?thesis using assms by (auto simp: start_peer_def)
next
  case (Cons b rest)
  then have peer: "pr_peer p" "pr_clock p \<noteq> []" using assms(1) by (auto simp: connected_ok_def split: if_splits)
  have "pr_peer (ostate r) \<and> pr_clock (ostate r) = pr_clock p"
    using assms(2) peer Cons
    by (auto simp: start_peer_def server_ready_def on_node_def Let_def case_prod_unfold split: if_splits outcome.splits)
  then show ?thesis using peer by (simp add: connected_ok_def)
qed

text \<open>The task of a second peer service ends the process of a server whose metrics have started.\<close>

lemma second_start_aborts:
  assumes "pr_boot p = b # rest" "server_mode (pr_node p)" "mt_running (pr_metrics p)"
    and "\<And>answer. \<exists>s. master_phase (o_world x) answer (initPeerRPCs (pr_node p)) = Ret () s"
  shows "start_peer x p = None"
proof -
  obtain host port where b: "b = (host, port)" by fastforce
  let ?s = "initPeerRPCs (pr_node p)"
  obtain s where "master_phase (o_world x)
      (o_master x (master_url host port) (master_request (o_getenv x) (pr_config p) (peer_uuid ?s))) ?s = Ret () s"
    using assms(4) by blast
  then show ?thesis using assms(1-3) b by (simp add: start_peer_def server_ready_def waitNetworkReady_def Let_def)
qed

section \<open>Every reachable state\<close>

lemma process_step_connected: "process_step x p p' \<Longrightarrow> connected_ok p \<Longrightarrow> connected_ok p'"
proof (induction rule: process_step.induct)
  case (api env p c r)
  then show ?case using run_api_connected by blast
next
  case (start p r)
  then show ?case using start_peer_connected by blast
next
  case (clock_opened i p rs)
  then have "rs = [] \<longleftrightarrow> pr_clock p = []" by (auto simp: clock_opened_def split: if_splits)
  then show ?case using clock_opened.prems by (simp add: connected_ok_def)
qed (auto simp: connected_ok_def http_task_def connect_process_connected connect_process_def clock_Start_def split: list.split if_splits)

interpretation connecting: invariant_system "process_step x" connected_ok
  by unfold_locales (rule process_step_connected)

lemma new_process_connected: "connected_ok (new_process server uuid entries db)"
  by (simp add: connected_ok_def new_process_def new_metrics_def Let_def)

lemma process_step_peer: "process_step x p p' \<Longrightarrow> pr_peer p \<Longrightarrow> connected_ok p \<Longrightarrow> pr_peer p'"
proof (induction rule: process_step.induct)
  case (api env p c r)
  have "call_same p (run_api (x\<lparr>o_env := env\<rparr>) c p) \<or> run_api (x\<lparr>o_env := env\<rparr>) c p = None"
  proof (cases c)
    case (Top t)
    show ?thesis
    proof (cases "connection_of (x\<lparr>o_env := env\<rparr>) t p")
      case None
      then show ?thesis using Top by (simp add: run_top_same)
    next
      case (Some cn)
      then show ?thesis using Top api.prems by (simp add: run_top_connection connect_call_iff)
    qed
  qed (simp_all add: other_calls_same)
  then show ?case using api.hyps api.prems by (auto simp: same_services_def)
next
  case (start p r)
  then show ?case
    by (auto simp: start_peer_def server_ready_def on_node_def Let_def case_prod_unfold split: list.splits if_splits outcome.splits)
qed (auto simp: http_task_def connect_process_def split: list.split)

lemma peer_stays:
  assumes "(process_step x)\<^sup>*\<^sup>* p p'" "connected_ok p" "pr_peer p"
  shows "connected_ok p' \<and> pr_peer p'"
  using assms
  by (induction rule: rtranclp_induct) (auto dest: process_step_connected process_step_peer)



end
