(* ===== verification/Delivery.thy ===== *)
theory Delivery
  imports Connecting
begin

text \<open>
  How processes work together over the exported calls: a server joins the cluster and gets its
  grape from the master, and an instantiation that one engine asks for arrives at the engine
  of the grape's owner.
\<close>

section \<open>Joining the cluster\<close>

lemma fold_log_error: "fold log_error errs s = s\<lparr>errors := errors s @ errs\<rparr>"
  by (induction errs arbitrary: s) (simp_all add: log_error_def)

text \<open>The answer of a master that accepts the node.\<close>

definition accepts :: "world \<Rightarrow> string \<Rightarrow> string \<Rightarrow> bool" where
  "accepts w payload answer \<longleftrightarrow>
     (\<exists>response nd. jparse w answer = Some response \<and> json_at response ''message'' = Inr (JStr ''Node accepted'') \<and>
        json_at response ''node'' = Inr nd \<and> json_at nd ''payload'' = Inr (JStr payload))"

lemma accepted_phase:
  assumes "accepts w payload answer" "OnServerReceivedInitializationPayload \<in> set (hooks_set s)"
  shows "master_phase w answer s = Ret ()
    ((InitGlobalRPC s)\<lparr>hook_calls := hook_calls s @ [(OnServerReceivedInitializationPayload, [payload])]\<rparr>)"
proof -
  have "hooks_set (InitGlobalRPC s) = hooks_set s" "hook_calls (InitGlobalRPC s) = hook_calls s"
    by (simp_all add: InitGlobalRPC_def)
  then show ?thesis using assms
    by (auto simp: accepts_def master_phase_def connectToMaster_def call_hook_def)
qed

definition server_methods :: "string list" where
  "server_methods = [''AssignGrape'', ''RequestSpawnPosition'', ''AcceptNewClient'', ''RPCHandler'']"

lemma initPeerRPCs_server:
  assumes "server_mode s" "\<forall>m \<in> set server_methods.
      lookup_method s (tp_rpc (topic_scope s) (peer_uuid s)) (rpc_name ''PeerService'' m) = None"
    and "m \<in> set server_methods"
  shows "lookup_method (InitGlobalRPC (initPeerRPCs s)) (tp_rpc (topic_scope s) (peer_uuid s)) (rpc_name ''PeerService'' m) =
    Some (PeerMethod m)"
  using assms
  by (auto simp: initPeerRPCs_def registerServerRPCs_def subscribe_peer_method_def InitGlobalRPC_def server_methods_def
      lookup_register rpc_name_def)

lemma initPeerRPCs_frame [simp]:
  "handled (initPeerRPCs s) = handled s" "hooks_set (initPeerRPCs s) = hooks_set s"
  "hook_calls (initPeerRPCs s) = hook_calls s" "top_tasks (initPeerRPCs s) = top_tasks s"
  "server_mode (initPeerRPCs s) = server_mode s" "topic_scope (initPeerRPCs s) = topic_scope s"
  "peer_uuid (initPeerRPCs s) = peer_uuid s"
  by (simp_all add: initPeerRPCs_def registerServerRPCs_def registerClientRPCs_def subscribe_peer_method_def)

lemma InitGlobalRPC_frame [simp]:
  "handled (InitGlobalRPC s) = handled s" "hooks_set (InitGlobalRPC s) = hooks_set s"
  "hook_calls (InitGlobalRPC s) = hook_calls s" "top_tasks (InitGlobalRPC s) = top_tasks s"
  "topic_scope (InitGlobalRPC s) = topic_scope s" "peer_uuid (InitGlobalRPC s) = peer_uuid s"
  by (simp_all add: InitGlobalRPC_def)

text \<open>The scope of the session that a server connects to.\<close>

definition session_scope :: "'db outside \<Rightarrow> 'db process \<Rightarrow> string" where
  "session_scope x p =
     ''non-persistent://public/'' @ value_or ''default'' (config_get (o_getenv x) (pr_config p) ''CELTE_SESSION_ID'') @ ''/''"

text \<open>C4: A server that connects for the first time and is accepted by the master listens for the four methods of its peer
  service in the scope of its session, has told the engine its initialisation payload and then
  that the connection succeeded, and uploads replication data; the first order of the master to
  assign it a grape sets the grape and gives the engine the task to load it.\<close>
theorem server_joins:
  assumes "(process_step x)\<^sup>*\<^sup>* (new_process server uuid entries db) p" "server_mode (pr_node p)" "\<not> pr_peer p"
    and "{OnServerReceivedInitializationPayload, OnConnectionSuccess} \<subseteq> set (hooks_set (pr_node p))"
    and "\<And>url body. accepts (o_world x) payload (o_master x url body)"
    and "\<forall>m \<in> set server_methods.
      lookup_method (pr_node p) (tp_rpc (session_scope x p) (peer_uuid (pr_node p))) (rpc_name ''PeerService'' m) = None"
    and "rq_name req = rpc_name ''PeerService'' ''AssignGrape''" "rq_responds_to req = []"
    and "jparse (o_world x) (rq_args req) = Some (JArr [JStr gid])" "\<not> remembers (pr_node p) (rq_rpc_id req)"
  shows "\<exists>p1 p2 s3. run_api x (Top Call_ServerNodeConnect) p = Some (Ret Void p1) \<and>
    start_peer x p1 = Some (Ret Void p2) \<and> topic_scope (pr_node p2) = session_scope x p \<and> pr_upload p2 \<and>
    (\<forall>m \<in> set server_methods. lookup_method (pr_node p2) (tp_rpc (session_scope x p) (peer_uuid (pr_node p)))
       (rpc_name ''PeerService'' m) = Some (PeerMethod m)) \<and>
    hook_calls (pr_node p2) = hook_calls (pr_node p) @
      [(OnServerReceivedInitializationPayload, [payload]), (OnConnectionSuccess, [])] \<and>
    receive_request (o_world x) env (tp_rpc (session_scope x p) (peer_uuid (pr_node p))) req (pr_node p2) = Some s3 \<and>
    assigned_grape s3 = gid \<and> top_tasks s3 = top_tasks (pr_node p) @ [LoadGrapeHook gid True]"
proof -
  define c where "c = server_connect (o_getenv x) (pr_config p)"
  define p1 where "p1 = connect_process c p"
  define s0 where "s0 = pr_node p1"
  have first: "connected_ok p" by (rule connecting.reachable_inv [OF assms(1)]) (rule new_process_connected)
  then have run: "run_api x (Top Call_ServerNodeConnect) p = Some (Ret Void p1)"
    using assms(3) by (simp add: p1_def c_def connect_call_iff)
  have idle: "pr_boot p = []" "\<not> mt_running (pr_metrics p1)"
    using first assms(3) by (simp_all add: connected_ok_def p1_def connect_process_def)
  have s0: "topic_scope s0 = session_scope x p" "methods s0 = methods (pr_node p)" "peer_uuid s0 = peer_uuid (pr_node p)"
    "server_mode s0" "hooks_set s0 = hooks_set (pr_node p)" "hook_calls s0 = hook_calls (pr_node p)"
    "handled s0 = handled (pr_node p)" "top_tasks s0 = top_tasks (pr_node p)"
    using assms(2)
    by (simp_all add: s0_def p1_def connect_process_def c_def server_connect_def SetSessionId_def Let_def session_scope_def)
  let ?topic = "tp_rpc (session_scope x p) (peer_uuid (pr_node p))"
  define s1 where "s1 = InitGlobalRPC (initPeerRPCs s0)"
  have bound: "lookup_method s1 ?topic (rpc_name ''PeerService'' m) = Some (PeerMethod m)" if "m \<in> set server_methods" for m
  proof -
    have "lookup_method s0 ?topic n = lookup_method (pr_node p) ?topic n" for n by (simp add: lookup_method_def s0(2))
    then have "\<forall>m \<in> set server_methods. lookup_method s0 (tp_rpc (topic_scope s0) (peer_uuid s0)) (rpc_name ''PeerService'' m) = None"
      using assms(6) s0(1,3) by simp
    from initPeerRPCs_server [OF s0(4) this that] show ?thesis by (simp add: s1_def s0(1,3))
  qed
  define url where "url = master_url (cn_master_host c) (cn_master_port c)"
  define body where "body = master_request (o_getenv x) (pr_config p1) (peer_uuid s0)"
  define hc where "hc = hook_calls s0 @ [(OnServerReceivedInitializationPayload, [payload])]"
  have phase: "master_phase (o_world x) (o_master x url body) (initPeerRPCs s0) = Ret () (s1\<lparr>hook_calls := hc\<rparr>)"
    using accepted_phase [OF assms(5), of "initPeerRPCs s0" url body] assms(4) s0(5) by (simp add: s1_def hc_def)
  obtain errs m where m: "metrics_Start (o_getenv x) (pr_config p1) (peer_uuid s0) (o_cpu x) (pr_metrics p1) = (errs, m)"
    by (cases "metrics_Start (o_getenv x) (pr_config p1) (peer_uuid s0) (o_cpu x) (pr_metrics p1)")
  define s2 where "s2 = s1\<lparr>hook_calls := hc @ [(OnConnectionSuccess, [])], errors := errors s1 @ errs\<rparr>"
  define p2 where "p2 = p1\<lparr>pr_boot := [], pr_node := s2, pr_metrics := m, pr_upload := True\<rparr>"
  have boot: "pr_boot p1 = [(cn_master_host c, cn_master_port c)]" using idle(1) by (simp add: p1_def connect_process_def)
  have start: "start_peer x p1 = Some (Ret Void p2)"
    using s0(4) phase m assms(4) s0(5) idle(2)
    by (simp add: start_peer_def boot server_ready_def waitNetworkReady_def s0_def [symmetric] url_def [symmetric]
        body_def [symmetric] fold_log_error on_node_def call_hook_def p2_def s2_def s1_def Let_def)
  have inv: "node_inv (o_world x) (pr_node p)"
    by (rule process.reachable_inv [OF assms(1)]) (rule new_process_inv)
  have s2: "handled s2 = handled (pr_node p)" "top_tasks s2 = top_tasks (pr_node p)"
    "lookup_method s2 ?topic n = lookup_method s1 ?topic n" for n
    by (simp_all add: s2_def s1_def s0 lookup_method_def)
  have assign: "exec_delegate (o_world x) env (PeerMethod ''AssignGrape'') (JArr [JStr gid]) (s2\<lparr>handled := l\<rparr>) =
      Ret (JBool True) (snd (AssignGrape gid (s2\<lparr>handled := l\<rparr>)))" for l
    by (subst exec_decoded [of _ _ "[gid]"])
      (simp_all add: delegate_arity_def decode_args_def tuple_args_def run_method_def exec_peer_def ret_bool_def AssignGrape_def)
  have pre: "lru_inv (handled s2)" "\<not> remembers s2 (rq_rpc_id req)"
    "lookup_method s2 ?topic (rq_name req) = Some (PeerMethod ''AssignGrape'')"
    "PeerMethod ''AssignGrape'' \<noteq> PeerMethod ''ForceConnectToNode''"
    using node_invD(7) [OF inv] assms(7,10) bound [of "''AssignGrape''"]
    by (simp_all add: stub_ok_def s2 remembers_def server_methods_def)
  obtain l where l: "receive_request (o_world x) env ?topic req s2 =
      Some (if rq_response_topic req = [] then snd (AssignGrape gid (s2\<lparr>handled := l\<rparr>))
            else snd (callee_write (o_world x) (rq_response_topic req) (response_request (o_world x) req (JBool True) False)
              (snd (AssignGrape gid (s2\<lparr>handled := l\<rparr>)))))"
    using receive_call [OF pre(1,2) assms(8) pre(3,4) assms(9) assign] by blast
  have "assigned_grape (snd (AssignGrape gid u)) = gid \<and> top_tasks (snd (AssignGrape gid u)) = top_tasks u @ [LoadGrapeHook gid True]" for u
    by (simp add: AssignGrape_def push_top_def SetAssignedGrape_def PushTaskToEngine_def)
  then have "\<exists>s3. receive_request (o_world x) env ?topic req s2 = Some s3 \<and> assigned_grape s3 = gid \<and>
      top_tasks s3 = top_tasks (pr_node p) @ [LoadGrapeHook gid True]"
    using l s2(2) node_more [of "snd (callee_write w t r u)" u for w t r u] by simp
  moreover have "pr_node p2 = s2" "topic_scope s2 = session_scope x p"
    "hook_calls s2 = hook_calls (pr_node p) @ [(OnServerReceivedInitializationPayload, [payload]), (OnConnectionSuccess, [])]"
    by (simp_all add: p2_def s2_def s1_def s0 hc_def)
  ultimately show ?thesis using run start bound s2(3) by (auto simp: p2_def)
qed

text \<open>A server whose engine has set the two hooks, and the order of the master.\<close>

definition demo_ready :: "unit process" where
  "demo_ready = the (calls demo_outside
     [Engine (Call_SetHook OnServerReceivedInitializationPayload), Engine (Call_SetHook OnConnectionSuccess)]
     (demo_process True))"

lemma demo_ready: "(process_step demo_outside)\<^sup>*\<^sup>* (demo_process True) demo_ready"
proof -
  have "calls demo_outside
     [Engine (Call_SetHook OnServerReceivedInitializationPayload), Engine (Call_SetHook OnConnectionSuccess)]
     (demo_process True) \<noteq> None" by code_simp
  then show ?thesis unfolding demo_ready_def by (rule calls_the) simp
qed

lemma demo_accepts: "accepts (o_world demo_outside) ''map1'' (o_master demo_outside url body)"
  by (simp add: accepts_def demo_outside_def demo_world_def demo_roundtrip)

definition assign_request :: rpc_request where
  "assign_request = new_request\<lparr>rq_name := rpc_name ''PeerService'' ''AssignGrape'', rq_rpc_id := ''r1'',
     rq_args := jdump demo_world (JArr [JStr ''g''])\<rparr>"

theorem server_joins_witness:
  "\<exists>p1 p2 s3. run_api demo_outside (Top Call_ServerNodeConnect) demo_ready = Some (Ret Void p1) \<and>
    start_peer demo_outside p1 = Some (Ret Void p2) \<and>
    receive_request demo_world (\<lambda>_ s. s) (tp_rpc ''non-persistent://public/default/'' ''u1'') assign_request (pr_node p2) = Some s3 \<and>
    assigned_grape s3 = ''g''"
proof -
  have scope: "session_scope demo_outside demo_ready = ''non-persistent://public/default/''" by code_simp
  have uuid: "peer_uuid (pr_node demo_ready) = ''u1''" by code_simp
  have "server_mode (pr_node demo_ready)" "\<not> pr_peer demo_ready" by code_simp+
  moreover have "{OnServerReceivedInitializationPayload, OnConnectionSuccess} \<subseteq> set (hooks_set (pr_node demo_ready))"
    by code_simp
  moreover have "methods (pr_node demo_ready) = []" by code_simp
  then have "lookup_method (pr_node demo_ready) topic n = None" for topic n by (simp add: lookup_method_def)
  moreover have "jparse (o_world demo_outside) (rq_args assign_request) = Some (JArr [JStr ''g''])" by code_simp
  moreover have "\<not> remembers (pr_node demo_ready) (rq_rpc_id assign_request)" by code_simp
  moreover have "rq_name assign_request = rpc_name ''PeerService'' ''AssignGrape''" "rq_responds_to assign_request = []"
    by (simp_all add: assign_request_def new_request_def)
  ultimately show ?thesis
    using server_joins [OF demo_ready _ _ _ demo_accepts, of assign_request "''g''" "\<lambda>_ s. s"]
    by (fastforce simp: scope uuid demo_outside_world)
qed

section \<open>An instantiation at the owner\<close>

text \<open>The calls that the engine makes one after the other, with the same arguments.\<close>

fun pops :: "'db outside \<Rightarrow> api \<Rightarrow> nat \<Rightarrow> 'db process \<Rightarrow> result list" where
  "pops x c 0 p = []"
| "pops x c (Suc n) p = (case run_api x c p of Some (Ret r p') \<Rightarrow> r # pops x c n p' | _ \<Rightarrow> [])"

lemma pops_waiting:
  assumes "map_of (grapes (pr_node p)) gid = Some g" "waiting ''CMIInstantiate'' (gr_named g) = xs @ ys"
    and "\<forall>a \<in> set xs. length a = 4"
  shows "pops x (Tasks (Call_PopCMIInstantiate gid)) (length xs) p = map (\<lambda>a. ATuple (Some a)) xs"
  using assms
proof (induction xs arbitrary: p g)
  case (Cons a xs)
  have "waiting ''CMIInstantiate'' (gr_named g) = a # (xs @ ys)" using Cons.prems(2) by simp
  from popNamed_item [OF this, of 4] Cons.prems(3) obtain qs where qs:
    "popNamedTaskFromEngine 4 ''CMIInstantiate'' (gr_named g) = Ret (Some a) qs" "waiting ''CMIInstantiate'' qs = xs @ ys"
    by auto
  let ?p = "p\<lparr>pr_node := update_grape gid (\<lambda>g. g\<lparr>gr_named := qs\<rparr>) (pr_node p)\<rparr>"
  have "pops x (Tasks (Call_PopCMIInstantiate gid)) (length xs) ?p = map (\<lambda>a. ATuple (Some a)) xs"
    by (rule Cons.IH [of ?p "g\<lparr>gr_named := qs\<rparr>"])
       (use Cons.prems(1,3) qs(2) in \<open>simp_all add: update_grape_def hmap_simps\<close>)
  then show ?case
    using Cons.prems(1) qs(1) by (simp add: on_node_def PopNamedTaskFromEngine_def)
qed simp

lemma reachable_tuples:
  assumes "(process_step x)\<^sup>*\<^sup>* (new_process server uuid entries db) p" "map_of (grapes (pr_node p)) gid = Some g"
  shows "\<forall>a \<in> set (waiting ''CMIInstantiate'' (gr_named g)). length a = 4"
proof -
  have "node_inv (o_world x) (pr_node p)"
    by (rule process.reachable_inv [OF assms(1)]) (rule new_process_inv)
  from objects_okD [OF node_invD(3) [OF this] assms(2)] show ?thesis by (simp add: grape_ok_def named_ok_def)
qed

text \<open>The message of the call.\<close>

definition cmi_request :: "world \<Rightarrow> nat \<Rightarrow> string list \<Rightarrow> rpc_request" where
  "cmi_request w n args = fired_request w n (rpc_name ''Grape'' ''CMIInstantiate'') (map JStr args)"

lemma CallCMIInstantiate_effect:
  assumes "producer_ok w (tp_peer (topic_scope s) gid)" "\<And>a. serial_ok w a"
  shows "\<exists>s'. CallCMIInstantiate w gid cmi prefab payload cl s = Ret () s' \<and>
    wire s' = wire s @ [(tp_peer (topic_scope s) gid, cmi_request w (uuid_reads s) [cmi, prefab, payload, cl])]"
proof -
  let ?t = "on_fail FailLogError (builder_for (on_peer (topic_scope s) gid))"
  have scope: "tp_scope ?t = tp_peer (topic_scope s) gid"
    by (simp add: builder_defs on_peer_def topic_defs)
  show ?thesis
    using fire_effect [of w ?t "rpc_name ''Grape'' ''CMIInstantiate''" "map JStr [cmi, prefab, payload, cl]" s] assms
    unfolding scope by (auto simp: CallCMIInstantiate_def fire_log_error_def cmi_request_def)
qed

lemma receive_cmi:
  assumes "lru_inv (handled q)" "\<not> remembers q (gen_uuid w n)" "\<And>j. jparse w (jdump w j) = Some j"
    and "lookup_method q topic (rpc_name ''Grape'' ''CMIInstantiate'') = Some (GrapeMethod gid ''CMIInstantiate'')"
  shows "\<exists>l. receive_request w env topic (cmi_request w n [cmi, prefab, payload, cl]) q =
      Some (CMIInstantiate gid cmi prefab payload cl (q\<lparr>handled := l\<rparr>)) \<and> lru_inv l \<and> gen_uuid w n \<in> set (recency l)"
proof -
  have "exec_delegate w env (GrapeMethod gid ''CMIInstantiate'') (JArr (map JStr [cmi, prefab, payload, cl]))
      (q\<lparr>handled := l\<rparr>) = Ret JNull (CMIInstantiate gid cmi prefab payload cl (q\<lparr>handled := l\<rparr>))" for l
    by (subst exec_decoded [of _ _ "[cmi, prefab, payload, cl]"])
      (simp_all add: delegate_arity_def decode_args_def tuple_args_def run_method_def exec_grape_def)
  from receive_call [where req = "cmi_request w n [cmi, prefab, payload, cl]" and topic = topic, OF assms(1) _ _ _ _ _ this]
  show ?thesis using assms(2-4)
    by (auto simp: cmi_request_def fired_request_def new_request_def serialize_args_def)
qed

text \<open>C3: What one engine asks a grape to instantiate arrives at the engine of the grape's owner: the call
  sends one message on the owner's topic, the owner handles it once however often it arrives,
  and the pops of its engine return the instantiations that were waiting, in their order, and
  then this one.\<close>
theorem cmi_delivered:
  assumes "(process_step x)\<^sup>*\<^sup>* (new_process server uuid entries db) q" "map_of (grapes (pr_node q)) gid = Some g"
    and "lookup_method (pr_node q) (tp_peer (topic_scope (pr_node p)) gid) (rpc_name ''Grape'' ''CMIInstantiate'') =
      Some (GrapeMethod gid ''CMIInstantiate'')"
    and "\<not> remembers (pr_node q) (gen_uuid (o_world x) (uuid_reads (pr_node p)))"
    and "producer_ok (o_world x) (tp_peer (topic_scope (pr_node p)) gid)" "\<And>a. serial_ok (o_world x) a"
    and "\<And>j. jparse (o_world x) (jdump (o_world x) j) = Some j"
  shows "\<exists>p' req s. run_api x (Game (Call_CMIInstantiate gid cmi prefab payload cl)) p = Some (Ret Void p') \<and>
    wire (pr_node p') = wire (pr_node p) @ [(tp_peer (topic_scope (pr_node p)) gid, req)] \<and>
    receive_request (o_world x) env (tp_peer (topic_scope (pr_node p)) gid) req (pr_node q) = Some s \<and>
    receive_request (o_world x) env (tp_peer (topic_scope (pr_node p)) gid) req s = Some s \<and>
    pops x (Tasks (Call_PopCMIInstantiate gid)) (Suc (length (waiting ''CMIInstantiate'' (gr_named g)))) (q\<lparr>pr_node := s\<rparr>) =
      map (\<lambda>a. ATuple (Some a)) (waiting ''CMIInstantiate'' (gr_named g) @ [[cmi, prefab, payload, cl]])"
proof -
  let ?w = "o_world x" and ?topic = "tp_peer (topic_scope (pr_node p)) gid"
  let ?req = "cmi_request ?w (uuid_reads (pr_node p)) [cmi, prefab, payload, cl]"
  let ?old = "waiting ''CMIInstantiate'' (gr_named g)"
  obtain s' where s': "CallCMIInstantiate ?w gid cmi prefab payload cl (pr_node p) = Ret () s'"
    "wire s' = wire (pr_node p) @ [(?topic, ?req)]"
    using CallCMIInstantiate_effect [OF assms(5,6)] by blast
  have "node_inv ?w (pr_node q)" by (rule process.reachable_inv [OF assms(1)]) (rule new_process_inv)
  then have "lru_inv (handled (pr_node q))" by (simp add: node_inv_def stub_ok_def)
  from receive_cmi [OF this assms(4) assms(7) assms(3)] obtain l where
    l: "receive_request ?w env ?topic ?req (pr_node q) =
        Some (CMIInstantiate gid cmi prefab payload cl ((pr_node q)\<lparr>handled := l\<rparr>))" "lru_inv l"
      "gen_uuid ?w (uuid_reads (pr_node p)) \<in> set (recency l)" by blast
  let ?s = "CMIInstantiate gid cmi prefab payload cl ((pr_node q)\<lparr>handled := l\<rparr>)"
  let ?g = "g\<lparr>gr_named := pushNamedTaskToEngine ''CMIInstantiate'' [cmi, prefab, payload, cl] (gr_named g)\<rparr>"
  have handled: "handled ?s = l" by (simp add: CMIInstantiate_def PushNamedTaskToEngine_def update_grape_def)
  then have again: "receive_request ?w env ?topic ?req ?s = Some ?s"
    by (intro receive_again) (simp_all add: l cmi_request_def fired_request_def new_request_def)
  have "map_of (grapes ?s) gid = Some ?g"
    using assms(2) by (simp add: CMIInstantiate_def PushNamedTaskToEngine_def update_grape_def hmap_simps)
  then have "pops x (Tasks (Call_PopCMIInstantiate gid)) (length (?old @ [[cmi, prefab, payload, cl]])) (q\<lparr>pr_node := ?s\<rparr>) =
      map (\<lambda>a. ATuple (Some a)) (?old @ [[cmi, prefab, payload, cl]])"
    by (intro pops_waiting [where ys = "[]"]) (use reachable_tuples [OF assms(1,2)] in \<open>auto simp: waiting_push\<close>)
  moreover have "run_api x (Game (Call_CMIInstantiate gid cmi prefab payload cl)) p = Some (Ret Void (p\<lparr>pr_node := s'\<rparr>))"
    by (simp add: s'(1) on_node_def)
  ultimately show ?thesis using s'(2) l(1) again by fastforce
qed

text \<open>A server that owns a grape and has bound its methods.\<close>

lemma async_idle:
  assumes "async_step demo_world (\<lambda>_ s. s) (\<lambda>_. SubOk) (pr_node p) = Some s"
  shows "process_step demo_outside p (p\<lparr>pr_node := s\<rparr>)"
proof -
  have "async_step (o_world demo_outside) (\<lambda>_ s. s) (o_broker demo_outside) (pr_node p) = Some s"
    using assms by (simp add: demo_outside_def)
  with idle_env show ?thesis by (rule process_step.async)
qed

definition demo_owner :: "unit process" where
  "demo_owner =
     (let p = the (calls demo_outside [Top (Call_RegisterGrape ''g'' True (Some 7))] (demo_process True))
      in p\<lparr>pr_node := the (async_step demo_world (\<lambda>_ s. s) (\<lambda>_. SubOk) (pr_node p))\<rparr>)"

lemma demo_owner: "(process_step demo_outside)\<^sup>*\<^sup>* (demo_process True) demo_owner"
proof -
  let ?p = "the (calls demo_outside [Top (Call_RegisterGrape ''g'' True (Some 7))] (demo_process True))"
  have "calls demo_outside [Top (Call_RegisterGrape ''g'' True (Some 7))] (demo_process True) \<noteq> None" by code_simp
  then have "(process_step demo_outside)\<^sup>*\<^sup>* (demo_process True) ?p" by (rule calls_the) simp
  moreover have "async_step demo_world (\<lambda>_ s. s) (\<lambda>_. SubOk) (pr_node ?p) \<noteq> None" by code_simp
  then obtain s where s: "async_step demo_world (\<lambda>_ s. s) (\<lambda>_. SubOk) (pr_node ?p) = Some s" by blast
  then have "process_step demo_outside ?p (?p\<lparr>pr_node := s\<rparr>)" by (rule async_idle)
  then have "process_step demo_outside ?p demo_owner" by (simp only: demo_owner_def Let_def s option.sel)
  ultimately show ?thesis by (rule rtranclp.rtrancl_into_rtrancl)
qed

theorem cmi_delivered_witness:
  "\<exists>req s. receive_request demo_world (\<lambda>_ s. s) (tp_peer (topic_scope (pr_node (demo_process False))) ''g'') req (pr_node demo_owner) = Some s \<and>
     pops demo_outside (Tasks (Call_PopCMIInstantiate ''g'')) 1 (demo_owner\<lparr>pr_node := s\<rparr>) =
       [ATuple (Some [''m'', ''prefab'', ''pl'', ''c''])]"
proof -
  have "map_of (grapes (pr_node demo_owner)) ''g'' \<noteq> None" by code_simp
  then obtain g where g: "map_of (grapes (pr_node demo_owner)) ''g'' = Some g" by blast
  have "map_option (\<lambda>g. waiting ''CMIInstantiate'' (gr_named g)) (map_of (grapes (pr_node demo_owner)) ''g'') = Some []"
    by code_simp
  then have empty: "waiting ''CMIInstantiate'' (gr_named g) = []" by (simp add: g)
  have bound: "lookup_method (pr_node demo_owner) (tp_peer (topic_scope (pr_node (demo_process False))) ''g'')
      (rpc_name ''Grape'' ''CMIInstantiate'') = Some (GrapeMethod ''g'' ''CMIInstantiate'')" by code_simp
  have new: "\<not> remembers (pr_node demo_owner) (gen_uuid (o_world demo_outside) (uuid_reads (pr_node (demo_process False))))"
    by code_simp
  have world: "producer_ok (o_world demo_outside) t" "serial_ok (o_world demo_outside) a"
    "jparse (o_world demo_outside) (jdump (o_world demo_outside) j) = Some j" for t a j
    by (simp_all only: demo_outside_world demo_world_ok demo_roundtrip)
  show ?thesis
    using cmi_delivered [OF demo_owner g bound new world, of "''m''" "''prefab''" "''pl''" "''c''" "\<lambda>_ s. s"]
    unfolding empty demo_outside_world by (auto simp del: pops.simps)
qed

end
