(* ===== verification/Joining.thy ===== *)
theory Joining
  imports Delivery
begin

text \<open>
  How a client gets to a server: the server asks it to load the server's grape, waits for the
  answer, and tells its own engine. Both ends of the call and the two messages between them.
\<close>

section \<open>The client's answer\<close>

text \<open>
  What happens on the side of the server while it waits: the broker takes the last message
  sent to the client \<open>q\<close>, and the last message of the client back.
\<close>

definition ask_client :: "world \<Rightarrow> environment \<Rightarrow> node \<Rightarrow> world \<Rightarrow> environment" where
  "ask_client wq envq q wp =
     (\<lambda>k s. let (topic, req) = last (wire s);
               q' = the (receive_request wq envq topic req q);
               (topic', resp) = last (wire q')
            in the (receive_request wp (\<lambda>_ s. s) topic' resp s))"

text \<open>A client whose engine loads the grape answers, in a state in which the grape is loaded.\<close>

lemma receive_force_connect:
  assumes "lru_inv (handled q)" "\<not> remembers q (rq_rpc_id req)" "rq_responds_to req = []" "rq_response_topic req \<noteq> []"
    and "lookup_method q topic (rq_name req) = Some (PeerMethod ''ForceConnectToNode'')"
    and "jparse w (rq_args req) = Some (JArr [JStr gid])"
    and "\<And>l. \<exists>k. GrapeExists gid (state_at env k (ScheduleAsyncTask (LoadGrapeHook gid False) (q\<lparr>handled := l\<rparr>)))"
    and "\<And>t. producer_ok w t" "\<And>a. serial_ok w a"
  shows "\<exists>q'. receive_request w env topic req q = Some q' \<and> GrapeExists gid q' \<and>
    last (wire q') = (rq_response_topic req, response_request w req (JBool True) False)"
proof -
  obtain l where l: "utm_run (rq_rpc_id req) (handled q) = Some (True, l)"
    using utm_run_new assms(1,2) by (metis remembers_def)
  obtain s' where s': "ForceConnectToNode env gid (q\<lparr>handled := l\<rparr>) = Some (True, s')" "GrapeExists gid s'"
    using assms(7) unfolding force_connect_iff [symmetric] by blast
  have look: "lookup_method (q\<lparr>handled := l\<rparr>) topic (rq_name req) = Some (PeerMethod ''ForceConnectToNode'')"
    using assms(5) by (simp add: lookup_method_def)
  have "exec_delegate w env (PeerMethod ''ForceConnectToNode'') (JArr [JStr gid]) (q\<lparr>handled := l\<rparr>) = Ret (JBool True) s'"
    by (subst exec_decoded [of _ _ "[gid]"])
      (simp_all add: delegate_arity_def decode_args_def tuple_args_def run_method_def exec_peer_def s' ret_bool_def)
  then have "try_handle_request w (exec_delegate w env) topic req q =
      snd (callee_write w (rq_response_topic req) (response_request w req (JBool True) False) s')"
    using look assms(3,4,6)
    by (auto simp: try_handle_request_def l handle_call_def run_handler_def lookup_method_def split: option.splits)
  moreover have "\<not> never_answers w env topic req (q\<lparr>handled := l\<rparr>)"
    using look assms(6) by (simp add: never_answers_def tuple_args_def s'(1))
  moreover have "GrapeExists gid (snd (callee_write w t r s'))" for t r
    using s'(2) node_more(6) [of "snd (callee_write w t r s')" s'] by (simp add: GrapeExists_def)
  ultimately show ?thesis
    using callee_write_wire [of w "rq_response_topic req" "response_request w req (JBool True) False" s'] assms(8,9)
    by (auto simp: receive_request_def l)
qed

text \<open>The answer settles the future that the server waits for.\<close>

lemma receive_answer:
  fixes s :: node
  assumes "lru_inv (handled s)" "\<not> remembers s (rq_rpc_id resp)" "rq_responds_to resp \<noteq> []" "\<not> rq_error resp"
    and "jparse w (rq_args resp) = Some v"
  shows "\<exists>l. receive_request w env topic resp s = Some (solve_promise (rq_responds_to resp) v (s\<lparr>handled := l\<rparr>))"
proof -
  obtain l where l: "utm_run (rq_rpc_id resp) (handled s) = Some (True, l)"
    using utm_run_new assms(1,2) by (metis remembers_def)
  have "try_handle_request w (exec_delegate w env) topic resp s = solve_promise (rq_responds_to resp) v (s\<lparr>handled := l\<rparr>)"
    using assms(3-5) by (simp add: try_handle_request_def l handle_response_def)
  then show ?thesis using l assms(3) by (auto simp: receive_request_def never_answers_def)
qed

section \<open>The connection\<close>


text \<open>A server that has connected and owns a grape, a client that has connected, and its engine.\<close>

definition demo_host :: "unit process" where
  "demo_host = the (calls demo_outside [Top Call_ServerNodeConnect, Top (Call_RegisterGrape ''g'' True None)]
     (new_process True ''sn1'' [] ()))"

definition demo_joiner :: "unit process" where
  "demo_joiner = ostate (the (start_peer demo_outside
     (the (calls demo_outside [Top (Call_ClientConnect ''host'' 1 ''default'')] (demo_process False)))))"

definition demo_engine :: environment where
  "demo_engine k s = s\<lparr>grapes := [(''g'', empty_grape)]\<rparr>"

lemma demo_joiner: "(process_step demo_outside)\<^sup>*\<^sup>* (demo_process False) demo_joiner"
proof -
  let ?p = "the (calls demo_outside [Top (Call_ClientConnect ''host'' 1 ''default'')] (demo_process False))"
  have "calls demo_outside [Top (Call_ClientConnect ''host'' 1 ''default'')] (demo_process False) \<noteq> None" by code_simp
  then have "(process_step demo_outside)\<^sup>*\<^sup>* (demo_process False) ?p" by (rule calls_the) simp
  moreover have "start_peer demo_outside ?p \<noteq> None" by code_simp
  then obtain r where "start_peer demo_outside ?p = Some r" by blast
  then have "process_step demo_outside ?p demo_joiner"
    unfolding demo_joiner_def by (auto intro: process_step.start)
  ultimately show ?thesis by (rule rtranclp.rtrancl_into_rtrancl)
qed


end
