(* ===== verification/Ownership.thy ===== *)
theory Ownership
  imports Composition
begin

text \<open>
  Who owns a container in a cluster: the server that has created it, and nobody else, as long
  as the generators of two processes never give the same UUID.
\<close>

section \<open>Unique owners\<close>

lemma owned_generated:
  assumes "(process_step x)\<^sup>*\<^sup>* (new_process server uuid entries db) p" "ContainerIsLocallyOwned cid (pr_node p)"
  shows "cid \<in> range (gen_uuid (o_world x))"
proof -
  have "node_inv (o_world x) (pr_node p)" by (rule process.reachable_inv [OF assms(1)]) (rule new_process_inv)
  from node_invD(2) [OF this] assms(2) show ?thesis
    by (auto simp: ContainerIsLocallyOwned_def container_ok_def dest: objects_okD split: option.splits)
qed

lemma repl_topic_id:
  assumes "tp_repl ds cid = tp_repl ds' cid'" "length cid = length cid'"
  shows "cid = cid'"
  using assms by (simp add: tp_repl_def append_eq_append_conv [of cid])

text \<open>C7: A container has one owner in the cluster: when a process owns a container, no other process
  owns it in any state that it reaches, before or after, no entity that is in the container is
  owned there, and the other process never sends a packet on the container's replication
  topic, in whatever session. So the packets of a container come from its owner alone.\<close>
theorem container_owner_unique:
  assumes "(process_step x)\<^sup>*\<^sup>* (new_process server uuid entries db) p"
    and "(process_step y)\<^sup>*\<^sup>* (new_process server' uuid' entries' db') q"
    and "\<And>n m. gen_uuid (o_world x) n \<noteq> gen_uuid (o_world y) m"
    and "\<And>n m. length (gen_uuid (o_world x) n) = length (gen_uuid (o_world y) m)"
    and "ContainerIsLocallyOwned cid (pr_node p)"
  shows "\<not> ContainerIsLocallyOwned cid (pr_node q) \<and>
    (GetEntityOwnerContainer eid (pr_node q) = cid \<longrightarrow> \<not> IsEntityLocallyOwned eid (pr_node q)) \<and>
    (ds @ cid @ ''.repl'', data) \<notin> set (packets (pr_node q))"
proof -
  obtain n where n: "cid = gen_uuid (o_world x) n" using owned_generated [OF assms(1,5)] by blast
  have q: "\<not> ContainerIsLocallyOwned cid (pr_node q)"
    using owned_generated [OF assms(2)] assms(3) n by blast
  have "packets_ok (o_world y) (packets (pr_node q))"
    using process.reachable_inv [OF assms(2) new_process_inv] by (simp add: node_inv_def)
  moreover have "tp_repl ds cid \<noteq> tp_repl ds' (gen_uuid (o_world y) m)" for ds' m
    using repl_topic_id [of ds cid ds' "gen_uuid (o_world y) m"] assms(3,4) n by auto
  ultimately have "(tp_repl ds cid, data) \<notin> set (packets (pr_node q))" by (force simp: packets_ok_def)
  with q show ?thesis
    by (auto simp: tp_repl_def IsEntityLocallyOwned_def)
qed

text \<open>Two servers with a generator of their own, which have each created a container.\<close>

definition tagged_outside :: "char \<Rightarrow> unit outside" where
  "tagged_outside tag =
     demo_outside\<lparr>o_world := demo_world\<lparr>gen_uuid := (\<lambda>n. [tag, if even n then CHR ''0'' else CHR ''1''])\<rparr>\<rparr>"

definition demo_creator :: "char \<Rightarrow> unit process" where
  "demo_creator tag = the (calls (tagged_outside tag) demo_calls (demo_process True))"

theorem container_owner_unique_witness:
  "ContainerIsLocallyOwned ''a0'' (pr_node (demo_creator (CHR ''a''))) \<and>
   ContainerIsLocallyOwned ''b0'' (pr_node (demo_creator (CHR ''b''))) \<and>
   \<not> ContainerIsLocallyOwned ''a0'' (pr_node (demo_creator (CHR ''b'')))"
proof -
  have idle: "idle_outside (tagged_outside t)" for t by (simp add: tagged_outside_def)
  have ids: "gen_uuid (o_world (tagged_outside t)) n = [t, if even n then CHR ''0'' else CHR ''1'']" for t n
    by (simp add: tagged_outside_def)
  have "calls (tagged_outside (CHR ''a'')) demo_calls (demo_process True) \<noteq> None" by code_simp
  then have a: "(process_step (tagged_outside (CHR ''a'')))\<^sup>*\<^sup>* (demo_process True) (demo_creator (CHR ''a''))"
    unfolding demo_creator_def using idle by (rule calls_the)
  have "calls (tagged_outside (CHR ''b'')) demo_calls (demo_process True) \<noteq> None" by code_simp
  then have b: "(process_step (tagged_outside (CHR ''b'')))\<^sup>*\<^sup>* (demo_process True) (demo_creator (CHR ''b''))"
    unfolding demo_creator_def using idle by (rule calls_the)
  have own: "ContainerIsLocallyOwned ''a0'' (pr_node (demo_creator (CHR ''a'')))" by code_simp
  have other: "ContainerIsLocallyOwned ''b0'' (pr_node (demo_creator (CHR ''b'')))" by code_simp
  have "\<not> ContainerIsLocallyOwned ''a0'' (pr_node (demo_creator (CHR ''b'')))"
    using container_owner_unique [OF a b _ _ own] by (simp add: ids)
  with own other show ?thesis by simp
qed

end
