(* ===== verification/Migration.thy ===== *)
theory Migration
  imports Ownership
begin

text \<open>
  An authority transfer between two servers, from the call of the engine to the end: the two
  messages, the instantiation at the target, the delayed drop order at the source, and the deletion by
  the engine of the source.
\<close>

section \<open>The steps of a transfer\<close>

text \<open>
  The ghost data of an order gives the receiver every property with a key. Without properties it is a
  text, which is stored under the empty key.
\<close>

lemma apply_order_ghost:
  assumes "distinct (hkeys (props_of eid (ghosts s)))"
  shows "\<exists>g'. apply_entity_update w eid (order_ghost eid s) g = Ret () g' \<and>
    (\<forall>k. k \<noteq> [] \<longrightarrow> value_of g' eid k =
       (case value_of (ghosts s) eid k of Some v \<Rightarrow> Some v | None \<Rightarrow> value_of g eid k))"
proof (cases "fst (PeekProperties eid (ghosts s))")
  case (Some j)
  then have "order_ghost eid s = snapshot_ghost eid s" by (simp add: order_ghost_def snapshot_ghost_def)
  then show ?thesis
    using apply_entity [OF snapshot_ghost_ok(1) [OF assms], of w eid g] snapshot_ghost_ok(2) [OF assms] by auto
next
  case None
  then have ghost: "order_ghost eid s = JStr ''{}''" "snapshot_ghost eid s = JObj []"
    by (simp_all add: order_ghost_def snapshot_ghost_def)
  have empty: "k \<noteq> [] \<Longrightarrow> value_of (ghosts s) eid k = None" for k
    using snapshot_ghost_ok(2) [OF assms, of k] by (simp add: ghost(2) entity_value_def)
  let ?g = "snd (with_props eid (set_items w [([], JStr ''{}'')]) g)"
  have "apply_entity_update w eid (JStr ''{}'') g = Ret () ?g"
    by (simp add: apply_entity_update_def case_prod_unfold Let_def)
  moreover have "k \<noteq> [] \<Longrightarrow> value_of ?g eid k = value_of g eid k" for k
    using prop_set_value [of w "[]" "''{}''" "props_of eid g" "hr_reads g" k]
    by (simp add: value_of_def case_prod_unfold Let_def)
  ultimately show ?thesis using ghost(1) empty by auto
qed

text \<open>The source after the call: two messages are out, and the entity waits for the drop order.\<close>

lemma transfer_sent:
  assumes "server_mode s" "map_of (entities s) eid = Some e" "transferable t ign e"
    and "\<And>topic a. producer_ok u topic \<and> serial_ok u a"
  obtains s' pid tm where "TransferAuthority u eid t payload ign s = Ret () s'"
    "wire s' = wire s @
      [(tp_rpc (topic_scope s) t, take_request u (Suc (uuid_reads s)) (order_args eid t (et_owner e) pid tm payload (order_ghost eid s))),
       (tp_rpc (topic_scope s) (et_owner e),
        drop_request u (Suc (Suc (uuid_reads s))) (order_args eid t (et_owner e) pid tm payload (order_ghost eid s)))]"
    "map_of (entities s') eid = Some (e\<lparr>et_quarantine := True\<rparr>)"
    "handled s' = handled s" "methods s' = methods s" "containers s' = containers s" "server_mode s'"
    "top_tasks s' = top_tasks s" "async_tasks s' = async_tasks s" "hooks_set s' = hooks_set s" "hook_calls s' = hook_calls s"
proof -
  have broker: "producer_ok u topic" "serial_ok u a" for topic a using assms(4) by simp_all
  obtain s' pid tm where sent: "TransferAuthority u eid t payload ign s = Ret () s'"
    "wire s' = wire s @
      [(tp_rpc (topic_scope s) t, take_request u (Suc (uuid_reads s)) (order_args eid t (et_owner e) pid tm payload (order_ghost eid s))),
       (tp_rpc (topic_scope s) (et_owner e),
        drop_request u (Suc (Suc (uuid_reads s))) (order_args eid t (et_owner e) pid tm payload (order_ghost eid s)))]"
    "handled s' = handled s" "methods s' = methods s" "rpc.more s' = rpc.more (transferred eid s)"
    using transfer_effect [OF assms(1-3) broker(1) broker(1) broker(2), of payload] by blast
  note s' = node_more [OF sent(5)]
  show thesis
    by (rule that [OF sent(1,2)])
      (use assms(1,2) sent(3,4) in \<open>simp_all add: s' transferred_def update_entity_def hmap_simps\<close>)
qed

text \<open>The engine of the target instantiates the entity.\<close>

lemma run_instantiate_task:
  assumes "OnInstantiateEntity \<in> set (hooks_set s)" "top_tasks s = [InstantiateEntity eid payload t g]"
    and "map_of (entities s) eid = None" "apply_entity_update w eid g (ghosts s) = Ret () gh"
  shows "\<exists>s'. AdvanceTopLevelExecutorTask w env res s = Some (Ret True s') \<and> ghosts s' = gh \<and>
    GetEntityOwnerContainer eid s' = t \<and> containers s' = containers s \<and> server_mode s' = server_mode s \<and>
    hook_calls s' = hook_calls s @ [(OnInstantiateEntity, [eid, payload])]"
  using assms
  by (simp add: AdvanceTopLevelExecutorTask_def PollEngineTask_def instantiate_entity_def EngineCallInstantiate_def
      RegisterEntity_def entity_initRPCService_def Let_def call_hook_def new_entity_def hmap_simps lift_ghost_def
      GetEntityOwnerContainer_def)

text \<open>A take order for an entity that the target, a server that owns the container, does not know.\<close>

lemma take_unknown:
  assumes "lru_inv (handled q)" "\<not> remembers q (gen_uuid u n)"
    and "lookup_method q topic (rpc_name ''Container'' ''TakeAuthority'') = Some (ContainerMethod c ''TakeAuthority'')"
    and "\<And>j. jparse w (jdump u j) = Some j"
    and "OnInstantiateEntity \<in> set (hooks_set q)" "top_tasks q = []" "map_of (entities q) eid = None"
    and "apply_entity_update w eid g (ghosts q) = Ret () gh"
    and "server_mode q" "map_of (containers q) t = Some k"
  shows "\<exists>q1 q2. receive_request w env topic (take_request u n (order_args eid t f p tm payload g)) q = Some q1 \<and>
    AdvanceTopLevelExecutorTask w env res q1 = Some (Ret True q2) \<and> ghosts q2 = gh \<and>
    GetEntityOwnerContainer eid q2 = t \<and> server_mode q2 \<and>
    map_of (containers q2) t = Some (k\<lparr>ct_owned := oset_insert eid (ct_owned k)\<rparr>) \<and>
    hook_calls q2 = hook_calls q @ [(OnInstantiateEntity, [eid, payload])]"
proof -
  obtain l where l: "receive_request w env topic (take_request u n (order_args eid t f p tm payload g)) q =
      Some (take_effect eid t payload g (q\<lparr>handled := l\<rparr>))"
    using receive_take [OF assms(1-4)] by blast
  let ?q1 = "take_effect eid t payload g (q\<lparr>handled := l\<rparr>)"
  have "hook_calls ?q1 = hook_calls q"
    by (simp add: take_effect_def Let_def update_entity_def push_top_def RegisterNewOwnedEntityToContainer_def
        update_container_def)
  moreover have "map_of (containers ?q1) t = Some (k\<lparr>ct_owned := oset_insert eid (ct_owned k)\<rparr>)"
    using assms(9,10) by (simp add: take_effect_containers)
  moreover have "top_tasks ?q1 = [InstantiateEntity eid payload t g]" "map_of (entities ?q1) eid = None"
    "OnInstantiateEntity \<in> set (hooks_set ?q1)" "ghosts ?q1 = ghosts q" "server_mode ?q1"
    using assms(5-7,9) by (simp_all add: take_effect_tasks take_effect_entities IsEntityRegistered_def hcontains_def)
  ultimately show ?thesis
    using l run_instantiate_task [of ?q1 eid payload t g w gh env res] assms(8) by auto
qed

text \<open>The drop order at a server that does not know the target.\<close>

lemma drop_unknown:
  assumes "lru_inv (handled q)" "\<not> remembers q (gen_uuid u n)"
    and "lookup_method q topic (rpc_name ''Container'' ''DropAuthority'') = Some (ContainerMethod c ''DropAuthority'')"
    and "\<And>j. jparse w (jdump u j) = Some j" "f \<noteq> t"
    and "map_of (entities q) eid = Some e" "et_id e = eid" "\<not> ContainerExists t q" "server_mode q"
    and "async_tasks q = []" "top_tasks q = []" "OnDeleteEntity \<in> set (hooks_set q)" "quiet env"
  shows "\<exists>q1 q2 q3. receive_request w env' topic (drop_request u n (order_args eid t f p tm payload g)) q = Some q1 \<and>
    async_step w env res q1 = Some q2 \<and> AdvanceTopLevelExecutorTask w env res q2 = Some (Ret True q3) \<and>
    \<not> IsEntityRegistered eid q3 \<and> hook_calls q3 = hook_calls q @ [(OnDeleteEntity, [eid, et_payload e])] \<and>
    (\<forall>k. map_of (containers q3) f = Some k \<longrightarrow> eid \<notin> set (ct_owned k))"
proof -
  obtain l where l: "receive_request w env' topic (drop_request u n (order_args eid t f p tm payload g)) q =
      Some (ScheduleAsyncTask (DropEntityAt (FromISOString w tm) eid t f p) (q\<lparr>handled := l\<rparr>))"
    using receive_drop [OF assms(1-5)] by blast
  let ?q1 = "ScheduleAsyncTask (DropEntityAt (FromISOString w tm) eid t f p) (q\<lparr>handled := l\<rparr>)"
  have "async_tasks ?q1 = [DropEntityAt (FromISOString w tm) eid t f p]"
    using assms(10) by (simp add: ScheduleAsyncTask_def)
  then obtain s where s: "async_step w env res ?q1 = Some (execDropOrderImpl eid t f s)" "entities s = entities ?q1"
    "containers s = containers ?q1" "server_mode s = server_mode ?q1" "top_tasks s = top_tasks ?q1"
    "hooks_set s = hooks_set ?q1" "hook_calls s = hook_calls ?q1"
    using drop_task_run [OF assms(13)] by blast
  have ent: "map_of (entities s) eid = Some e" "\<not> ContainerExists t s" "server_mode s"
    using s assms(6,8,9) by (simp_all add: ScheduleAsyncTask_def ContainerExists_def)
  let ?q2 = "execDropOrderImpl eid t f s"
  note dropped = execDropOrderImpl_unknown [OF ent(1) assms(7) ent(2), of f]
  have owned: "map_of (containers ?q2) f = map_option (\<lambda>k. k\<lparr>ct_owned := oset_erase eid (ct_owned k)\<rparr>) (map_of (containers s) f)"
    using ent assms(5,7)
    by (simp add: execDropOrderImpl_def Let_def push_top_def RemoveOwnedEntityFromContainer_def update_container_def
        update_entity_def hmap_simps)
  let ?q2' = "?q2\<lparr>top_tasks := []\<rparr>"
  have pre: "OnDeleteEntity \<in> set (hooks_set ?q2')" "map_of (entities ?q2') eid = Some (e\<lparr>et_valid := False, et_quarantine := True\<rparr>)"
    using assms(12) s(6) by (simp_all add: dropped ScheduleAsyncTask_def)
  have containers: "delete_and_unregister eid payload' ?q2' = Ret () q3 \<Longrightarrow> containers q3 = containers ?q2" for payload' q3
    using pre by (auto simp: delete_and_unregister_def call_hook_def UnregisterEntity_def)
  obtain q3 where q3: "delete_and_unregister eid (et_payload e) ?q2' = Ret () q3" "\<not> IsEntityRegistered eid q3"
    "hook_calls q3 = hook_calls ?q2' @ [(OnDeleteEntity, [eid, et_payload e])]"
    using delete_and_unregister_run [OF pre, of "et_payload e"] by auto
  have "top_tasks ?q2 = [DeleteAndUnregister eid (et_payload e)]"
    using s(5) assms(11) by (simp add: dropped ScheduleAsyncTask_def)
  then have "AdvanceTopLevelExecutorTask w env res ?q2 = Some (Ret True q3)"
    by (simp add: AdvanceTopLevelExecutorTask_def PollEngineTask_def q3(1))
  moreover have "hook_calls q3 = hook_calls q @ [(OnDeleteEntity, [eid, et_payload e])]"
    using q3(3) s(7) by (simp add: dropped ScheduleAsyncTask_def)
  moreover have "\<forall>k. map_of (containers q3) f = Some k \<longrightarrow> eid \<notin> set (ct_owned k)"
    using owned by (auto simp: containers [OF q3(1)])
  ultimately show ?thesis using l s(1) q3(2) by blast
qed

section \<open>The whole transfer\<close>

text \<open>C2: A transfer between two servers ends with one owner. The engine of the source assigns one of its
  entities to a container of the target, which does not know the entity. The source sends two messages.
  The target handles the first: its engine instantiates the entity with the payload of the call, and
  then the target owns the entity in its container with every property that the source had. The source
  handles the second when its time has come: its engine deletes the entity, which is no longer
  registered there and not in the set of the container that it left.\<close>
theorem authority_handed_over:
  assumes "(process_step x)\<^sup>*\<^sup>* (new_process server uuid entries db) p"
    and "(process_step y)\<^sup>*\<^sup>* (new_process server' uuid' entries' db') q"
    and "server_mode (pr_node p)" "server_mode (pr_node q)" "topic_scope (pr_node q) = topic_scope (pr_node p)"
    and "map_of (entities (pr_node p)) eid = Some e" "transferable t ign e" "\<not> ContainerExists t (pr_node p)"
    and "map_of (entities (pr_node q)) eid = None" "ContainerIsLocallyOwned t (pr_node q)" "et_owner e \<noteq> t"
    and "lookup_method (pr_node q) (tp_rpc (topic_scope (pr_node p)) t) (rpc_name ''Container'' ''TakeAuthority'') =
      Some (ContainerMethod t ''TakeAuthority'')"
    and "lookup_method (pr_node p) (tp_rpc (topic_scope (pr_node p)) (et_owner e)) (rpc_name ''Container'' ''DropAuthority'') =
      Some (ContainerMethod (et_owner e) ''DropAuthority'')"
    and "\<not> remembers (pr_node q) (gen_uuid (o_world x) (Suc (uuid_reads (pr_node p))))"
    and "\<not> remembers (pr_node p) (gen_uuid (o_world x) (Suc (Suc (uuid_reads (pr_node p)))))"
    and "\<And>w j. w \<in> {o_world x, o_world y} \<Longrightarrow> jparse w (jdump (o_world x) j) = Some j"
    and "\<And>topic a. producer_ok (o_world x) topic \<and> serial_ok (o_world x) a"
    and "OnInstantiateEntity \<in> set (hooks_set (pr_node q))" "OnDeleteEntity \<in> set (hooks_set (pr_node p))"
    and "top_tasks (pr_node q) = []" "top_tasks (pr_node p) = []" "async_tasks (pr_node p) = []" "quiet env"
  shows "\<exists>p1 take drop q1 q2 p2 p3 p4.
    run_api x (Top (Call_ProcessEntityContainerAssignment eid t payload ign)) p = Some (Ret Void p1) \<and>
    wire (pr_node p1) = wire (pr_node p) @
      [(tp_rpc (topic_scope (pr_node p)) t, take), (tp_rpc (topic_scope (pr_node p)) (et_owner e), drop)] \<and>
    receive_request (o_world y) env (tp_rpc (topic_scope (pr_node p)) t) take (pr_node q) = Some q1 \<and>
    AdvanceTopLevelExecutorTask (o_world y) env res q1 = Some (Ret True q2) \<and>
    receive_request (o_world x) env (tp_rpc (topic_scope (pr_node p)) (et_owner e)) drop (pr_node p1) = Some p2 \<and>
    async_step (o_world x) env res p2 = Some p3 \<and> AdvanceTopLevelExecutorTask (o_world x) env res p3 = Some (Ret True p4) \<and>
    IsEntityLocallyOwned eid q2 \<and> (\<forall>k. map_of (containers q2) t = Some k \<longrightarrow> eid \<in> set (ct_owned k)) \<and>
    hook_calls q2 = hook_calls (pr_node q) @ [(OnInstantiateEntity, [eid, payload])] \<and>
    (\<forall>key. key \<noteq> [] \<longrightarrow> value_of (ghosts q2) eid key =
       (case value_of (ghosts (pr_node p)) eid key of Some v \<Rightarrow> Some v | None \<Rightarrow> value_of (ghosts (pr_node q)) eid key)) \<and>
    \<not> IsEntityRegistered eid p4 \<and> (\<forall>k. map_of (containers p4) (et_owner e) = Some k \<longrightarrow> eid \<notin> set (ct_owned k)) \<and>
    hook_calls p4 = hook_calls (pr_node p) @ [(OnDeleteEntity, [eid, et_payload e])]"
proof -
  define S Q u w f where "S = pr_node p" and "Q = pr_node q" and "u = o_world x" and "w = o_world y" and "f = et_owner e"
  have inv: "node_inv u S" "node_inv w Q"
    using process.reachable_inv [OF assms(1) new_process_inv] process.reachable_inv [OF assms(2) new_process_inv]
    by (simp_all add: S_def Q_def u_def w_def)
  have lru: "lru_inv (handled S)" "lru_inv (handled Q)"
    using inv [THEN node_invD(7)] by (simp_all add: stub_ok_def)
  have keys: "distinct (hkeys (props_of eid (ghosts S)))"
    using node_invD(5) [OF inv(1)] by (auto simp: ghost_ok_def props_of_def dest: objects_okD split: option.split)
  have id: "et_id e = eid"
    using objects_okD [OF node_invD(1) [OF inv(1)]] assms(6) by (auto simp: S_def entity_ok_def)
  obtain k where k: "map_of (containers Q) t = Some k" "ct_local k"
    using assms(10) by (auto simp: ContainerIsLocallyOwned_def Q_def split: option.splits)
  have parse: "jparse w (jdump u j) = Some j" "jparse u (jdump u j) = Some j" for j
    using assms(16) by (simp_all add: u_def w_def)
  have sent_pre: "server_mode S" "map_of (entities S) eid = Some e" "producer_ok u topic \<and> serial_ok u a" for topic a
    using assms(3,6,17) by (simp_all add: S_def u_def)
  obtain S1 pid tm where sent: "TransferAuthority u eid t payload ign S = Ret () S1"
    "wire S1 = wire S @ [(tp_rpc (topic_scope S) t, take_request u (Suc (uuid_reads S)) (order_args eid t f pid tm payload (order_ghost eid S))),
       (tp_rpc (topic_scope S) f, drop_request u (Suc (Suc (uuid_reads S))) (order_args eid t f pid tm payload (order_ghost eid S)))]"
    and fields: "map_of (entities S1) eid = Some (e\<lparr>et_quarantine := True\<rparr>)"
    "handled S1 = handled S" "methods S1 = methods S" "containers S1 = containers S" "server_mode S1"
    "top_tasks S1 = top_tasks S" "async_tasks S1 = async_tasks S" "hooks_set S1 = hooks_set S" "hook_calls S1 = hook_calls S"
    by (rule transfer_sent [OF sent_pre(1,2) assms(7) sent_pre(3), of payload, folded f_def])
  let ?take = "take_request u (Suc (uuid_reads S)) (order_args eid t f pid tm payload (order_ghost eid S))"
    and ?drop = "drop_request u (Suc (Suc (uuid_reads S))) (order_args eid t f pid tm payload (order_ghost eid S))"
  obtain gh where gh: "apply_entity_update w eid (order_ghost eid S) (ghosts Q) = Ret () gh"
    "\<And>key. key \<noteq> [] \<Longrightarrow> value_of gh eid key =
       (case value_of (ghosts S) eid key of Some v \<Rightarrow> Some v | None \<Rightarrow> value_of (ghosts Q) eid key)"
    using apply_order_ghost [OF keys, of w "ghosts Q"] by blast
  have take_pre: "\<not> remembers Q (gen_uuid u (Suc (uuid_reads S)))"
    "lookup_method Q (tp_rpc (topic_scope S) t) (rpc_name ''Container'' ''TakeAuthority'') = Some (ContainerMethod t ''TakeAuthority'')"
    "OnInstantiateEntity \<in> set (hooks_set Q)" "top_tasks Q = []" "map_of (entities Q) eid = None" "server_mode Q"
    using assms(4,9,12,14,18,20) by (simp_all add: S_def Q_def u_def)
  obtain q1 q2 where q: "receive_request w env (tp_rpc (topic_scope S) t) ?take Q = Some q1"
    "AdvanceTopLevelExecutorTask w env res q1 = Some (Ret True q2)" "ghosts q2 = gh"
    "GetEntityOwnerContainer eid q2 = t" "server_mode q2"
    "map_of (containers q2) t = Some (k\<lparr>ct_owned := oset_insert eid (ct_owned k)\<rparr>)"
    "hook_calls q2 = hook_calls Q @ [(OnInstantiateEntity, [eid, payload])]"
    using take_unknown [OF lru(2) take_pre(1,2) parse(1) take_pre(3-5) gh(1) take_pre(6) k(1)] by blast
  have drop_pre: "lru_inv (handled S1)" "\<not> remembers S1 (gen_uuid u (Suc (Suc (uuid_reads S))))"
    "lookup_method S1 (tp_rpc (topic_scope S) f) (rpc_name ''Container'' ''DropAuthority'') = Some (ContainerMethod f ''DropAuthority'')"
    "f \<noteq> t" "\<not> ContainerExists t S1" "async_tasks S1 = []" "top_tasks S1 = []" "OnDeleteEntity \<in> set (hooks_set S1)"
    using assms(8,11,13,15,19,21,22) lru(1) fields
    by (simp_all add: S_def f_def u_def remembers_def lookup_method_def ContainerExists_def)
  have payload: "et_payload (e\<lparr>et_quarantine := True\<rparr>) = et_payload e" by simp
  have id': "et_id (e\<lparr>et_quarantine := True\<rparr>) = eid" using id by simp
  obtain p2 p3 p4 where p: "receive_request u env (tp_rpc (topic_scope S) f) ?drop S1 = Some p2"
    "async_step u env res p2 = Some p3" "AdvanceTopLevelExecutorTask u env res p3 = Some (Ret True p4)"
    "\<not> IsEntityRegistered eid p4" "hook_calls p4 = hook_calls S1 @ [(OnDeleteEntity, [eid, et_payload e])]"
    "\<forall>k. map_of (containers p4) f = Some k \<longrightarrow> eid \<notin> set (ct_owned k)"
    using drop_unknown [where p = pid and tm = tm and payload = payload and g = "order_ghost eid S" and env' = env
        and res = res, OF drop_pre(1-3) parse(2) drop_pre(4) fields(1) id' drop_pre(5) fields(5) drop_pre(6-8) assms(23)]
    unfolding payload by blast
  have call: "run_api x (Top (Call_ProcessEntityContainerAssignment eid t payload ign)) p = Some (Ret Void (p\<lparr>pr_node := S1\<rparr>))"
    using sent(1) by (simp add: on_node_def S_def u_def)
  have owner: "IsEntityLocallyOwned eid q2"
    using q(4-6) k(2) by (simp add: IsEntityLocallyOwned_def ContainerIsLocallyOwned_def)
  have owned: "\<forall>k'. map_of (containers q2) t = Some k' \<longrightarrow> eid \<in> set (ct_owned k')" using q(6) by auto
  have wire: "wire (pr_node (p\<lparr>pr_node := S1\<rparr>)) = wire S @ [(tp_rpc (topic_scope S) t, ?take), (tp_rpc (topic_scope S) f, ?drop)]"
    using sent(2) by simp
  have drop: "receive_request u env (tp_rpc (topic_scope S) f) ?drop (pr_node (p\<lparr>pr_node := S1\<rparr>)) = Some p2"
    using p(1) by simp
  have vals: "\<forall>key. key \<noteq> [] \<longrightarrow> value_of (ghosts q2) eid key =
      (case value_of (ghosts S) eid key of Some v \<Rightarrow> Some v | None \<Rightarrow> value_of (ghosts Q) eid key)"
    using gh(2) q(3) by simp
  have deleted: "hook_calls p4 = hook_calls S @ [(OnDeleteEntity, [eid, et_payload e])]" using p(5) fields(9) by simp
  show ?thesis
    unfolding S_def [symmetric] Q_def [symmetric] u_def [symmetric] w_def [symmetric] f_def [symmetric]
    by (rule exI, rule exI, rule exI, rule exI, rule exI, rule exI, rule exI, rule exI,
        rule conjI [OF call], rule conjI [OF wire], rule conjI [OF q(1)], rule conjI [OF q(2)], rule conjI [OF drop],
        rule conjI [OF p(2)], rule conjI [OF p(3)], rule conjI [OF owner], rule conjI [OF owned], rule conjI [OF q(7)],
        rule conjI [OF vals], rule conjI [OF p(4)], rule conjI [OF p(6) deleted])
qed

text \<open>
  Two servers of one cluster: the engine of the source has a container and an entity in it, the engine
  of the target has a container of its own.
\<close>

definition demo_source :: "unit process option" where
  "demo_source =
     (let x = tagged_outside (CHR ''a''); w = o_world x
      in case calls x demo_calls (demo_process True) of
           None \<Rightarrow> None
         | Some p \<Rightarrow>
             (case io_step w (\<lambda>_ s. s) (\<lambda>_. SubOk) (pr_node p) of
                None \<Rightarrow> None
              | Some s \<Rightarrow>
                  (case async_step w (\<lambda>_ s. s) (\<lambda>_. SubOk) s of
                     None \<Rightarrow> None
                   | Some s' \<Rightarrow>
                       calls x [Tasks Call_AdvanceTopLevelExecutorTask, Engine (Call_SetHook OnDeleteEntity),
                         Top (Call_RegisterNewEntity ''e'' ''s'' ''a0'')] (p\<lparr>pr_node := s'\<rparr>))))"

definition demo_target :: "unit process option" where
  "demo_target = calls (tagged_outside (CHR ''b'')) (demo_calls @ [Engine (Call_SetHook OnInstantiateEntity)]) (demo_process True)"

definition source_facts :: "node \<Rightarrow> bool" where
  "source_facts s \<longleftrightarrow> server_mode s \<and> topic_scope s = initial_scope \<and>
     (case map_of (entities s) ''e'' of None \<Rightarrow> False | Some e \<Rightarrow> transferable ''b0'' False e \<and> et_owner e = ''a0'') \<and>
     \<not> ContainerExists ''b0'' s \<and> top_tasks s = [] \<and> async_tasks s = [] \<and> OnDeleteEntity \<in> set (hooks_set s) \<and>
     lookup_method s (tp_rpc initial_scope ''a0'') (rpc_name ''Container'' ''DropAuthority'') =
       Some (ContainerMethod ''a0'' ''DropAuthority'') \<and> recency (handled s) = []"

definition target_facts :: "node \<Rightarrow> bool" where
  "target_facts s \<longleftrightarrow> server_mode s \<and> topic_scope s = initial_scope \<and> map_of (entities s) ''e'' = None \<and>
     ContainerIsLocallyOwned ''b0'' s \<and> top_tasks s = [] \<and> OnInstantiateEntity \<in> set (hooks_set s) \<and>
     lookup_method s (tp_rpc initial_scope ''b0'') (rpc_name ''Container'' ''TakeAuthority'') =
       Some (ContainerMethod ''b0'' ''TakeAuthority'') \<and> recency (handled s) = []"


lemma demo_target_facts: "case demo_target of None \<Rightarrow> False | Some p \<Rightarrow> target_facts (pr_node p)"
  by code_simp

lemma demo_source_facts: "case demo_source of None \<Rightarrow> False | Some p \<Rightarrow> source_facts (pr_node p)"
  by code_simp


lemma demo_source_reached: "demo_source = Some p \<Longrightarrow> (process_step (tagged_outside (CHR ''a'')))\<^sup>*\<^sup>* (demo_process True) p"
proof -
  assume p: "demo_source = Some p"
  let ?x = "tagged_outside (CHR ''a'')"
  let ?rest = "[Tasks Call_AdvanceTopLevelExecutorTask, Engine (Call_SetHook OnDeleteEntity),
    Top (Call_RegisterNewEntity ''e'' ''s'' ''a0'')]"
  have idle: "idle_outside ?x" by (simp add: tagged_outside_def)
  obtain p0 s s' where chain: "calls ?x demo_calls (demo_process True) = Some p0"
    "io_step (o_world ?x) (\<lambda>_ s. s) (o_broker ?x) (pr_node p0) = Some s"
    "async_step (o_world ?x) (\<lambda>_ s. s) (o_broker ?x) (pr_node (p0\<lparr>pr_node := s\<rparr>)) = Some s'"
    "calls ?x ?rest (p0\<lparr>pr_node := s'\<rparr>) = Some p"
    using p
    by (auto simp: demo_source_def tagged_outside_def demo_outside_def Let_def simp del: calls.simps
        split: option.splits)
  have "process_step ?x p0 (p0\<lparr>pr_node := s\<rparr>)" by (rule process_step.io [OF idle_env chain(2)])
  moreover have "process_step ?x (p0\<lparr>pr_node := s\<rparr>) ((p0\<lparr>pr_node := s\<rparr>)\<lparr>pr_node := s'\<rparr>)"
    by (rule process_step.async [OF idle_env chain(3)])
  ultimately have "(process_step ?x)\<^sup>*\<^sup>* p0 (p0\<lparr>pr_node := s'\<rparr>)" by (simp add: rtranclp.rtrancl_into_rtrancl)
  with calls_reach [OF chain(1) idle] calls_reach [OF chain(4) idle] show ?thesis by auto
qed

lemma demo_target_reached: "demo_target = Some q \<Longrightarrow> (process_step (tagged_outside (CHR ''b'')))\<^sup>*\<^sup>* (demo_process True) q"
  unfolding demo_target_def by (rule calls_reach) (simp_all add: tagged_outside_def)

theorem authority_handed_over_witness:
  "\<exists>p q p1 take drop q1 q2 p2 p3 p4. demo_source = Some p \<and> demo_target = Some q \<and>
    run_api (tagged_outside (CHR ''a'')) (Top (Call_ProcessEntityContainerAssignment ''e'' ''b0'' ''map'' False)) p =
      Some (Ret Void p1) \<and>
    wire (pr_node p1) = wire (pr_node p) @ [(tp_rpc initial_scope ''b0'', take), (tp_rpc initial_scope ''a0'', drop)] \<and>
    receive_request (o_world (tagged_outside (CHR ''b''))) (\<lambda>_ s. s) (tp_rpc initial_scope ''b0'') take (pr_node q) = Some q1 \<and>
    AdvanceTopLevelExecutorTask (o_world (tagged_outside (CHR ''b''))) (\<lambda>_ s. s) (\<lambda>_. SubOk) q1 = Some (Ret True q2) \<and>
    receive_request (o_world (tagged_outside (CHR ''a''))) (\<lambda>_ s. s) (tp_rpc initial_scope ''a0'') drop (pr_node p1) = Some p2 \<and>
    async_step (o_world (tagged_outside (CHR ''a''))) (\<lambda>_ s. s) (\<lambda>_. SubOk) p2 = Some p3 \<and>
    AdvanceTopLevelExecutorTask (o_world (tagged_outside (CHR ''a''))) (\<lambda>_ s. s) (\<lambda>_. SubOk) p3 = Some (Ret True p4) \<and>
    IsEntityLocallyOwned ''e'' q2 \<and> \<not> IsEntityRegistered ''e'' p4"
proof -
  obtain p q where p: "demo_source = Some p" "source_facts (pr_node p)" and q: "demo_target = Some q" "target_facts (pr_node q)"
    using demo_source_facts demo_target_facts by (auto split: option.splits)
  obtain e where e: "map_of (entities (pr_node p)) ''e'' = Some e" "transferable ''b0'' False e" "et_owner e = ''a0''"
    using p(2) by (auto simp: source_facts_def split: option.splits)
  have P: "server_mode (pr_node p)" "topic_scope (pr_node p) = initial_scope" "\<not> ContainerExists ''b0'' (pr_node p)"
    "top_tasks (pr_node p) = []" "async_tasks (pr_node p) = []" "OnDeleteEntity \<in> set (hooks_set (pr_node p))"
    "lookup_method (pr_node p) (tp_rpc initial_scope ''a0'') (rpc_name ''Container'' ''DropAuthority'') =
      Some (ContainerMethod ''a0'' ''DropAuthority'')" "\<not> remembers (pr_node p) i" for i
    using p(2) by (simp_all add: source_facts_def remembers_def)
  have Q: "server_mode (pr_node q)" "topic_scope (pr_node q) = initial_scope" "map_of (entities (pr_node q)) ''e'' = None"
    "ContainerIsLocallyOwned ''b0'' (pr_node q)" "top_tasks (pr_node q) = []" "OnInstantiateEntity \<in> set (hooks_set (pr_node q))"
    "lookup_method (pr_node q) (tp_rpc initial_scope ''b0'') (rpc_name ''Container'' ''TakeAuthority'') =
      Some (ContainerMethod ''b0'' ''TakeAuthority'')" "\<not> remembers (pr_node q) i" for i
    using q(2) by (simp_all add: target_facts_def remembers_def)
  have scope: "topic_scope (pr_node q) = topic_scope (pr_node p)" by (simp only: P(2) Q(2))
  have away: "et_owner e \<noteq> ''b0''" by (simp add: e(3))
  have world: "jparse (o_world (tagged_outside c)) (jdump (o_world (tagged_outside d)) j) = Some j"
    "producer_ok (o_world (tagged_outside c)) topic \<and> serial_ok (o_world (tagged_outside c)) a" for c d j topic a
    by (simp_all add: tagged_outside_def)
  have parse: "w \<in> {o_world (tagged_outside (CHR ''a'')), o_world (tagged_outside (CHR ''b''))} \<Longrightarrow>
    jparse w (jdump (o_world (tagged_outside (CHR ''a''))) j) = Some j" for w j
    using world(1) by auto
  have env: "quiet (\<lambda>_ s. s)" by (simp add: quiet_def)
  note bound = Q(7) [folded P(2)] P(7) [folded P(2) e(3)]
  from authority_handed_over [where payload = "''map''" and res = "\<lambda>_. SubOk",
      OF demo_source_reached [OF p(1)] demo_target_reached [OF q(1)] P(1) Q(1) scope e(1,2) P(3) Q(3,4) away bound
        Q(8) P(8) parse world(2) Q(6) P(6) Q(5) P(4,5) env]
  show ?thesis unfolding P(2) e(3) using p(1) q(1) by blast
qed

end
