(* ===== verification/Scheduling.thy ===== *)
theory Scheduling
  imports Complex_Main Prelude "HOL-Library.Word" "HOL-Library.Multiset" "HOL-Library.Sublist"
begin

text \<open>
  The two schedulers (\<open>AsyncTaskScheduler\<close>, \<open>AsyncIOTaskScheduler\<close>) as pools of threads: tasks
  wait, run side by side and end, and on a server atomic counters of 32 and 64 bits measure
  them. \<open>Tasks\<close> runs the same queues with the effects of the tasks, one at a time; here a task
  is opaque and what matters is when it runs and what is counted.
\<close>

section \<open>State\<close>

text \<open>
  A call of \<open>Schedule\<close> first counts its task and reads the time, and then hands it to the pool:
  \<open>sd_entering\<close> are the tasks of the calls in between. \<open>sd_pending\<close> is the counter of
  pending tasks, \<open>sd_wait_ns\<close> and \<open>sd_waits\<close> the total of the waiting times and their number.
\<close>

record 'task scheduler =
  sd_entering :: "('task \<times> int) list"
  sd_waiting :: "('task \<times> int) list"
  sd_running :: "'task list"
  sd_ended :: "'task list"
  sd_pending :: "32 word"
  sd_wait_ns :: "64 word"
  sd_waits :: "64 word"
  sd_stopped :: bool

definition new_scheduler :: "'task scheduler" where
  "new_scheduler = \<lparr>sd_entering = [], sd_waiting = [], sd_running = [], sd_ended = [], sd_pending = 0, sd_wait_ns = 0, sd_waits = 0,
     sd_stopped = False\<rparr>"

section \<open>Operations\<close>

definition pending_add :: "bool \<Rightarrow> 32 word \<Rightarrow> 'task scheduler \<Rightarrow> 'task scheduler" where
  "pending_add server n s = (if server then s\<lparr>sd_pending := sd_pending s + n\<rparr> else s)"

definition drop_at :: "nat \<Rightarrow> 'a list \<Rightarrow> 'a list" where
  "drop_at i xs = take i xs @ drop (Suc i) xs"

text \<open>\<open>Schedule\<close> of both schedulers, up to the closure that is handed over.\<close>

definition enter_task :: "bool \<Rightarrow> 'task \<Rightarrow> int \<Rightarrow> 'task scheduler \<Rightarrow> 'task scheduler" where
  "enter_task server t now s = (pending_add server 1 s)\<lparr>sd_entering := sd_entering s @ [(t, now)]\<rparr>"

text \<open>
  The rest of \<open>Schedule\<close>, for the call at position \<open>i\<close>: \<open>accepted\<close> says whether \<open>group.run\<close> takes
  the task or throws, in which case the task is dropped. \<open>post\<close> of the I/O service takes it.
\<close>

definition compute_post :: "bool \<Rightarrow> nat \<Rightarrow> bool \<Rightarrow> 'task scheduler \<Rightarrow> 'task scheduler" where
  "compute_post server i accepted s =
     (let s1 = s\<lparr>sd_entering := drop_at i (sd_entering s)\<rparr>
      in if accepted then s1\<lparr>sd_waiting := sd_waiting s @ [sd_entering s ! i]\<rparr> else pending_add server (- 1) s1)"

definition io_post :: "nat \<Rightarrow> 'task scheduler \<Rightarrow> 'task scheduler" where
  "io_post i s = s\<lparr>sd_entering := drop_at i (sd_entering s), sd_waiting := sd_waiting s @ [sd_entering s ! i]\<rparr>"

text \<open>A thread takes the waiting task at position \<open>i\<close>, and counts how long it has waited.\<close>

definition start_task :: "bool \<Rightarrow> nat \<Rightarrow> int \<Rightarrow> 'task scheduler \<Rightarrow> 'task scheduler" where
  "start_task server i now s =
     (let (t, schedule_time) = sd_waiting s ! i;
          s1 = s\<lparr>sd_waiting := drop_at i (sd_waiting s), sd_running := sd_running s @ [t]\<rparr>
      in if server
         then s1\<lparr>sd_wait_ns := sd_wait_ns s1 + word_of_int (now - schedule_time), sd_waits := sd_waits s1 + 1\<rparr>
         else s1)"

text \<open>The running task at position \<open>i\<close> returns or throws; an exception is dropped.\<close>

definition end_task :: "bool \<Rightarrow> nat \<Rightarrow> 'task scheduler \<Rightarrow> 'task scheduler" where
  "end_task server i s =
     pending_add server (- 1)
       (s\<lparr>sd_running := drop_at i (sd_running s), sd_ended := sd_ended s @ [sd_running s ! i]\<rparr>)"

text \<open>
  \<open>Wait\<close> of the compute scheduler returns when no task is left; \<open>Wait\<close> of the I/O scheduler
  stops the service and returns when no task runs.
\<close>

definition io_stop :: "'task scheduler \<Rightarrow> 'task scheduler" where
  "io_stop s = s\<lparr>sd_stopped := True\<rparr>"

definition compute_Wait :: "'task scheduler \<Rightarrow> bool" where
  "compute_Wait s \<longleftrightarrow> sd_waiting s = [] \<and> sd_running s = []"

definition io_Wait :: "'task scheduler \<Rightarrow> bool" where
  "io_Wait s \<longleftrightarrow> sd_stopped s \<and> sd_running s = []"

text \<open>The metrics: the pending tasks, and the average wait in milliseconds before rounding to a \<open>double\<close>.\<close>

definition pending_tasks :: "'task scheduler \<Rightarrow> int" where
  "pending_tasks s = sint (sd_pending s)"

definition avg_wait_ms :: "'task scheduler \<Rightarrow> rat" where
  "avg_wait_ms s = (if sd_waits s = 0 then 0 else of_nat (unat (sd_wait_ns s)) / of_nat (unat (sd_waits s)) / 1000000)"

section \<open>Runs\<close>

text \<open>
  What happens to a scheduler: threads call \<open>Schedule\<close>, its own threads start and end tasks, the
  destructor stops the I/O service. The compute pool starts any task, the I/O service the
  first, and none once it is stopped. \<open>threads\<close> is the number of threads that run tasks, the one
  that waits for the pool included. A run gives nothing when an action is not possible.
\<close>

datatype 'task action = Enter 'task int | Post nat bool | Start nat int | End nat | Stop

fun possible :: "bool \<Rightarrow> nat \<Rightarrow> 'task action \<Rightarrow> 'task scheduler \<Rightarrow> bool" where
  "possible io threads (Enter t now) s \<longleftrightarrow> True"
| "possible io threads (Post i accepted) s \<longleftrightarrow> i < length (sd_entering s) \<and> (io \<longrightarrow> accepted)"
| "possible io threads (Start i now) s \<longleftrightarrow>
     i < length (sd_waiting s) \<and> length (sd_running s) < threads \<and> (io \<longrightarrow> i = 0 \<and> \<not> sd_stopped s)"
| "possible io threads (End i) s \<longleftrightarrow> i < length (sd_running s)"
| "possible io threads Stop s \<longleftrightarrow> io"

fun act :: "bool \<Rightarrow> bool \<Rightarrow> 'task action \<Rightarrow> 'task scheduler \<Rightarrow> 'task scheduler" where
  "act server io (Enter t now) s = enter_task server t now s"
| "act server io (Post i accepted) s = (if io then io_post i s else compute_post server i accepted s)"
| "act server io (Start i now) s = start_task server i now s"
| "act server io (End i) s = end_task server i s"
| "act server io Stop s = io_stop s"

fun sched_run :: "bool \<Rightarrow> bool \<Rightarrow> nat \<Rightarrow> 'task action list \<Rightarrow> 'task scheduler \<Rightarrow> 'task scheduler option" where
  "sched_run server io threads [] s = Some s"
| "sched_run server io threads (a # as) s =
     (if possible io threads a s then sched_run server io threads as (act server io a s) else None)"

text \<open>The tasks that a run schedules, those that it drops, and the time that those it starts have waited.\<close>

definition entered_by :: "'task action \<Rightarrow> 'task list" where
  "entered_by a = (case a of Enter t now \<Rightarrow> [t] | _ \<Rightarrow> [])"

definition dropped_by :: "'task action \<Rightarrow> 'task scheduler \<Rightarrow> 'task list" where
  "dropped_by a s = (case a of Post i accepted \<Rightarrow> if accepted then [] else [fst (sd_entering s ! i)] | _ \<Rightarrow> [])"

definition waited_by :: "'task action \<Rightarrow> 'task scheduler \<Rightarrow> int list" where
  "waited_by a s = (case a of Start i now \<Rightarrow> [now - snd (sd_waiting s ! i)] | _ \<Rightarrow> [])"

fun run_log :: "bool \<Rightarrow> bool \<Rightarrow> 'task action list \<Rightarrow> 'task scheduler \<Rightarrow> 'task list \<times> 'task list \<times> int list" where
  "run_log server io [] s = ([], [], [])"
| "run_log server io (a # as) s =
     (let (es, ds, ws) = run_log server io as (act server io a s)
      in (entered_by a @ es, dropped_by a s @ ds, waited_by a s @ ws))"

section \<open>Conservation\<close>

lemma mset_drop_at: "i < length xs \<Longrightarrow> add_mset (xs ! i) (mset (drop_at i xs)) = mset xs"
  by (metis drop_at_def id_take_nth_drop mset.simps(2) mset_append union_mset_add_mset_right)

lemma image_drop_at: "i < length xs \<Longrightarrow> add_mset (f (xs ! i)) (image_mset f (mset (drop_at i xs))) = image_mset f (mset xs)"
  by (metis mset_drop_at image_mset_add_mset)

lemma length_drop_at:
  assumes "i < length xs"
  shows "length (drop_at i xs) = length xs - 1" "(of_nat (length (drop_at i xs)) :: 'w :: len word) = of_nat (length xs) - 1"
proof -
  have "length xs = Suc (length (drop_at i xs))" using assms by (simp add: drop_at_def)
  then show "length (drop_at i xs) = length xs - 1" "(of_nat (length (drop_at i xs)) :: 'w word) = of_nat (length xs) - 1"
    by simp_all
qed

text \<open>The tasks that a scheduler holds, by the stage they are in.\<close>

definition held :: "'task scheduler \<Rightarrow> 'task multiset" where
  "held s = mset (map fst (sd_entering s)) + mset (map fst (sd_waiting s)) + mset (sd_running s) + mset (sd_ended s)"

definition live :: "'task scheduler \<Rightarrow> nat" where
  "live s = length (sd_entering s) + length (sd_waiting s) + length (sd_running s)"

lemmas act_defs = enter_task_def compute_post_def io_post_def start_task_def end_task_def io_stop_def pending_add_def
  Let_def case_prod_unfold

lemma act_held:
  assumes "possible io threads a s"
  shows "held (act server io a s) + mset (dropped_by a s) = held s + mset (entered_by a)"
  using assms
  by (cases a) (auto simp: held_def act_defs dropped_by_def entered_by_def image_drop_at [of 0, simplified] image_drop_at mset_drop_at)

lemma act_live:
  assumes "possible io threads a s" "sd_pending s = of_nat (live s)"
  shows "sd_pending (act True io a s) = of_nat (live (act True io a s))"
  using assms by (cases a) (auto simp: live_def act_defs length_drop_at(2) length_drop_at(2) [of 0, simplified])

lemma act_waits:
  "sd_wait_ns (act True io a s) = sd_wait_ns s + word_of_int (sum_list (waited_by a s))"
  "sd_waits (act True io a s) = sd_waits s + of_nat (length (waited_by a s))"
  by (cases a; simp add: act_defs waited_by_def)+

text \<open>The same for whole runs.\<close>

lemma run_held:
  "sched_run server io threads as s = Some s' \<Longrightarrow> run_log server io as s = (es, ds, ws) \<Longrightarrow>
     held s' + mset ds = held s + mset es"
proof (induction as arbitrary: s es ds ws)
  case (Cons a as)
  obtain es1 ds1 ws1 where log: "run_log server io as (act server io a s) = (es1, ds1, ws1)"
    by (cases "run_log server io as (act server io a s)")
  from Cons.prems log have "possible io threads a s" "es = entered_by a @ es1" "ds = dropped_by a s @ ds1"
    "sched_run server io threads as (act server io a s) = Some s'" by (auto split: if_splits)
  then have *: "held s' + mset ds1 = held (act server io a s) + mset es1"
    "held (act server io a s) + mset (dropped_by a s) = held s + mset (entered_by a)"
    using Cons.IH [OF _ log] act_held by blast+
  have "held s' + mset ds = held s' + mset ds1 + mset (dropped_by a s)"
    using \<open>ds = dropped_by a s @ ds1\<close> by simp
  also have "\<dots> = held (act server io a s) + mset es1 + mset (dropped_by a s)" by (simp only: *(1))
  also have "\<dots> = held (act server io a s) + mset (dropped_by a s) + mset es1" by (simp only: ac_simps)
  also have "\<dots> = held s + mset es" using \<open>es = entered_by a @ es1\<close> by (simp add: *(2))
  finally show ?case .
qed simp

lemma run_counts:
  "sched_run True io threads as s = Some s' \<Longrightarrow> run_log True io as s = (es, ds, ws) \<Longrightarrow> sd_pending s = of_nat (live s) \<Longrightarrow>
     sd_pending s' = of_nat (live s') \<and> sd_wait_ns s' = sd_wait_ns s + word_of_int (sum_list ws) \<and>
     sd_waits s' = sd_waits s + of_nat (length ws)"
proof (induction as arbitrary: s es ds ws)
  case (Cons a as)
  obtain es1 ds1 ws1 where log: "run_log True io as (act True io a s) = (es1, ds1, ws1)"
    by (cases "run_log True io as (act True io a s)")
  from Cons.prems log have *: "possible io threads a s" "ws = waited_by a s @ ws1"
    "sched_run True io threads as (act True io a s) = Some s'" by (auto split: if_splits)
  with Cons.IH [OF *(3) log act_live [OF *(1) Cons.prems(3)]] act_waits [of io a s] show ?case by simp
qed simp

lemma unat_of_word_int: "(of_nat (unat (word_of_int k :: 64 word)) :: rat) = of_int (k mod 2 ^ 64)"
proof -
  have "int (unat (word_of_int k :: 64 word)) = k mod 2 ^ 64"
    using uint_word_of_int [where 'a = 64, of k] by (simp only: flip: uint_nat) simp
  then show ?thesis by (metis of_int_of_nat_eq)
qed

lemma unat_of_nat_int: "int (unat (of_nat n :: 64 word)) = int n mod 2 ^ 64"
  using uint_word_of_int [where 'a = 64, of "int n"] by (simp add: unat_of_nat take_bit_eq_mod zmod_int)

text \<open>C18: However the calls and the threads of a scheduler interleave, no task is lost or run twice: the
  tasks that were scheduled are those that were dropped with an exception and those that it
  holds in one of the four stages. On a server the counters are exact up to the wrap-around of
  their width: the metric of the pending tasks is their number as a signed 32-bit integer, and
  the average is the one of all tasks that were started.\<close>
theorem scheduler_counts:
  assumes "sched_run True io threads as new_scheduler = Some s" "run_log True io as new_scheduler = (es, ds, ws)"
  shows "held s + mset ds = mset es \<and>
    pending_tasks s = (int (live s) + 2 ^ 31) mod 2 ^ 32 - 2 ^ 31 \<and>
    avg_wait_ms s = (if int (length ws) mod 2 ^ 64 = 0 then 0
      else of_int (sum_list ws mod 2 ^ 64) / of_int (int (length ws) mod 2 ^ 64) / 1000000)"
proof -
  have new: "sd_pending (new_scheduler :: 'a scheduler) = of_nat (live (new_scheduler :: 'a scheduler))"
    "held (new_scheduler :: 'a scheduler) = {#}"
    by (simp_all add: new_scheduler_def live_def held_def)
  have counts: "sd_pending s = of_nat (live s)" "sd_wait_ns s = word_of_int (sum_list ws)" "sd_waits s = of_nat (length ws)"
    using run_counts [OF assms new(1)] by (simp_all add: new_scheduler_def)
  have "pending_tasks s = (int (live s) + 2 ^ 31) mod 2 ^ 32 - 2 ^ 31"
    by (simp add: pending_tasks_def counts(1) signed_of_nat signed_take_bit_eq_take_bit_shift take_bit_eq_mod)
  moreover have "(of_nat (unat (sd_wait_ns s)) :: rat) = of_int (sum_list ws mod 2 ^ 64)"
    by (simp only: counts(2) unat_of_word_int)
  moreover have waits: "int (unat (sd_waits s)) = int (length ws) mod 2 ^ 64"
    by (simp only: counts(3) unat_of_nat_int)
  then have "(of_nat (unat (sd_waits s)) :: rat) = of_int (int (length ws) mod 2 ^ 64)"
    by (metis of_int_of_nat_eq)
  moreover have "sd_waits s = 0 \<longleftrightarrow> int (length ws) mod 2 ^ 64 = 0"
    by (metis waits of_nat_eq_0_iff unat_eq_zero)
  moreover have "held s + mset ds = mset es" using run_held [OF assms] new(2) by simp
  ultimately show ?thesis unfolding avg_wait_ms_def by (simp only: if_True if_False simp_thms split: if_split)
qed

text \<open>Two tasks of which one ends; the other still waits, after ten nanoseconds for the first.\<close>

definition demo_actions :: "nat action list" where
  "demo_actions = [Enter 1 100, Enter 2 104, Post 0 True, Post 0 True, Start 0 110, End 0]"

theorem scheduler_counts_witness:
  "\<exists>s. sched_run True True 1 demo_actions new_scheduler = Some s \<and> pending_tasks s = 1 \<and> avg_wait_ms s = 1 / 100000 \<and>
     held s = {#1, 2#}"
proof -
  obtain s where s: "sched_run True True 1 demo_actions new_scheduler = Some s" "live s = 1"
    by (simp add: demo_actions_def act_defs new_scheduler_def drop_at_def live_def)
  have "run_log True True demo_actions new_scheduler = ([1, 2], [], [10])"
    by (simp add: demo_actions_def act_defs new_scheduler_def drop_at_def entered_by_def dropped_by_def waited_by_def)
  from scheduler_counts [OF s(1) this] s show ?thesis by simp
qed

section \<open>Stopping\<close>

lemma io_act_stopped:
  assumes "possible True threads a s" "sd_stopped s" "prefix w (sd_waiting s)"
  shows "sd_stopped (act server True a s) \<and> prefix w (sd_waiting (act server True a s)) \<and>
    mset (sd_running (act server True a s)) + mset (sd_ended (act server True a s)) = mset (sd_running s) + mset (sd_ended s)"
  using assms by (cases a) (auto simp: act_defs mset_drop_at)

text \<open>C37: The I/O scheduler loses what waits when it is stopped: whatever happens afterwards, the tasks
  that wait stay in the queue and are never started, only those that run already can end, and
  \<open>Wait\<close> returns as soon as they have. The metric still counts the lost tasks.\<close>
theorem io_stop_loses_waiting:
  assumes "sched_run server True threads as (io_stop s) = Some s'"
  shows "prefix (sd_waiting s) (sd_waiting s') \<and>
    mset (sd_running s') + mset (sd_ended s') = mset (sd_running s) + mset (sd_ended s) \<and>
    io_Wait s' = (sd_running s' = []) \<and>
    (server \<and> sd_pending s = of_nat (live s) \<longrightarrow> sd_pending s' = of_nat (live s') \<and> length (sd_waiting s) \<le> live s')"
proof -
  have "sd_stopped s' \<and> prefix w (sd_waiting s') \<and>
      mset (sd_running s') + mset (sd_ended s') = mset (sd_running u) + mset (sd_ended u)"
    if "sched_run server True threads as u = Some s'" "sd_stopped u" "prefix w (sd_waiting u)" for u w
    using that
  proof (induction as arbitrary: u)
    case (Cons a as)
    then have "possible True threads a u" and run: "sched_run server True threads as (act server True a u) = Some s'"
      by (auto split: if_splits)
    with io_act_stopped [of threads a u w server] Cons.prems Cons.IH [OF run] show ?case by simp
  qed simp
  from this [OF assms, of "sd_waiting s"] have *: "sd_stopped s'" "prefix (sd_waiting s) (sd_waiting s')"
    "mset (sd_running s') + mset (sd_ended s') = mset (sd_running s) + mset (sd_ended s)"
    by (simp_all add: io_stop_def)
  have "sd_pending s' = of_nat (live s')" if "server" "sd_pending s = of_nat (live s)"
  proof -
    obtain es ds ws where "run_log True True as (io_stop s) = (es, ds, ws)" by (cases "run_log True True as (io_stop s)")
    from run_counts [OF _ this, of threads s'] assms that show ?thesis by (simp add: io_stop_def live_def)
  qed
  moreover have "length (sd_waiting s) \<le> live s'" using *(2) by (auto simp: live_def dest: prefix_length_le)
  ultimately show ?thesis using * by (simp add: io_Wait_def)
qed

theorem io_stop_loses_waiting_witness:
  "\<exists>s s'. sched_run True True 1 [Enter (1 :: nat) 0, Post 0 True] new_scheduler = Some s \<and>
     sched_run True True 1 [Enter 2 5, Post 0 True] (io_stop s) = Some s' \<and> io_Wait s' \<and> prefix [(1, 0)] (sd_waiting s')"
proof -
  obtain s where s: "sched_run True True 1 [Enter (1 :: nat) 0, Post 0 True] new_scheduler = Some s" "sd_waiting s = [(1, 0)]"
    by (simp add: act_defs new_scheduler_def drop_at_def)
  obtain s' where s': "sched_run True True 1 [Enter 2 5, Post 0 True] (io_stop s) = Some s'" "sd_running s' = []"
    using s(1) by (auto simp: act_defs new_scheduler_def drop_at_def io_stop_def)
  from io_stop_loses_waiting [OF s'(1)] s s' show ?thesis by auto
qed

text \<open>The work that is left, when a call of \<open>Schedule\<close> counts three, a waiting task two and a running one one.\<close>

definition work :: "'task scheduler \<Rightarrow> nat" where
  "work s = 3 * length (sd_entering s) + 2 * length (sd_waiting s) + length (sd_running s)"

fun is_enter :: "'task action \<Rightarrow> bool" where
  "is_enter (Enter _ _) = True"
| "is_enter _ = False"

lemma act_work:
  assumes "possible False threads a s" "\<not> is_enter a"
  shows "work (act server False a s) < work s"
  using assms by (cases a) (auto simp: work_def act_defs length_drop_at(1))



end
