(* ===== verification/Stubs.thy ===== *)
theory Stubs
  imports Tasks
begin

text \<open>
  The two ends of a remote call that the macros of \<open>CRPC.hpp\<close> and the Pulsar listeners make:
  the call stub of a method, with stored options, and the listeners that take messages from the
  broker. The parser of Protobuf is an argument of the listeners.
\<close>

section \<open>Call stubs\<close>

text \<open>The options of a stub, with the defaults of the macro for the method \<open>name\<close>.\<close>

record stub_options =
  so_timeout :: int
  so_retry :: int
  so_fail :: fail_policy

definition default_options :: "string \<Rightarrow> stub_options" where
  "default_options name = \<lparr>so_timeout = 1000, so_retry = 0, so_fail = FailDefault name\<rparr>"

definition with_options :: "stub_options option \<Rightarrow> (stub_options \<Rightarrow> node \<Rightarrow> (node, 'a) outcome) \<Rightarrow> node \<Rightarrow> (node, 'a) outcome" where
  "with_options opts f s =
     (case opts of None \<Rightarrow> Raise (RuntimeError ''Options not set'') s | Some o' \<Rightarrow> f o' s)"

definition stub_object :: "stub_options \<Rightarrow> string \<times> bool \<Rightarrow> call_object" where
  "stub_object o' to = retry (so_retry o') (with_timeout (so_timeout o') (on_fail (so_fail o') (builder_for to)))"

definition call_on_peer ::
  "world \<Rightarrow> environment \<Rightarrow> (json \<Rightarrow> exn + 'r) \<Rightarrow> string \<Rightarrow> stub_options option \<Rightarrow> string \<Rightarrow> json list \<Rightarrow>
   node \<Rightarrow> (node, 'r call_result) outcome" where
  "call_on_peer w env de name opts peer args =
     with_options opts (\<lambda>o' s. builder_call w env de name (stub_object o' (on_peer (topic_scope s) peer)) args s)"

text \<open>The call object that \<open>call_async_on_peer\<close> puts in a task, which runs it as \<open>run_async_call\<close> does.\<close>

definition call_async_on_peer :: "stub_options option \<Rightarrow> string \<Rightarrow> node \<Rightarrow> (node, call_object) outcome" where
  "call_async_on_peer opts peer = with_options opts (\<lambda>o' s. Ret (stub_object o' (on_peer (topic_scope s) peer)) s)"

definition fire_and_forget_on_peer :: "world \<Rightarrow> string \<Rightarrow> stub_options option \<Rightarrow> string \<Rightarrow> json list \<Rightarrow> unit op" where
  "fire_and_forget_on_peer w name opts peer args =
     with_options opts
       (\<lambda>o' s. builder_fire w (on_fail (so_fail o') (builder_for (on_peer (topic_scope s) peer))) name args s)"

definition fire_and_forget_on_scope :: "world \<Rightarrow> string \<Rightarrow> stub_options option \<Rightarrow> string \<Rightarrow> json list \<Rightarrow> unit op" where
  "fire_and_forget_on_scope w name opts scope args =
     with_options opts
       (\<lambda>o' s. builder_fire w (on_fail (so_fail o') (builder_for (on_scope (topic_scope s) scope))) name args s)"

text \<open>A stub without options sends nothing.\<close>

lemma stub_without_options:
  "call_on_peer w env de name None peer args s = Raise (RuntimeError ''Options not set'') s"
  "call_async_on_peer None peer s = Raise (RuntimeError ''Options not set'') s"
  "fire_and_forget_on_peer w name None peer args s = Raise (RuntimeError ''Options not set'') s"
  "fire_and_forget_on_scope w name None scope args s = Raise (RuntimeError ''Options not set'') s"
  by (simp_all add: call_on_peer_def call_async_on_peer_def fire_and_forget_on_peer_def fire_and_forget_on_scope_def
      with_options_def)

section \<open>Listeners\<close>

text \<open>
  A message at a peer: whether it is acknowledged, and the node when its handler returns. The
  listener of a method's topic acknowledges first; the one of the peer's answers acknowledges
  only what it can parse.
\<close>

definition callee_listener ::
  "(string \<Rightarrow> rpc_request option) \<Rightarrow> world \<Rightarrow> environment \<Rightarrow> string \<Rightarrow> string \<Rightarrow> node \<Rightarrow> bool \<times> node option" where
  "callee_listener parse w env scope data s =
     (True, case parse data of None \<Rightarrow> Some s | Some request \<Rightarrow> receive_request w env scope request s)"

definition answer_listener ::
  "(string \<Rightarrow> rpc_request option) \<Rightarrow> world \<Rightarrow> environment \<Rightarrow> string \<Rightarrow> node \<Rightarrow> bool \<times> node option" where
  "answer_listener parse w env data s =
     (case parse data of
        None \<Rightarrow> (False, Some s)
      | Some request \<Rightarrow> (True, receive_request w env (topic_scope s @ peer_uuid s) request s))"

text \<open>
  An answer that does not parse is never acknowledged: however often the broker delivers it
  again, the node and the message stay as they are.
\<close>

fun redeliver :: "(string \<Rightarrow> rpc_request option) \<Rightarrow> world \<Rightarrow> environment \<Rightarrow> string \<Rightarrow> nat \<Rightarrow> node \<Rightarrow> bool \<times> node option" where
  "redeliver parse w env data 0 s = (False, Some s)"
| "redeliver parse w env data (Suc n) s =
     (case answer_listener parse w env data s of
        (False, Some s') \<Rightarrow> redeliver parse w env data n s'
      | r \<Rightarrow> r)"

lemma malformed_answer_stays: "parse data = None \<Longrightarrow> redeliver parse w env data n s = (False, Some s)"
  by (induction n) (simp_all add: answer_listener_def)

end
