(* ===== verification/Typing.thy ===== *)
theory Typing
  imports Delivery
begin

text \<open>
  The remote calls are not typed: a call stub takes any arguments, and the method at the other
  end converts what it gets. These are the properties that a type system would give, over two
  processes and the message between them.
\<close>

section \<open>Decoding\<close>

lemma typed_call_texts:
  assumes "typed_call name args"
  shows "\<exists>n t xs. method_type name = Some (n, t) \<and> args = map JStr xs \<and> n \<le> length xs"
proof -
  obtain n t where n: "method_type name = Some (n, t)" "n \<le> length args" "list_all is_text args"
    using assms by (auto simp: typed_call_def split: option.splits)
  have "\<exists>xs. args = map JStr xs" using n(3)
  proof (induction args)
    case (Cons j js)
    then obtain x xs where "j = JStr x" "js = map JStr xs" by (auto simp: is_text_def split: json.splits)
    then have "j # js = map JStr (x # xs)" by simp
    then show ?case by (rule exI)
  qed simp
  with n(1,2) show ?thesis by auto
qed

lemma decode_serialized: "n \<le> length xs \<Longrightarrow> decode_args n (serialize_args (map JStr xs)) = Inr (take n xs)"
  by (cases "n = 0") (auto simp: decode_args_def tuple_args_def serialize_args_def take_map)

section \<open>Messages between processes\<close>

text \<open>C6: Well-typed peers do not go wrong: when a message that one process sent calls a method that
  another has, in any states that the two can reach, the receiver runs the method on exactly
  the texts that the caller gave, as many as its declaration has, and never answers that the
  arguments could not be converted; and an answer without error has a value that the caller
  can convert to the declared result type.\<close>
theorem rpc_type_safe:
  assumes "(process_step x)\<^sup>*\<^sup>* (new_process server uuid entries db) p"
    and "(process_step y)\<^sup>*\<^sup>* (new_process server' uuid' entries' db') q"
    and "(topic, req) \<in> set (wire (pr_node p))"
    and "\<And>j. jparse (o_world y) (jdump (o_world x) j) = Some j"
  shows "(rq_responds_to req = [] \<and> rq_rpc_id req \<noteq> [] \<and> lookup_method (pr_node q) topic (rq_name req) = Some d \<longrightarrow>
      (\<exists>xs. jparse (o_world y) (rq_args req) = Some (serialize_args (map JStr xs)) \<and> delegate_arity d \<le> length xs \<and>
        exec_delegate (o_world y) env d (serialize_args (map JStr xs)) s =
          run_method (o_world y) env d (take (delegate_arity d) xs) s)) \<and>
    (rq_responds_to req \<noteq> [] \<and> \<not> rq_error req \<longrightarrow>
      (\<exists>n t v. method_type (rq_name req) = Some (n, t) \<and> jparse (o_world y) (rq_args req) = Some v \<and> fits t v))"
proof -
  have p: "node_inv (o_world x) (pr_node p)" by (rule process.reachable_inv [OF assms(1)]) (rule new_process_inv)
  have q: "node_inv (o_world y) (pr_node q)" by (rule process.reachable_inv [OF assms(2)]) (rule new_process_inv)
  have typed: "call_ok (o_world x) req \<or> response_ok (o_world x) req"
    using node_invD(7) [OF p] assms(3) by (auto simp: stub_ok_def wire_ok_def)
  show ?thesis
  proof (intro conjI impI, elim conjE)
    assume call: "rq_responds_to req = []" "rq_rpc_id req \<noteq> []" "lookup_method (pr_node q) topic (rq_name req) = Some d"
    then have "call_ok (o_world x) req" using typed by (simp add: response_ok_def)
    then obtain n t xs where xs: "method_type (rq_name req) = Some (n, t)" "n \<le> length xs"
      "rq_args req = jdump (o_world x) (serialize_args (map JStr xs))"
      using typed_call_texts by (fastforce simp: call_ok_def)
    have "delegate_name d = rq_name req"
      using node_invD(7) [OF q] call(3) by (simp add: stub_ok_def methods_ok_lookup)
    then have "delegate_arity d = n" using xs(1) by (simp add: delegate_arity_def)
    with xs exec_decoded [of d _ "take n xs"] decode_serialized [of n xs] assms(4)
    show "\<exists>xs. jparse (o_world y) (rq_args req) = Some (serialize_args (map JStr xs)) \<and> delegate_arity d \<le> length xs \<and>
        exec_delegate (o_world y) env d (serialize_args (map JStr xs)) s =
          run_method (o_world y) env d (take (delegate_arity d) xs) s" by auto
  next
    assume "rq_responds_to req \<noteq> [] \<and> \<not> rq_error req"
    then show "\<exists>n t v. method_type (rq_name req) = Some (n, t) \<and> jparse (o_world y) (rq_args req) = Some v \<and> fits t v"
      using typed assms(4) by (auto simp: call_ok_def response_ok_def)
  qed
qed

text \<open>A process that has sent a call, for the witness.\<close>

definition demo_caller :: "unit process" where
  "demo_caller = the (calls demo_outside [Game (Call_CMIInstantiate ''g'' ''m'' ''prefab'' ''pl'' ''c'')] (demo_process True))"

theorem rpc_type_safe_witness:
  "\<exists>xs. length xs \<ge> 4 \<and> exec_delegate demo_world (\<lambda>_ s. s) (GrapeMethod ''g'' ''CMIInstantiate'')
       (serialize_args (map JStr xs)) (pr_node demo_owner) =
     run_method demo_world (\<lambda>_ s. s) (GrapeMethod ''g'' ''CMIInstantiate'') (take 4 xs) (pr_node demo_owner)"
proof -
  have "calls demo_outside [Game (Call_CMIInstantiate ''g'' ''m'' ''prefab'' ''pl'' ''c'')] (demo_process True) \<noteq> None"
    by code_simp
  then have reach: "(process_step demo_outside)\<^sup>*\<^sup>* (demo_process True) demo_caller"
    unfolding demo_caller_def by (rule calls_the) simp
  have sent: "map fst (wire (pr_node demo_caller)) = [tp_peer (topic_scope (pr_node demo_owner)) ''g'']"
    "list_all (\<lambda>m. rq_responds_to (snd m) = [] \<and> rq_rpc_id (snd m) \<noteq> [] \<and>
       rq_name (snd m) = rpc_name ''Grape'' ''CMIInstantiate'') (wire (pr_node demo_caller))"
    by code_simp+
  then obtain req where req: "(tp_peer (topic_scope (pr_node demo_owner)) ''g'', req) \<in> set (wire (pr_node demo_caller))"
    "rq_responds_to req = []" "rq_rpc_id req \<noteq> []" "rq_name req = rpc_name ''Grape'' ''CMIInstantiate''"
    by (cases "wire (pr_node demo_caller)") auto
  have bound: "lookup_method (pr_node demo_owner) (tp_peer (topic_scope (pr_node demo_owner)) ''g'')
      (rpc_name ''Grape'' ''CMIInstantiate'') = Some (GrapeMethod ''g'' ''CMIInstantiate'')" by code_simp
  have world: "jparse (o_world demo_outside) (jdump (o_world demo_outside) j) = Some j" for j
    by (simp only: demo_outside_world demo_roundtrip)
  have "delegate_arity (GrapeMethod ''g'' ''CMIInstantiate'') = 4" by (simp add: delegate_arity_def)
  with rpc_type_safe [OF reach demo_owner req(1) world, of "GrapeMethod ''g'' ''CMIInstantiate''" "\<lambda>_ s. s" "pr_node demo_owner"]
    req bound show ?thesis unfolding demo_outside_world by auto
qed

end
